theory Spec2Isabelle
  imports Main "HOL-Library.Word" "HOL-Library.Sublist"
begin

unbundle bit_operations_syntax

section \<open>The NewOS process and thread subsystem\<close>

text \<open>
  A shallow embedding of the scheduler, thread and process code of the kernel
  (the second document of \<^verbatim>\<open>src/kernel/net/udp.c\<close>, lines 364 to 3219).
  Kernel objects live in a store that maps addresses to records; a C pointer is an
  \<open>option\<close> of an address, \<open>None\<close> being \<open>NULL\<close>.  Reading through \<open>NULL\<close> or
  through an address that holds no record, a failed \<open>ASSERT\<close> and a \<open>panic\<close> end
  a run with an \<open>abort\<close> value.
\<close>

subsection \<open>Header constants\<close>

text \<open>
  The headers \<^verbatim>\<open>newos/errors.h\<close>, \<^verbatim>\<open>kernel/thread.h\<close> and
  \<^verbatim>\<open>newos/defines.h\<close> are not part of the sources at hand, so the constants
  the code takes from them are a parameter \<open>K\<close> of every function that names one.
\<close>

record consts_h =
  NO_ERROR :: int
  ERR_NO_MEMORY :: int
  ERR_INVALID_ARGS :: int
  ERR_INVALID_HANDLE :: int
  ERR_NOT_FOUND :: int
  ERR_TASK_PROC_DELETED :: int
  ERR_SEM_DELETED :: int
  THREAD_IDLE_PRIORITY :: int
  THREAD_MIN_PRIORITY :: int
  THREAD_MEDIUM_PRIORITY :: int
  THREAD_HIGH_PRIORITY :: int
  THREAD_MAX_PRIORITY :: int
  THREAD_MIN_RT_PRIORITY :: int
  THREAD_MAX_RT_PRIORITY :: int
  THREAD_NUM_PRIORITY_LEVELS :: int
  SYS_MAX_OS_NAME_LEN :: int
  STACK_SIZE :: "32 word"
  USER_STACK_REGION :: "32 word"
  USER_STACK_REGION_SIZE :: "32 word"

text \<open>
  Modelled from the spec: the values of the error enum are absent.  Section 7 calls it
  a flat set of negative sentinels of distinct kinds, and the code tests success with
  \<open>err >= 0\<close> and returns the literal \<open>0\<close> where neighbouring functions return
  \<open>NO_ERROR\<close>.
\<close>

definition errors_h_ok :: "consts_h \<Rightarrow> bool" where
  "errors_h_ok K \<longleftrightarrow>
     NO_ERROR K = 0 \<and> ERR_NO_MEMORY K < 0 \<and> ERR_INVALID_ARGS K < 0 \<and>
     ERR_INVALID_HANDLE K < 0 \<and> ERR_NOT_FOUND K < 0 \<and>
     ERR_TASK_PROC_DELETED K < 0 \<and> ERR_SEM_DELETED K < 0 \<and>
     distinct [ERR_NO_MEMORY K, ERR_INVALID_ARGS K, ERR_INVALID_HANDLE K,
               ERR_NOT_FOUND K, ERR_TASK_PROC_DELETED K, ERR_SEM_DELETED K]"

subsection \<open>Data model\<close>

type_synonym thread_id = int
type_synonym proc_id = int
type_synonym pgrp_id = int
type_synonym sess_id = int
type_synonym sem_id = int
type_synonym region_id = int
type_synonym bigtime_t = int
type_synonym addr_t = "32 word"

type_synonym thread_ptr = nat
type_synonym proc_ptr = nat
type_synonym cpu_ptr = nat

text \<open>
  Ids and counters are 32-bit \<open>int\<close>, \<open>bigtime_t\<close> is the 64-bit signed integer
  of the kernel's type header.  They are kept as integers; where the code adds to
  one, the sum is taken back into the range of the type.
\<close>

definition s32 :: "int \<Rightarrow> int" where
  "s32 x = (x + 2 ^ 31) mod 2 ^ 32 - 2 ^ 31"

definition s64 :: "int \<Rightarrow> int" where
  "s64 x = (x + 2 ^ 63) mod 2 ^ 64 - 2 ^ 63"


datatype abort = Null_deref | Assert_failed | Panic

datatype thread_state =
    THREAD_STATE_BIRTH | THREAD_STATE_READY | THREAD_STATE_RUNNING
  | THREAD_STATE_WAITING | THREAD_STATE_SUSPENDED | THREAD_STATE_FREE_ON_RESCHED

datatype proc_state = PROC_STATE_BIRTH | PROC_STATE_NORMAL | PROC_STATE_DEATH

datatype time_type = KERNEL_TIME | USER_TIME

datatype signal = SIGHUP | SIGCONT | SIGSTOP | SIGCHLD | SIGKILLTHR

datatype sig_target = To_thread thread_id | To_proc proc_id

text \<open>
  The translation map handed to the context switch: that of the user address space
  of a process, or that of its kernel address space.
\<close>

datatype tmap = Aspace_map proc_ptr | Kaspace_map proc_ptr

text \<open>
  \<open>struct thread\<close>, with the fields the functions below read or write.  The two list
  nodes of a thread are not fields: a queue is the list of the threads on it, head
  first.
\<close>

record thread =
  t_id :: thread_id
  t_name :: string
  t_proc :: "proc_ptr option"
  cpu :: "cpu_ptr option"
  fpu_cpu :: "cpu_ptr option"
  fpu_state_saved :: bool
  priority :: int
  t_state :: thread_state
  next_state :: thread_state
  return_code_sem :: sem_id
  kernel_stack_region_id :: region_id
  kernel_stack_base :: addr_t
  user_stack_region_id :: region_id
  user_stack_base :: addr_t
  entry :: addr_t
  args :: addr_t
  in_kernel :: bool
  int_disable_level :: int
  user_time :: bigtime_t
  kernel_time :: bigtime_t
  last_time :: bigtime_t
  last_time_type :: time_type

record proc =
  p_id :: proc_id
  p_name :: string
  parent :: "proc_ptr option"
  children :: "proc_ptr list"
  pgid :: pgrp_id
  sid :: sess_id
  num_threads :: int
  thread_list :: "thread_ptr list"
  main_thread :: "thread_ptr option"
  aspace_id :: int
  p_state :: proc_state

record cpu_ent =
  cpu_num :: int
  preempted :: bool
  quantum_timer :: "bigtime_t option"
  fpu_state_thread :: "thread_ptr option"

text \<open>\<open>struct pgid_node\<close> and \<open>struct sid_node\<close>: an id and the list of members.\<close>

record group_node =
  node_id :: int
  node_list :: "proc_ptr list"

record thread_info =
  ti_id :: thread_id
  ti_owner_proc_id :: proc_id
  ti_name :: string
  ti_state :: thread_state
  ti_priority :: int
  ti_user_stack_base :: addr_t
  ti_user_time :: bigtime_t
  ti_kernel_time :: bigtime_t

record proc_info =
  pi_pid :: proc_id
  pi_ppid :: proc_id
  pi_pgid :: pgrp_id
  pi_sid :: sess_id
  pi_name :: string
  pi_state :: proc_state
  pi_num_threads :: int

text \<open>
  The kernel's global variables, the store, and what the absent collaborators keep:
  the requests made to the signal code, in order, and the semaphores.

  Modelled from the spec: \<^verbatim>\<open>khash.c\<close> is absent.  A hash table is the list of
  the elements inserted into it, newest first; a lookup returns the first element
  whose key compares equal, a removal unlinks the element it is given.
\<close>

record kstate =
  threads :: "thread_ptr \<rightharpoonup> thread"
  procs :: "proc_ptr \<rightharpoonup> proc"
  cpus :: "cpu_ptr \<rightharpoonup> cpu_ent"
  thread_hash :: "thread_ptr list"
  proc_hash :: "proc_ptr list"
  pgid_hash :: "group_node list"
  sid_hash :: "group_node list"
  kernel_proc :: "proc_ptr option"
  next_thread_id :: thread_id
  next_proc_id :: proc_id
  run_q :: "int \<Rightarrow> thread_ptr list"
  dead_q :: "thread_ptr list"
  current_thread :: "thread_ptr option"
  curr_cpu :: "cpu_ptr option"
  installed_tmap :: "tmap option"
  rand_next :: "32 word"
  time_source :: "nat \<Rightarrow> bigtime_t"
  time_reads :: nat
  sig_log :: "(sig_target \<times> signal \<times> bool) list"
  sems :: "sem_id \<rightharpoonup> int"
  sem_deleted :: "(sem_id \<times> int) list"

subsection \<open>Sequencing and the store\<close>

definition seq :: "abort + 'a \<Rightarrow> ('a \<Rightarrow> abort + 'b) \<Rightarrow> abort + 'b" where
  "seq m f = (case m of Inl e \<Rightarrow> Inl e | Inr x \<Rightarrow> f x)"

definition get_thread :: "kstate \<Rightarrow> thread_ptr option \<Rightarrow> abort + thread" where
  "get_thread s tp =
     (case tp of None \<Rightarrow> Inl Null_deref
      | Some a \<Rightarrow> (case threads s a of None \<Rightarrow> Inl Null_deref | Some t \<Rightarrow> Inr t))"

definition get_proc :: "kstate \<Rightarrow> proc_ptr option \<Rightarrow> abort + proc" where
  "get_proc s pp =
     (case pp of None \<Rightarrow> Inl Null_deref
      | Some a \<Rightarrow> (case procs s a of None \<Rightarrow> Inl Null_deref | Some p \<Rightarrow> Inr p))"

definition get_cpu :: "kstate \<Rightarrow> cpu_ptr option \<Rightarrow> abort + cpu_ent" where
  "get_cpu s cp =
     (case cp of None \<Rightarrow> Inl Null_deref
      | Some a \<Rightarrow> (case cpus s a of None \<Rightarrow> Inl Null_deref | Some c \<Rightarrow> Inr c))"

definition put_thread :: "thread_ptr \<Rightarrow> thread \<Rightarrow> kstate \<Rightarrow> kstate" where
  "put_thread a t s = s\<lparr>threads := (threads s)(a \<mapsto> t)\<rparr>"

definition put_proc :: "proc_ptr \<Rightarrow> proc \<Rightarrow> kstate \<Rightarrow> kstate" where
  "put_proc a p s = s\<lparr>procs := (procs s)(a \<mapsto> p)\<rparr>"

definition put_cpu :: "cpu_ptr \<Rightarrow> cpu_ent \<Rightarrow> kstate \<Rightarrow> kstate" where
  "put_cpu a c s = s\<lparr>cpus := (cpus s)(a \<mapsto> c)\<rparr>"

subsection \<open>Index lookups\<close>

text \<open>
  \<open>thread_struct_compare\<close> and \<open>proc_struct_compare\<close> compare the id of an element
  with the key.  An address in a table whose record has been freed matches no key
  (the code unlinks a record before it frees it).
\<close>

definition thread_struct_compare :: "kstate \<Rightarrow> thread_ptr \<Rightarrow> thread_id \<Rightarrow> bool" where
  "thread_struct_compare s a key =
     (case threads s a of None \<Rightarrow> False | Some t \<Rightarrow> t_id t = key)"

definition proc_struct_compare :: "kstate \<Rightarrow> proc_ptr \<Rightarrow> proc_id \<Rightarrow> bool" where
  "proc_struct_compare s a key =
     (case procs s a of None \<Rightarrow> False | Some p \<Rightarrow> p_id p = key)"

definition thread_get_thread_struct_locked :: "kstate \<Rightarrow> thread_id \<Rightarrow> thread_ptr option" where
  "thread_get_thread_struct_locked s ident =
     find (\<lambda>a. thread_struct_compare s a ident) (thread_hash s)"

definition proc_get_proc_struct_locked :: "kstate \<Rightarrow> proc_id \<Rightarrow> proc_ptr option" where
  "proc_get_proc_struct_locked s ident =
     find (\<lambda>a. proc_struct_compare s a ident) (proc_hash s)"

subsection \<open>Thread and process information\<close>

text \<open>
  \<open>strncpy(dst, src, SYS_MAX_OS_NAME_LEN-1)\<close> followed by the terminating zero: a
  name is the characters before the terminator.
\<close>

definition copy_name :: "consts_h \<Rightarrow> string \<Rightarrow> string" where
  "copy_name K n = take (nat (SYS_MAX_OS_NAME_LEN K - 1)) n"

text \<open>
  \<open>thread_get_thread_info\<close>: the result is the status and the caller's structure
  after the call.  \<open>uninit\<close> is what the local \<open>info\<close> holds before it is
  assigned.
\<close>

definition thread_get_thread_info ::
  "consts_h \<Rightarrow> kstate \<Rightarrow> thread_info \<Rightarrow> thread_id \<Rightarrow> thread_info \<Rightarrow>
   abort + (int \<times> thread_info)" where
  "thread_get_thread_info K s uninit ident outinfo =
     (case thread_get_thread_struct_locked s ident of
        None \<Rightarrow>
          (let err = ERR_INVALID_HANDLE K
           in Inr (err, if err \<ge> 0 then uninit else outinfo))
      | Some a \<Rightarrow>
          seq (get_thread s (Some a)) (\<lambda>t.
          seq (get_proc s (t_proc t)) (\<lambda>p.
            (let info = \<lparr> ti_id = ident, ti_owner_proc_id = p_id p,
                          ti_name = copy_name K (t_name t), ti_state = t_state t,
                          ti_priority = priority t,
                          ti_user_stack_base = user_stack_base t,
                          ti_user_time = user_time t, ti_kernel_time = kernel_time t \<rparr>;
                 err = NO_ERROR K
             in Inr (err, if err \<ge> 0 then info else outinfo)))))"

definition proc_get_proc_info ::
  "consts_h \<Rightarrow> kstate \<Rightarrow> proc_info \<Rightarrow> proc_id \<Rightarrow> proc_info \<Rightarrow>
   abort + (int \<times> proc_info)" where
  "proc_get_proc_info K s uninit ident outinfo =
     (case proc_get_proc_struct_locked s ident of
        None \<Rightarrow>
          (let err = ERR_INVALID_HANDLE K
           in Inr (err, if err \<ge> 0 then uninit else outinfo))
      | Some a \<Rightarrow>
          seq (get_proc s (Some a)) (\<lambda>p.
          seq (get_proc s (parent p)) (\<lambda>pa.
            (let info = \<lparr> pi_pid = ident, pi_ppid = p_id pa, pi_pgid = pgid p,
                          pi_sid = sid p, pi_name = copy_name K (p_name p),
                          pi_state = p_state p, pi_num_threads = num_threads p \<rparr>;
                 err = NO_ERROR K
             in Inr (err, if err \<ge> 0 then info else outinfo)))))"

subsection \<open>Collaborators\<close>

text \<open>
  What the code calls but does not define is a parameter \<open>X\<close>: the answers of the
  allocator, of the virtual memory code and of the signal code, and \<open>others\<close>, what
  the other threads do to the kernel state while the caller waits or has released
  the process lock.  \<open>uninit_thread\<close> is what freshly allocated memory holds,
  \<open>ints_enabled\<close> the value of \<open>kernel_startup || int_are_interrupts_enabled()\<close>.
  Taking and releasing the two spinlocks and masking interrupts change nothing in
  a run of one thread and are left out.
\<close>

record extern =
  send_signal_status :: "kstate \<Rightarrow> thread_id \<Rightarrow> signal \<Rightarrow> int"
  kmalloc :: "nat option"
  sem_create :: sem_id
  arch_thread_init_thread_struct :: int
  vm_create_kernel_stack :: "region_id \<times> addr_t"
  vm_create_user_stack :: "addr_t \<Rightarrow> region_id \<times> addr_t"
  wake_status :: int
  others :: "kstate \<Rightarrow> kstate"
  uninit_thread :: thread
  ints_enabled :: bool

text \<open>
  Modelled from the spec: \<^verbatim>\<open>signal.c\<close> is absent.  \<open>send_signal_etc\<close> records
  the request (thread, signal, whether \<open>SIG_FLAG_NO_RESCHED\<close> is set) and returns
  the status the signal code answers.
\<close>

definition send_signal_etc ::
  "extern \<Rightarrow> kstate \<Rightarrow> thread_id \<Rightarrow> signal \<Rightarrow> bool \<Rightarrow> int \<times> kstate" where
  "send_signal_etc X s ident sg no_resched =
     (send_signal_status X s ident sg,
      s\<lparr>sig_log := sig_log s @ [(To_thread ident, sg, no_resched)]\<rparr>)"

text \<open>
  Modelled from the spec: \<^verbatim>\<open>sem.c\<close> is absent.  Section 6 asks of the semaphore
  code: create, acquire, release, "delete with retcode; return \<open>ERR_SEM_DELETED\<close> on
  deletion"; section 7 names \<open>INVALID_HANDLE\<close> for an unknown id.  \<open>sems\<close> maps the
  live semaphores to their counts, \<open>sem_deleted\<close> lists the deleted ones with their
  codes, newest first.  An acquire that cannot take the count waits while the other
  threads run; if they have deleted the semaphore it returns \<open>ERR_SEM_DELETED\<close> and
  stores the code, else it returns the status of the wake-up.  A negative handle is
  no semaphore (\<open>create_thread_struct\<close> reads a negative \<open>sem_create\<close> as failure).
  \<open>retcode\<close> is the cell the caller passes, \<open>None\<close> for \<open>NULL\<close>.
\<close>

definition sem_delete_etc :: "kstate \<Rightarrow> sem_id \<Rightarrow> int \<Rightarrow> kstate" where
  "sem_delete_etc s sem retcode =
     (case sems s sem of
        None \<Rightarrow> s
      | Some c \<Rightarrow> s\<lparr>sems := (sems s)(sem := None),
                     sem_deleted := (sem, retcode) # sem_deleted s\<rparr>)"

definition sem_acquire_etc ::
  "consts_h \<Rightarrow> extern \<Rightarrow> kstate \<Rightarrow> sem_id \<Rightarrow> int option \<Rightarrow> int \<times> int option \<times> kstate" where
  "sem_acquire_etc K X s sem retcode =
     (if sem < 0 then (ERR_INVALID_HANDLE K, retcode, s)
      else case sems s sem of
        None \<Rightarrow> (ERR_INVALID_HANDLE K, retcode, s)
      | Some c \<Rightarrow>
          if c \<ge> 1 then (NO_ERROR K, retcode, s\<lparr>sems := (sems s)(sem \<mapsto> c - 1)\<rparr>)
          else (let s' = others X s
                in case map_of (sem_deleted s') sem of
                     Some r \<Rightarrow> (ERR_SEM_DELETED K, map_option (\<lambda>_. r) retcode, s')
                   | None \<Rightarrow> (wake_status X, retcode, s')))"

subsection \<open>Waiting for and killing threads and processes\<close>

definition thread_wait_on_thread ::
  "consts_h \<Rightarrow> extern \<Rightarrow> kstate \<Rightarrow> thread_id \<Rightarrow> int option \<Rightarrow>
   abort + (int \<times> int option \<times> kstate)" where
  "thread_wait_on_thread K X s ident retcode =
     (case send_signal_etc X s ident SIGCONT False of (rc, s1) \<Rightarrow>
        if rc < NO_ERROR K then Inr (rc, retcode, s1)
        else
          seq (case thread_get_thread_struct_locked s1 ident of
                 Some a \<Rightarrow> seq (get_thread s1 (Some a)) (\<lambda>t. Inr (return_code_sem t))
               | None \<Rightarrow> Inr (ERR_INVALID_HANDLE K)) (\<lambda>sem.
          (case sem_acquire_etc K X s1 sem retcode of (rc, retcode', s2) \<Rightarrow>
             Inr (if rc = ERR_SEM_DELETED K then NO_ERROR K else rc, retcode', s2))))"

definition proc_wait_on_proc ::
  "consts_h \<Rightarrow> extern \<Rightarrow> kstate \<Rightarrow> proc_id \<Rightarrow> int option \<Rightarrow>
   abort + (int \<times> int option \<times> kstate)" where
  "proc_wait_on_proc K X s ident retcode =
     seq (case proc_get_proc_struct_locked s ident of
            None \<Rightarrow> Inr (ERR_INVALID_HANDLE K)
          | Some a \<Rightarrow>
              seq (get_proc s (Some a)) (\<lambda>p.
                case main_thread p of
                  None \<Rightarrow> Inr (ERR_INVALID_HANDLE K)
                | Some m \<Rightarrow> seq (get_thread s (Some m)) (\<lambda>t. Inr (t_id t)))) (\<lambda>tid.
     if tid < 0 then Inr (tid, retcode, s)
     else thread_wait_on_thread K X s tid retcode)"

definition thread_kill_thread_nowait ::
  "extern \<Rightarrow> kstate \<Rightarrow> thread_id \<Rightarrow> int \<times> kstate" where
  "thread_kill_thread_nowait X s ident = send_signal_etc X s ident SIGKILLTHR True"

definition thread_kill_thread ::
  "consts_h \<Rightarrow> extern \<Rightarrow> kstate \<Rightarrow> thread_id \<Rightarrow> abort + (int \<times> kstate)" where
  "thread_kill_thread K X s ident =
     (case send_signal_etc X s ident SIGKILLTHR True of (status, s1) \<Rightarrow>
        if status < 0 then Inr (status, s1)
        else
          seq (get_thread s1 (current_thread s1)) (\<lambda>cur.
            if ident \<noteq> t_id cur
            then seq (thread_wait_on_thread K X s1 ident None)
                   (\<lambda>(rc, retcode', s2). Inr (status, s2))
            else Inr (status, s1)))"

definition proc_kill_proc ::
  "consts_h \<Rightarrow> extern \<Rightarrow> kstate \<Rightarrow> proc_id \<Rightarrow> abort + (int \<times> kstate)" where
  "proc_kill_proc K X s ident =
     seq (case proc_get_proc_struct_locked s ident of
            Some a \<Rightarrow>
              seq (get_proc s (Some a)) (\<lambda>p.
              seq (get_thread s (main_thread p)) (\<lambda>t. Inr (t_id t, 0)))
          | None \<Rightarrow> Inr (- 1, ERR_INVALID_HANDLE K)) (\<lambda>(tid, retval).
     if retval < 0 then Inr (retval, s)
     else thread_kill_thread K X s tid)"

definition proc_get_main_thread :: "consts_h \<Rightarrow> kstate \<Rightarrow> proc_id \<Rightarrow> abort + thread_id" where
  "proc_get_main_thread K s ident =
     (case proc_get_proc_struct_locked s ident of
        Some a \<Rightarrow>
          seq (get_proc s (Some a)) (\<lambda>p.
          seq (get_thread s (main_thread p)) (\<lambda>t. Inr (t_id t)))
      | None \<Rightarrow> Inr (ERR_INVALID_HANDLE K))"

subsection \<open>Run queues\<close>

text \<open>
  \<open>list_add_tail\<close>, \<open>list_peek_head\<close>, \<open>list_remove_head\<close> and \<open>list_delete\<close> of
  \<^verbatim>\<open>kernel/list.h\<close> on a queue kept as the list of its threads, head first.
  A record has one node for each kind of list, so it is on one list of a kind at
  most, and once: \<open>list_delete\<close> takes it off wherever it is, and reads through
  the \<open>NULL\<close> links of a node that is on no list.  \<open>run_q\<close> is an array of
  \<open>THREAD_NUM_PRIORITY_LEVELS\<close> queues indexed by priority.
\<close>

definition thread_enqueue :: "thread_ptr \<Rightarrow> thread_ptr list \<Rightarrow> thread_ptr list" where
  "thread_enqueue t q = q @ [t]"

definition thread_lookat_queue :: "thread_ptr list \<Rightarrow> thread_ptr option" where
  "thread_lookat_queue q = (case q of [] \<Rightarrow> None | t # r \<Rightarrow> Some t)"

definition thread_dequeue :: "thread_ptr list \<Rightarrow> thread_ptr option \<times> thread_ptr list" where
  "thread_dequeue q = (case q of [] \<Rightarrow> (None, []) | t # r \<Rightarrow> (Some t, r))"

definition on_a_queue :: "consts_h \<Rightarrow> thread_ptr \<Rightarrow> kstate \<Rightarrow> bool" where
  "on_a_queue K t s =
     (t \<in> set (dead_q s)
      \<or> list_ex (\<lambda>i. t \<in> set (run_q s i)) [0 .. THREAD_NUM_PRIORITY_LEVELS K - 1])"

definition thread_dequeue_thread :: "consts_h \<Rightarrow> thread_ptr \<Rightarrow> kstate \<Rightarrow> abort + kstate" where
  "thread_dequeue_thread K t s =
     (if on_a_queue K t s
      then Inr (s\<lparr>run_q := (\<lambda>i. removeAll t (run_q s i)), dead_q := removeAll t (dead_q s)\<rparr>)
      else Inl Null_deref)"

definition thread_lookat_run_q :: "kstate \<Rightarrow> int \<Rightarrow> thread_ptr option" where
  "thread_lookat_run_q s pri = thread_lookat_queue (run_q s pri)"

definition thread_enqueue_run_q :: "consts_h \<Rightarrow> thread_ptr \<Rightarrow> kstate \<Rightarrow> abort + kstate" where
  "thread_enqueue_run_q K a s =
     seq (get_thread s (Some a)) (\<lambda>t.
       (let t1 = (if priority t > THREAD_MAX_PRIORITY K
                  then t\<lparr>priority := THREAD_MAX_PRIORITY K\<rparr> else t);
            t2 = (if priority t1 < 0 then t1\<lparr>priority := 0\<rparr> else t1);
            s1 = put_thread a t2 s
        in Inr (s1\<lparr>run_q := (run_q s1)(priority t2 := thread_enqueue a (run_q s1 (priority t2)))\<rparr>)))"

definition thread_dequeue_run_q :: "kstate \<Rightarrow> int \<Rightarrow> thread_ptr option \<times> kstate" where
  "thread_dequeue_run_q s pri =
     (case thread_dequeue (run_q s pri) of
        (r, q) \<Rightarrow> (r, s\<lparr>run_q := (run_q s)(pri := q)\<rparr>))"

subsection \<open>Time and the context switch\<close>

text \<open>
  Modelled from the spec: \<^verbatim>\<open>time.c\<close> is absent.  The n-th reading of the clock
  is \<open>time_source s n\<close>.
\<close>

definition system_time :: "kstate \<Rightarrow> bigtime_t \<times> kstate" where
  "system_time s = (time_source s (time_reads s), s\<lparr>time_reads := Suc (time_reads s)\<rparr>)"

text \<open>
  Modelled from the spec: \<open>arch_thread_set_current_thread\<close> and
  \<open>arch_thread_context_switch\<close> are absent.  The first makes its argument the
  current thread of this CPU; the second installs the translation map it is given,
  if any (section 4.1).
\<close>

definition arch_thread_context_switch :: "tmap option \<Rightarrow> kstate \<Rightarrow> kstate" where
  "arch_thread_context_switch new_tmap s =
     (case new_tmap of None \<Rightarrow> s | Some m \<Rightarrow> s\<lparr>installed_tmap := Some m\<rparr>)"

definition thread_context_switch :: "kstate \<Rightarrow> thread_ptr \<Rightarrow> thread_ptr \<Rightarrow> abort + kstate" where
  "thread_context_switch s t_from t_to =
     (case system_time s of (now, s0) \<Rightarrow>
      seq (get_thread s0 (Some t_from)) (\<lambda>f.
      (let s1 = put_thread t_from
                  (if last_time_type f = KERNEL_TIME
                   then f\<lparr>kernel_time := s64 (kernel_time f + s64 (now - last_time f))\<rparr>
                   else f\<lparr>user_time := s64 (user_time f + s64 (now - last_time f))\<rparr>) s0
       in
      seq (get_thread s1 (Some t_to)) (\<lambda>t.
      (let s2 = put_thread t_to (t\<lparr>last_time := now\<rparr>) s1 in
      seq (get_thread s2 (Some t_from)) (\<lambda>f2.
      seq (if \<not> fpu_state_saved f2 \<and> fpu_cpu f2 = None
           then seq (get_cpu s2 (curr_cpu s2)) (\<lambda>c.
                  if fpu_state_thread c = Some t_from then Inr () else Inl Assert_failed)
           else Inr ()) (\<lambda>_.
      seq (get_thread s2 (Some t_to)) (\<lambda>t2.
      (let s3 = put_thread t_to (t2\<lparr>cpu := cpu f2\<rparr>) s2;
           s4 = s3\<lparr>current_thread := Some t_to\<rparr>
       in
      seq (get_thread s4 (Some t_from)) (\<lambda>f3.
      (let s5 = put_thread t_from (f3\<lparr>cpu := None\<rparr>) s4 in
      seq (get_thread s5 (Some t_from)) (\<lambda>f4.
      seq (get_thread s5 (Some t_to)) (\<lambda>t4.
      seq (get_proc s5 (t_proc f4)) (\<lambda>pf.
      seq (get_proc s5 (t_proc t4)) (\<lambda>pt.
      (let new_tmap =
             (if aspace_id pf \<ge> 0 \<and> aspace_id pt \<ge> 0 then
                (if aspace_id pf = aspace_id pt then None
                 else map_option Aspace_map (t_proc t4))
              else if aspace_id pf < 0 \<and> aspace_id pt < 0 then None
              else if aspace_id pt < 0 then map_option Kaspace_map (t_proc t4)
              else map_option Aspace_map (t_proc t4))
       in Inr (arch_thread_context_switch new_tmap s5)))))))))))))))))"

subsection \<open>The dispatcher\<close>

text \<open>
  \<open>_rand\<close>: the static \<open>next\<close> is a 32-bit \<open>int\<close>, seeded from the clock while it is
  zero.  The result is bits 16 to 30 of the new \<open>next\<close>.
\<close>

definition u_rand :: "kstate \<Rightarrow> int \<times> kstate" where
  "u_rand s =
     (let s1 = (if rand_next s = 0
                then (case system_time s of (now, s0) \<Rightarrow> s0\<lparr>rand_next := word_of_int now\<rparr>)
                else s);
          nxt = rand_next s1 * 1103515245 + 12345
      in (uint (signed_drop_bit 16 nxt AND 0x7FFF), s1\<lparr>rand_next := nxt\<rparr>))"

text \<open>The search of the real-time queues, from \<open>i\<close> down to \<open>THREAD_MIN_RT_PRIORITY\<close>.\<close>

function rt_search :: "consts_h \<Rightarrow> int \<Rightarrow> kstate \<Rightarrow> thread_ptr option \<times> kstate" where
  "rt_search K i s =
     (if i \<ge> THREAD_MIN_RT_PRIORITY K
      then (case thread_dequeue_run_q s i of
              (next_thread, s1) \<Rightarrow>
                if next_thread \<noteq> None then (next_thread, s1) else rt_search K (i - 1) s1)
      else (None, s))"
  by pat_completeness auto
termination
  by (relation "measure (\<lambda>(K, i, s). nat (i + 1 - THREAD_MIN_RT_PRIORITY K))") auto

text \<open>
  The search of the regular queues, from \<open>i\<close> down to above \<open>THREAD_IDLE_PRIORITY\<close>.
  The result is \<open>next_thread\<close>, \<open>last_thread_pri\<close> and the state.
\<close>

function regular_search ::
  "consts_h \<Rightarrow> int \<Rightarrow> int \<Rightarrow> kstate \<Rightarrow> thread_ptr option \<times> int \<times> kstate" where
  "regular_search K i last_thread_pri s =
     (if i > THREAD_IDLE_PRIORITY K
      then (if thread_lookat_run_q s i \<noteq> None
            then (case u_rand s of
                    (r, s1) \<Rightarrow>
                      if r > 0x3000
                      then (case thread_dequeue_run_q s1 i of
                              (next_thread, s2) \<Rightarrow> (next_thread, last_thread_pri, s2))
                      else regular_search K (i - 1) i s1)
            else regular_search K (i - 1) last_thread_pri s)
      else (None, last_thread_pri, s))"
  by pat_completeness auto
termination
  by (relation "measure (\<lambda>(K, i, l, s). nat (i - THREAD_IDLE_PRIORITY K))") auto

text \<open>
  Modelled from the spec: \<^verbatim>\<open>timer.c\<close> is absent.  \<open>quantum_timer\<close> holds the
  interval of the pending one-shot event of the CPU, if any.
\<close>

text \<open>
  Lines 2087 to 2117 of \<open>thread_resched\<close>: the choice of \<open>next_thread\<close>, with the
  two panics.
\<close>

definition select_next_thread :: "consts_h \<Rightarrow> kstate \<Rightarrow> abort + (thread_ptr \<times> kstate)" where
  "select_next_thread K s =
     (case rt_search K (THREAD_MAX_RT_PRIORITY K) s of
        (Some t, s3) \<Rightarrow> Inr (t, s3)
      | (None, s3) \<Rightarrow>
          (case regular_search K (THREAD_MAX_PRIORITY K) (- 1) s3 of
             (Some t, last_thread_pri, s4) \<Rightarrow> Inr (t, s4)
           | (None, last_thread_pri, s4) \<Rightarrow>
               if last_thread_pri \<noteq> - 1
               then (case thread_dequeue_run_q s4 last_thread_pri of
                       (None, s5) \<Rightarrow> Inl Panic
                     | (Some t, s5) \<Rightarrow> Inr (t, s5))
               else (case thread_dequeue_run_q s4 (THREAD_IDLE_PRIORITY K) of
                       (None, s5) \<Rightarrow> Inl Panic
                     | (Some t, s5) \<Rightarrow> Inr (t, s5))))"

definition thread_resched :: "consts_h \<Rightarrow> kstate \<Rightarrow> abort + kstate" where
  "thread_resched K s =
     (case current_thread s of
        None \<Rightarrow> Inl Null_deref
      | Some old_thread \<Rightarrow>
      seq (get_thread s (Some old_thread)) (\<lambda>old.
      seq (case next_state old of
             THREAD_STATE_RUNNING \<Rightarrow> thread_enqueue_run_q K old_thread s
           | THREAD_STATE_READY \<Rightarrow> thread_enqueue_run_q K old_thread s
           | THREAD_STATE_SUSPENDED \<Rightarrow> Inr s
           | THREAD_STATE_FREE_ON_RESCHED \<Rightarrow>
               Inr (s\<lparr>dead_q := thread_enqueue old_thread (dead_q s)\<rparr>)
           | _ \<Rightarrow> Inr s) (\<lambda>s1.
      seq (get_thread s1 (Some old_thread)) (\<lambda>old1.
      (let s2 = put_thread old_thread (old1\<lparr>t_state := next_state old1\<rparr>) s1 in
      seq (select_next_thread K s2) (\<lambda>(next_thread, s6).
      seq (get_thread s6 (Some next_thread)) (\<lambda>n.
      (let s7 = put_thread next_thread
                  (n\<lparr>t_state := THREAD_STATE_RUNNING, next_state := THREAD_STATE_READY\<rparr>) s6
       in
      seq (get_thread s7 (Some old_thread)) (\<lambda>old2.
      (case cpu old2 of
         None \<Rightarrow> Inl Null_deref
       | Some ca \<Rightarrow>
      seq (get_cpu s7 (Some ca)) (\<lambda>c.
      (let c1 = (if \<not> preempted c then c\<lparr>quantum_timer := None\<rparr> else c);
           c2 = c1\<lparr>preempted := False\<rparr>;
           c3 = c2\<lparr>quantum_timer := Some 10000\<rparr>;
           s8 = put_cpu ca c3 s7
       in if next_thread \<noteq> old_thread
          then thread_context_switch s8 old_thread next_thread
          else Inr s8))))))))))))"

definition thread_set_priority ::
  "consts_h \<Rightarrow> kstate \<Rightarrow> thread_id \<Rightarrow> int \<Rightarrow> abort + (int \<times> kstate)" where
  "thread_set_priority K s ident pri0 =
     (let pri1 = (if pri0 > THREAD_MAX_RT_PRIORITY K then THREAD_MAX_RT_PRIORITY K else pri0);
          pri = (if pri1 < THREAD_MIN_PRIORITY K then THREAD_MIN_PRIORITY K else pri1)
      in
      case current_thread s of
        None \<Rightarrow> Inl Null_deref
      | Some ca \<Rightarrow>
      seq (get_thread s (Some ca)) (\<lambda>cur.
        if t_id cur = ident
        then Inr (NO_ERROR K, put_thread ca (cur\<lparr>priority := pri\<rparr>) s)
        else
          (case thread_get_thread_struct_locked s ident of
             Some a \<Rightarrow>
               seq (get_thread s (Some a)) (\<lambda>t.
                 if t_state t = THREAD_STATE_READY \<and> priority t \<noteq> pri
                 then seq (thread_dequeue_thread K a s) (\<lambda>s1.
                      (let s2 = put_thread a (t\<lparr>priority := pri\<rparr>) s1
                       in seq (thread_enqueue_run_q K a s2) (\<lambda>s3. Inr (NO_ERROR K, s3))))
                 else Inr (NO_ERROR K, put_thread a (t\<lparr>priority := pri\<rparr>) s))
           | None \<Rightarrow> Inr (ERR_INVALID_HANDLE K, s))))"

subsection \<open>Process groups and sessions\<close>

definition proc_get_current_proc_id :: "kstate \<Rightarrow> abort + proc_id" where
  "proc_get_current_proc_id s =
     seq (get_thread s (current_thread s)) (\<lambda>t.
     seq (get_proc s (t_proc t)) (\<lambda>p. Inr (p_id p)))"

definition hash_lookup_node :: "group_node list \<Rightarrow> int \<Rightarrow> group_node option" where
  "hash_lookup_node tab key = find (\<lambda>n. node_id n = key) tab"

text \<open>The change \<open>f\<close> made to the node a lookup of \<open>key\<close> returns.\<close>

fun update_node :: "int \<Rightarrow> (group_node \<Rightarrow> group_node) \<Rightarrow> group_node list \<Rightarrow> group_node list" where
  "update_node key f [] = []"
| "update_node key f (n # ns) =
     (if node_id n = key then f n # ns else n # update_node key f ns)"

text \<open>
  \<open>list_delete\<close> of the group or session node of a process that is on a list;
  \<open>is_linked\<close> tells whether it is.
\<close>

definition unlink_member :: "proc_ptr \<Rightarrow> group_node list \<Rightarrow> group_node list" where
  "unlink_member a tab = map (\<lambda>n. n\<lparr>node_list := removeAll a (node_list n)\<rparr>) tab"

definition is_linked :: "proc_ptr \<Rightarrow> group_node list \<Rightarrow> bool" where
  "is_linked a tab = list_ex (\<lambda>n. a \<in> set (node_list n)) tab"

definition add_proc_to_pgroup ::
  "consts_h \<Rightarrow> proc_ptr \<Rightarrow> pgrp_id \<Rightarrow> kstate \<Rightarrow> abort + (int \<times> kstate)" where
  "add_proc_to_pgroup K a g s =
     (case hash_lookup_node (pgid_hash s) g of
        None \<Rightarrow> Inr (ERR_NOT_FOUND K, s)
      | Some node \<Rightarrow>
          seq (get_proc s (Some a)) (\<lambda>p.
            (let s1 = put_proc a (p\<lparr>pgid := g\<rparr>) s
             in if is_linked a (pgid_hash s1) then Inl Assert_failed
                else Inr (0, s1\<lparr>pgid_hash :=
                    update_node g (\<lambda>n. n\<lparr>node_list := a # node_list n\<rparr>) (pgid_hash s1)\<rparr>))))"

definition remove_proc_from_pgroup ::
  "consts_h \<Rightarrow> proc_ptr \<Rightarrow> pgrp_id \<Rightarrow> kstate \<Rightarrow> abort + (int \<times> kstate)" where
  "remove_proc_from_pgroup K a g s =
     (case hash_lookup_node (pgid_hash s) g of
        None \<Rightarrow> Inr (ERR_NOT_FOUND K, s)
      | Some node \<Rightarrow>
          seq (get_proc s (Some a)) (\<lambda>p.
            if pgid p \<noteq> g then Inl Assert_failed
            else if \<not> is_linked a (pgid_hash s) then Inl Null_deref
            else Inr (0, s\<lparr>pgid_hash := unlink_member a (pgid_hash s)\<rparr>)))"

definition add_proc_to_session ::
  "consts_h \<Rightarrow> proc_ptr \<Rightarrow> sess_id \<Rightarrow> kstate \<Rightarrow> abort + (int \<times> kstate)" where
  "add_proc_to_session K a g s =
     (case hash_lookup_node (sid_hash s) g of
        None \<Rightarrow> Inr (ERR_NOT_FOUND K, s)
      | Some node \<Rightarrow>
          seq (get_proc s (Some a)) (\<lambda>p.
            (let s1 = put_proc a (p\<lparr>sid := g\<rparr>) s
             in if is_linked a (sid_hash s1) then Inl Assert_failed
                else Inr (0, s1\<lparr>sid_hash :=
                    update_node g (\<lambda>n. n\<lparr>node_list := a # node_list n\<rparr>) (sid_hash s1)\<rparr>))))"

definition remove_proc_from_session ::
  "consts_h \<Rightarrow> proc_ptr \<Rightarrow> sess_id \<Rightarrow> kstate \<Rightarrow> abort + (int \<times> kstate)" where
  "remove_proc_from_session K a g s =
     (case hash_lookup_node (sid_hash s) g of
        None \<Rightarrow> Inr (ERR_NOT_FOUND K, s)
      | Some node \<Rightarrow>
          seq (get_proc s (Some a)) (\<lambda>p.
            if sid p \<noteq> g then Inl Assert_failed
            else if \<not> is_linked a (sid_hash s) then Inl Null_deref
            else Inr (0, s\<lparr>sid_hash := unlink_member a (sid_hash s)\<rparr>)))"

text \<open>\<open>create_pgroup_struct\<close> and \<open>create_session_struct\<close>: \<open>NULL\<close> if \<open>kmalloc\<close> fails.\<close>

definition create_pgroup_struct :: "extern \<Rightarrow> pgrp_id \<Rightarrow> group_node option" where
  "create_pgroup_struct X g =
     (case kmalloc X of None \<Rightarrow> None | Some m \<Rightarrow> Some \<lparr>node_id = g, node_list = []\<rparr>)"

definition create_session_struct :: "extern \<Rightarrow> sess_id \<Rightarrow> group_node option" where
  "create_session_struct X g =
     (case kmalloc X of None \<Rightarrow> None | Some m \<Rightarrow> Some \<lparr>node_id = g, node_list = []\<rparr>)"

text \<open>
  The end of \<open>setpgid\<close> (lines 3099 to 3105) and of \<open>setsid\<close> (lines 3202 to 3208),
  reached from both branches: leave the current group, join the new one.
\<close>

definition setpgid_move ::
  "consts_h \<Rightarrow> proc_ptr \<Rightarrow> pgrp_id \<Rightarrow> kstate \<Rightarrow> abort + (int \<times> kstate)" where
  "setpgid_move K a g s =
     seq (get_proc s (Some a)) (\<lambda>p.
     seq (remove_proc_from_pgroup K a (pgid p) s) (\<lambda>(r1, s1).
     seq (add_proc_to_pgroup K a g s1) (\<lambda>(r2, s2).
       Inr (NO_ERROR K, s2))))"

definition setsid_move ::
  "consts_h \<Rightarrow> proc_ptr \<Rightarrow> sess_id \<Rightarrow> kstate \<Rightarrow> abort + (int \<times> kstate)" where
  "setsid_move K a g s =
     seq (get_proc s (Some a)) (\<lambda>p.
     seq (remove_proc_from_session K a (sid p) s) (\<lambda>(r1, s1).
     seq (add_proc_to_session K a g s1) (\<lambda>(r2, s2).
       Inr (NO_ERROR K, s2))))"

text \<open>
  \<open>setpgid\<close>.  Where the code releases the process lock to allocate the node, the
  other threads run (\<open>others X\<close>) before the lock is taken again.
\<close>

definition setpgid ::
  "consts_h \<Rightarrow> extern \<Rightarrow> kstate \<Rightarrow> proc_id \<Rightarrow> pgrp_id \<Rightarrow> abort + (int \<times> kstate)" where
  "setpgid K X s pid0 pgid0 =
     (if pid0 < 0 \<or> pgid0 < 0 then Inr (ERR_INVALID_ARGS K, s)
      else
      seq (if pid0 = 0 then proc_get_current_proc_id s else Inr pid0) (\<lambda>pid.
      (let g = (if pgid0 = 0 then pid else pgid0) in
       case proc_get_proc_struct_locked s pid of
         None \<Rightarrow> Inr (ERR_NOT_FOUND K, s)
       | Some a \<Rightarrow>
       seq (get_proc s (Some a)) (\<lambda>p.
         if pgid p = g then Inr (NO_ERROR K, s)
         else if hash_lookup_node (pgid_hash s) g = None
         then (let s1 = others X s in
               case create_pgroup_struct X g of
                 None \<Rightarrow> Inr (ERR_NO_MEMORY K, s1)
               | Some node \<Rightarrow>
                   setpgid_move K a g
                     (if hash_lookup_node (pgid_hash s1) g \<noteq> None then s1
                      else s1\<lparr>pgid_hash := node # pgid_hash s1\<rparr>))
         else setpgid_move K a g s))))"

definition getpgid :: "consts_h \<Rightarrow> kstate \<Rightarrow> proc_id \<Rightarrow> abort + pgrp_id" where
  "getpgid K s pid0 =
     (if pid0 < 0 then Inr (ERR_INVALID_ARGS K)
      else
      seq (if pid0 = 0 then proc_get_current_proc_id s else Inr pid0) (\<lambda>pid.
        case proc_get_proc_struct_locked s pid of
          None \<Rightarrow> Inr (ERR_NOT_FOUND K)
        | Some a \<Rightarrow> seq (get_proc s (Some a)) (\<lambda>p. Inr (pgid p))))"

definition setsid :: "consts_h \<Rightarrow> extern \<Rightarrow> kstate \<Rightarrow> abort + (int \<times> kstate)" where
  "setsid K X s =
     seq (proc_get_current_proc_id s) (\<lambda>pid.
     (let g = pid in
      case proc_get_proc_struct_locked s pid of
        None \<Rightarrow> Inr (ERR_NOT_FOUND K, s)
      | Some a \<Rightarrow>
      seq (get_proc s (Some a)) (\<lambda>p.
        if sid p = g then Inr (NO_ERROR K, s)
        else if hash_lookup_node (sid_hash s) g = None
        then (let s1 = others X s in
              case create_session_struct X g of
                None \<Rightarrow> Inr (ERR_NO_MEMORY K, s1)
              | Some node \<Rightarrow>
                  setsid_move K a g
                    (if hash_lookup_node (sid_hash s1) g \<noteq> None then s1
                     else s1\<lparr>sid_hash := node # sid_hash s1\<rparr>))
        else setsid_move K a g s)))"

subsection \<open>Orphaned process groups\<close>

text \<open>
  The loop of \<open>check_for_pgrp_connection\<close> over the members of the group; the
  \<open>dprintf\<close> in it reads the parent of every member it visits.
\<close>

fun pgrp_members_connected ::
  "kstate \<Rightarrow> pgrp_id \<Rightarrow> pgrp_id \<Rightarrow> proc_ptr option \<Rightarrow> proc_ptr list \<Rightarrow> abort + bool" where
  "pgrp_members_connected s g check_for ignore_proc [] = Inr False"
| "pgrp_members_connected s g check_for ignore_proc (a # rest) =
     seq (get_proc s (Some a)) (\<lambda>temp_proc.
       if pgid temp_proc \<noteq> g then Inl Assert_failed
       else
       seq (get_proc s (parent temp_proc)) (\<lambda>par.
         if Some a \<noteq> ignore_proc \<and> pgid par = check_for then Inr True
         else pgrp_members_connected s g check_for ignore_proc rest))"

definition check_for_pgrp_connection ::
  "kstate \<Rightarrow> pgrp_id \<Rightarrow> pgrp_id \<Rightarrow> proc_ptr option \<Rightarrow> abort + bool" where
  "check_for_pgrp_connection s g check_for ignore_proc =
     (case hash_lookup_node (pgid_hash s) g of
        None \<Rightarrow> Inr False
      | Some node \<Rightarrow> pgrp_members_connected s g check_for ignore_proc (node_list node))"

text \<open>The loop of \<open>send_pgrp_signal_etc_locked\<close> over the members of the group.\<close>

fun signal_members ::
  "extern \<Rightarrow> signal \<Rightarrow> proc_ptr list \<Rightarrow> kstate \<Rightarrow> abort + kstate" where
  "signal_members X sg [] s = Inr s"
| "signal_members X sg (a # rest) s =
     seq (get_proc s (Some a)) (\<lambda>p.
     seq (get_thread s (main_thread p)) (\<lambda>t.
       (case send_signal_etc X s (t_id t) sg True of (rc, s1) \<Rightarrow>
          signal_members X sg rest s1)))"

definition send_pgrp_signal_etc_locked ::
  "consts_h \<Rightarrow> extern \<Rightarrow> kstate \<Rightarrow> pgrp_id \<Rightarrow> signal \<Rightarrow> bool \<Rightarrow> abort + (int \<times> kstate)" where
  "send_pgrp_signal_etc_locked K X s g sg no_resched =
     (case hash_lookup_node (pgid_hash s) g of
        None \<Rightarrow> Inr (ERR_NOT_FOUND K, s)
      | Some node \<Rightarrow>
          seq (signal_members X sg (node_list node) s) (\<lambda>s1. Inr (NO_ERROR K, s1)))"

subsection \<open>Parents and children\<close>

definition insert_proc_into_parent :: "proc_ptr option \<Rightarrow> proc_ptr \<Rightarrow> kstate \<Rightarrow> abort + kstate" where
  "insert_proc_into_parent pp a s =
     seq (get_proc s pp) (\<lambda>par.
     (case pp of
        None \<Rightarrow> Inl Null_deref
      | Some pa \<Rightarrow>
        (let s1 = put_proc pa (par\<lparr>children := a # children par\<rparr>) s in
         seq (get_proc s1 (Some a)) (\<lambda>p.
           Inr (put_proc a (p\<lparr>parent := pp\<rparr>) s1)))))"

text \<open>
  \<open>remove_proc_from_parent\<close>: \<open>list_delete\<close> takes the process off the list of
  children it is on; the callers pass the process's own parent, whose list that is.
  A process that is not on it is on no list.
\<close>

definition remove_proc_from_parent :: "proc_ptr option \<Rightarrow> proc_ptr \<Rightarrow> kstate \<Rightarrow> abort + kstate" where
  "remove_proc_from_parent pp a s =
     seq (get_proc s (Some a)) (\<lambda>p0.
     seq (case pp of
            None \<Rightarrow> Inl Null_deref
          | Some pa \<Rightarrow>
              (case procs s pa of
                 None \<Rightarrow> Inl Null_deref
               | Some par \<Rightarrow>
                   if a \<in> set (children par)
                   then Inr (put_proc pa (par\<lparr>children := removeAll a (children par)\<rparr>) s)
                   else Inl Null_deref)) (\<lambda>s1.
      seq (get_proc s1 (Some a)) (\<lambda>p.
        Inr (put_proc a (p\<lparr>parent := None\<rparr>) s1))))"

text \<open>
  The loop of \<open>proc_reparent_children\<close> over the children of \<open>pa\<close>, taken from the
  list before the body changes it.
\<close>

fun reparent_each ::
  "consts_h \<Rightarrow> extern \<Rightarrow> proc_ptr \<Rightarrow> proc_ptr list \<Rightarrow> kstate \<Rightarrow> abort + kstate" where
  "reparent_each K X pa [] s = Inr s"
| "reparent_each K X pa (child # rest) s =
     seq (remove_proc_from_parent (Some pa) child s) (\<lambda>s1.
     seq (get_proc s1 (Some pa)) (\<lambda>p.
     seq (insert_proc_into_parent (parent p) child s1) (\<lambda>s2.
     seq (get_proc s2 (Some pa)) (\<lambda>p2.
     seq (get_proc s2 (Some child)) (\<lambda>c.
     seq (if sid p2 = sid c \<and> pgid p2 \<noteq> pgid c
          then seq (check_for_pgrp_connection s2 (pgid c) (pgid p2) None) (\<lambda>connection.
                 if \<not> connection
                 then seq (send_pgrp_signal_etc_locked K X s2 (pgid c) SIGHUP True) (\<lambda>(r1, s3).
                      seq (send_pgrp_signal_etc_locked K X s3 (pgid c) SIGCONT True) (\<lambda>(r2, s4).
                        Inr s4))
                 else Inr s2)
          else Inr s2) (\<lambda>s5.
       reparent_each K X pa rest s5))))))"

definition proc_reparent_children ::
  "consts_h \<Rightarrow> extern \<Rightarrow> proc_ptr \<Rightarrow> kstate \<Rightarrow> abort + kstate" where
  "proc_reparent_children K X pa s =
     seq (get_proc s (Some pa)) (\<lambda>p. reparent_each K X pa (children p) s)"

subsection \<open>Threads of a process\<close>

definition insert_thread_into_proc :: "proc_ptr \<Rightarrow> thread_ptr \<Rightarrow> kstate \<Rightarrow> abort + kstate" where
  "insert_thread_into_proc pa a s =
     seq (get_proc s (Some pa)) (\<lambda>p.
     (let p1 = p\<lparr>thread_list := a # thread_list p, num_threads := num_threads p + 1\<rparr>;
          p2 = (if num_threads p1 = 1 then p1\<lparr>main_thread := Some a\<rparr> else p1);
          s1 = put_proc pa p2 s
      in seq (get_thread s1 (Some a)) (\<lambda>t.
           Inr (put_thread a (t\<lparr>t_proc := Some pa\<rparr>) s1))))"

text \<open>
  \<open>remove_thread_from_proc\<close>: the callers pass the process of the thread, on whose
  list the thread is; a thread that is not on it is on no list.
\<close>

definition remove_thread_from_proc :: "proc_ptr \<Rightarrow> thread_ptr \<Rightarrow> kstate \<Rightarrow> abort + kstate" where
  "remove_thread_from_proc pa a s =
     seq (get_thread s (Some a)) (\<lambda>t.
     seq (get_proc s (Some pa)) (\<lambda>p.
       if a \<in> set (thread_list p)
       then Inr (put_proc pa (p\<lparr>thread_list := removeAll a (thread_list p),
                                 num_threads := num_threads p - 1\<rparr>) s)
       else Inl Null_deref))"

subsection \<open>Creating a thread\<close>

text \<open>
  \<open>create_thread_struct\<close>: a record from the dead queue, or a new one.  The fields
  it does not assign keep what the memory held.  \<open>kfree\<close> empties the address.
\<close>

definition kfree_thread :: "thread_ptr \<Rightarrow> kstate \<Rightarrow> kstate" where
  "kfree_thread a s = s\<lparr>threads := (threads s)(a := None)\<rparr>"

definition create_thread_struct ::
  "extern \<Rightarrow> kstate \<Rightarrow> string \<Rightarrow> consts_h \<Rightarrow> thread_ptr option \<times> kstate" where
  "create_thread_struct X s name K =
     (case thread_dequeue (dead_q s) of (r, q) \<Rightarrow>
      (let s0 = s\<lparr>dead_q := q\<rparr> in
       case (case r of Some a \<Rightarrow> Some a | None \<Rightarrow> kmalloc X) of
         None \<Rightarrow> (None, s0)
       | Some a \<Rightarrow>
         (let old = (case threads s0 a of Some t \<Rightarrow> t | None \<Rightarrow> uninit_thread X);
              t = old\<lparr> t_name := copy_name K name, t_id := next_thread_id s0,
                       t_proc := None, cpu := None, fpu_cpu := None,
                       fpu_state_saved := True, kernel_stack_region_id := - 1,
                       kernel_stack_base := 0, user_stack_region_id := - 1,
                       user_stack_base := 0, priority := - 1, args := 0,
                       in_kernel := True, int_disable_level := 0, user_time := 0,
                       kernel_time := 0, last_time := 0, last_time_type := KERNEL_TIME,
                       return_code_sem := sem_create X \<rparr>;
              s1 = put_thread a t (s0\<lparr>next_thread_id := s32 (next_thread_id s0 + 1)\<rparr>)
          in if sem_create X < 0 then (None, kfree_thread a s1)
             else (let s2 = s1\<lparr>sems := (sems s1)(sem_create X \<mapsto> 0)\<rparr>
                   in if arch_thread_init_thread_struct X < 0
                      then (None, kfree_thread a (sem_delete_etc s2 (sem_create X) (- 1)))
                      else (Some a, s2)))))"

definition delete_thread_struct :: "thread_ptr \<Rightarrow> kstate \<Rightarrow> abort + kstate" where
  "delete_thread_struct a s =
     seq (get_thread s (Some a)) (\<lambda>t.
       Inr (kfree_thread a
              (if return_code_sem t \<ge> 0 then sem_delete_etc s (return_code_sem t) (- 1) else s)))"

text \<open>
  The loop of \<open>_create_thread\<close> that looks for a user stack.  \<open>rid\<close> and \<open>base\<close> are
  \<open>t->user_stack_region_id\<close> and \<open>t->user_stack_base\<close>; the virtual memory code
  answers a region id and, when it made the region, its address.  The result is
  \<open>None\<close> if the loop does not end.
\<close>

partial_function (option) user_stack_search ::
  "extern \<Rightarrow> consts_h \<Rightarrow> region_id \<Rightarrow> addr_t \<Rightarrow> (region_id \<times> addr_t) option" where
  "user_stack_search X K rid base =
     (if base > USER_STACK_REGION K
      then (if fst (vm_create_user_stack X base) < 0
            then user_stack_search X K (fst (vm_create_user_stack X base)) (base - STACK_SIZE K)
            else Some (vm_create_user_stack X base))
      else Some (rid, base))"

text \<open>
  \<open>_create_thread\<close>.  The result is \<open>None\<close> if the call does not return, else the
  abort or the returned id with the state.
\<close>

definition u_create_thread ::
  "consts_h \<Rightarrow> extern \<Rightarrow> kstate \<Rightarrow> string \<Rightarrow> proc_id \<Rightarrow> addr_t \<Rightarrow> addr_t \<Rightarrow> bool \<Rightarrow>
   (abort + (thread_id \<times> kstate)) option" where
  "u_create_thread K X s name pid entry_arg args_arg kernel_flag =
     (case create_thread_struct X s name K of
        (None, s0) \<Rightarrow> Some (Inr (ERR_NO_MEMORY K, s0))
      | (Some a, s0) \<Rightarrow>
        (case get_thread s0 (Some a) of
           Inl e \<Rightarrow> Some (Inl e)
         | Inr t \<Rightarrow>
        (let s1 = put_thread a (t\<lparr>priority := THREAD_MEDIUM_PRIORITY K,
                     t_state := THREAD_STATE_BIRTH,
                     next_state := THREAD_STATE_SUSPENDED\<rparr>) s0;
             s2 = s1\<lparr>thread_hash := a # thread_hash s1\<rparr>
         in
         case (case proc_get_proc_struct_locked s2 pid of
                 None \<Rightarrow> Inr (True, s2)
               | Some pa \<Rightarrow>
                   seq (get_proc s2 (Some pa)) (\<lambda>p.
                     if p_state p \<noteq> PROC_STATE_DEATH
                     then seq (insert_thread_into_proc pa a s2) (\<lambda>s3. Inr (False, s3))
                     else Inr (True, s2))) of
           Inl e \<Rightarrow> Some (Inl e)
         | Inr (abort_flag, s3) \<Rightarrow>
           if abort_flag
           then (let s4 = s3\<lparr>thread_hash := remove1 a (thread_hash s3)\<rparr>
                 in Some (seq (delete_thread_struct a s4) (\<lambda>s5.
                      Inr (ERR_TASK_PROC_DELETED K, s5))))
           else
           (case get_thread s3 (Some a) of
              Inl e \<Rightarrow> Some (Inl e)
            | Inr t3 \<Rightarrow>
              if fst (vm_create_kernel_stack X) < 0 then Some (Inl Panic)
              else
              (let t4 = t3\<lparr>kernel_stack_region_id := fst (vm_create_kernel_stack X),
                           kernel_stack_base := snd (vm_create_kernel_stack X),
                           args := args_arg, entry := entry_arg\<rparr>
               in
               if kernel_flag
               then Some (Inr (t_id t4, put_thread a
                      (t4\<lparr>int_disable_level := 1, t_state := THREAD_STATE_SUSPENDED\<rparr>) s3))
               else
               (case user_stack_search X K (user_stack_region_id t4)
                       ((USER_STACK_REGION K - STACK_SIZE K) + USER_STACK_REGION_SIZE K) of
                  None \<Rightarrow> None
                | Some (rid, base) \<Rightarrow>
                    if rid < 0 then Some (Inl Panic)
                    else Some (Inr (t_id t4, put_thread a
                           (t4\<lparr>user_stack_region_id := rid, user_stack_base := base,
                               int_disable_level := 1,
                               t_state := THREAD_STATE_SUSPENDED\<rparr>) s3))))))))"

subsection \<open>Thread exit\<close>

text \<open>
  \<open>thread_exit\<close> up to the deletion of the return-code semaphore (lines 1679 to
  1801), in the order of the source: the thread leaves its process, a main thread
  kills and awaits its siblings and deletes the process, the parent is signalled,
  the return code is published.  What follows in the source (the death stack and
  \<open>thread_exit2\<close>) is not modelled.  The releases of the address space, ports,
  owned semaphores and I/O context of a deleted process are calls into absent code
  and change nothing the functions here read.
\<close>

definition send_proc_signal_etc ::
  "kstate \<Rightarrow> proc_id \<Rightarrow> signal \<Rightarrow> bool \<Rightarrow> kstate" where
  "send_proc_signal_etc s pid sg no_resched =
     s\<lparr>sig_log := sig_log s @ [(To_proc pid, sg, no_resched)]\<rparr>"

text \<open>Lines 1692 to 1722; the result tells whether the process is to be deleted.\<close>

definition thread_exit_leave_proc ::
  "consts_h \<Rightarrow> kstate \<Rightarrow> thread_ptr \<Rightarrow> proc_ptr \<Rightarrow> abort + (bool \<times> kstate)" where
  "thread_exit_leave_proc K s a pa =
     seq (get_thread s (Some a)) (\<lambda>t0.
     seq (thread_set_priority K s (t_id t0) (THREAD_HIGH_PRIORITY K)) (\<lambda>(r, s1).
     seq (get_thread s1 (Some a)) (\<lambda>t.
     seq (get_proc s1 (Some pa)) (\<lambda>p.
     (let s2 = (if aspace_id p \<ge> 0 \<and> user_stack_region_id t \<ge> 0
                then put_thread a (t\<lparr>user_stack_region_id := - 1\<rparr>) s1 else s1)
      in
      if Some pa \<noteq> kernel_proc s2
      then
        seq (remove_thread_from_proc pa a s2) (\<lambda>s3.
        seq (case kernel_proc s3 of
               None \<Rightarrow> Inl Null_deref
             | Some ka \<Rightarrow> insert_thread_into_proc ka a s3) (\<lambda>s4.
        seq (get_proc s4 (Some pa)) (\<lambda>p4.
          if main_thread p4 = Some a
          then Inr (True, put_proc pa (p4\<lparr>p_state := PROC_STATE_DEATH\<rparr>) s4)
          else Inr (False, s4))))
      else Inr (False, s2))))))"

text \<open>Lines 1736 to 1738: \<open>SIGKILLTHR\<close> to every thread still in the process.\<close>

fun kill_threads :: "extern \<Rightarrow> thread_ptr list \<Rightarrow> kstate \<Rightarrow> abort + kstate" where
  "kill_threads X [] s = Inr s"
| "kill_threads X (a # rest) s =
     seq (get_thread s (Some a)) (\<lambda>t.
       (case thread_kill_thread_nowait X s (t_id t) of (rc, s1) \<Rightarrow> kill_threads X rest s1))"

text \<open>
  Lines 1745 to 1747: the thread sleeps, and the others run, until the process has
  no thread left.
\<close>

partial_function (option) wait_for_threads ::
  "extern \<Rightarrow> proc_ptr \<Rightarrow> kstate \<Rightarrow> (abort + kstate) option" where
  "wait_for_threads X pa s =
     (case get_proc s (Some pa) of
        Inl e \<Rightarrow> Some (Inl e)
      | Inr p \<Rightarrow>
          if num_threads p > 0 then wait_for_threads X pa (others X s) else Some (Inr s))"

text \<open>
  Lines 1756 to 1762: the signals to a process group that the exit of \<open>pa\<close>
  orphans.
\<close>

definition thread_exit_orphan_pgrp ::
  "consts_h \<Rightarrow> extern \<Rightarrow> proc_ptr \<Rightarrow> kstate \<Rightarrow> abort + kstate" where
  "thread_exit_orphan_pgrp K X pa s =
     seq (get_proc s (Some pa)) (\<lambda>p.
     seq (get_proc s (parent p)) (\<lambda>par.
       if sid p = sid par \<and> pgid p \<noteq> pgid par
       then seq (check_for_pgrp_connection s (pgid p) (pgid par) (Some pa)) (\<lambda>connection.
              if \<not> connection
              then seq (send_pgrp_signal_etc_locked K X s (pgid p) SIGHUP True) (\<lambda>(r1, s1).
                   seq (send_pgrp_signal_etc_locked K X s1 (pgid p) SIGCONT True) (\<lambda>(r2, s2).
                     Inr s2))
              else Inr s)
       else Inr s))"

text \<open>Lines 1750 to 1790; the result is the id of the parent.\<close>

definition thread_exit_delete_proc ::
  "consts_h \<Rightarrow> extern \<Rightarrow> proc_ptr \<Rightarrow> kstate \<Rightarrow> abort + (proc_id \<times> kstate)" where
  "thread_exit_delete_proc K X pa s =
     seq (thread_exit_orphan_pgrp K X pa s) (\<lambda>s1.
     (let s2 = s1\<lparr>proc_hash := remove1 pa (proc_hash s1)\<rparr> in
     seq (proc_reparent_children K X pa s2) (\<lambda>s3.
     seq (get_proc s3 (Some pa)) (\<lambda>p3.
     seq (remove_proc_from_pgroup K pa (pgid p3) s3) (\<lambda>(r1, s4).
     seq (get_proc s4 (Some pa)) (\<lambda>p4.
     seq (remove_proc_from_session K pa (sid p4) s4) (\<lambda>(r2, s5).
     seq (get_proc s5 (Some pa)) (\<lambda>p5.
     seq (get_proc s5 (parent p5)) (\<lambda>par.
     seq (remove_proc_from_parent (parent p5) pa s5) (\<lambda>s6.
       Inr (p_id par, s6\<lparr>procs := (procs s6)(pa := None)\<rparr>)))))))))))"

text \<open>Lines 1792 to 1801: \<open>SIGCHLD\<close> to the parent, then the return code.\<close>

definition thread_exit_retcode ::
  "kstate \<Rightarrow> thread_ptr \<Rightarrow> proc_id \<Rightarrow> int \<Rightarrow> abort + kstate" where
  "thread_exit_retcode s a parent_pid retcode =
     (let s1 = send_proc_signal_etc s parent_pid SIGCHLD True in
      seq (get_thread s1 (Some a)) (\<lambda>t.
        Inr (sem_delete_etc (put_thread a (t\<lparr>return_code_sem := - 1\<rparr>) s1)
               (return_code_sem t) retcode)))"

text \<open>
  Lines 1679 to 1748: up to where a main thread takes the process lock to delete
  its process.  The result is the thread, its process, \<open>delete_proc\<close> and the state.
\<close>

definition thread_exit_until_lock ::
  "consts_h \<Rightarrow> extern \<Rightarrow> kstate \<Rightarrow>
   (abort + (thread_ptr \<times> proc_ptr \<times> bool \<times> kstate)) option" where
  "thread_exit_until_lock K X s =
     (case current_thread s of
        None \<Rightarrow> Some (Inl Null_deref)
      | Some a \<Rightarrow>
     (case get_thread s (Some a) of
        Inl e \<Rightarrow> Some (Inl e)
      | Inr t \<Rightarrow>
     (case t_proc t of
        None \<Rightarrow> Some (Inl Null_deref)
      | Some pa \<Rightarrow>
     if \<not> ints_enabled X then Some (Inl Panic)
     else
     (case thread_exit_leave_proc K s a pa of
        Inl e \<Rightarrow> Some (Inl e)
      | Inr (delete_proc, s1) \<Rightarrow>
        if delete_proc
        then
          (case get_proc s1 (Some pa) of
             Inl e \<Rightarrow> Some (Inl e)
           | Inr p \<Rightarrow>
               if num_threads p > 0
               then (case kill_threads X (thread_list p) s1 of
                       Inl e \<Rightarrow> Some (Inl e)
                     | Inr s2 \<Rightarrow>
                         map_option (map_sum id (\<lambda>s3. (a, pa, True, s3)))
                           (wait_for_threads X pa s2))
               else Some (Inr (a, pa, True, s1)))
        else Some (Inr (a, pa, False, s1))))))"

definition thread_exit ::
  "consts_h \<Rightarrow> extern \<Rightarrow> kstate \<Rightarrow> int \<Rightarrow> (abort + kstate) option" where
  "thread_exit K X s retcode =
     (case thread_exit_until_lock K X s of
        None \<Rightarrow> None
      | Some (Inl e) \<Rightarrow> Some (Inl e)
      | Some (Inr (a, pa, delete_proc, s3)) \<Rightarrow>
          if delete_proc
          then Some (seq (thread_exit_delete_proc K X pa s3) (\<lambda>(parent_pid, s4).
                       thread_exit_retcode s4 a parent_pid retcode))
          else Some (thread_exit_retcode s3 a (- 1) retcode))"

text \<open>
  \<open>holds_sem s a sem\<close>: the thread at \<open>a\<close> has a record whose return-code
  semaphore is \<open>sem\<close>, and \<open>sem\<close> is live.
\<close>

definition holds_sem :: "kstate \<Rightarrow> thread_ptr \<Rightarrow> sem_id \<Rightarrow> bool" where
  "holds_sem s a sem =
     ((case threads s a of None \<Rightarrow> False | Some t \<Rightarrow> return_code_sem t = sem)
      \<and> sems s sem \<noteq> None)"

subsection \<open>The orphan test in the words of the specification\<close>

text \<open>
  Section 4.4: a group is not orphaned if any member other than \<open>ignore\<close> has a
  parent in \<open>parent_pgid\<close>.  \<open>pgrp_members\<close> are the members of the group a
  lookup of the id finds, \<open>parent_pgid\<close> is the group of the parent of a process,
  \<open>main_thread_id\<close> the id of its main thread.
\<close>

definition pgrp_members :: "kstate \<Rightarrow> pgrp_id \<Rightarrow> proc_ptr list" where
  "pgrp_members s g =
     (case hash_lookup_node (pgid_hash s) g of None \<Rightarrow> [] | Some node \<Rightarrow> node_list node)"

definition parent_pgid :: "kstate \<Rightarrow> proc_ptr \<Rightarrow> pgrp_id option" where
  "parent_pgid s a =
     (case procs s a of
        None \<Rightarrow> None
      | Some p \<Rightarrow>
          (case parent p of
             None \<Rightarrow> None
           | Some pa \<Rightarrow> map_option pgid (procs s pa)))"

definition main_thread_id :: "kstate \<Rightarrow> proc_ptr \<Rightarrow> thread_id option" where
  "main_thread_id s a =
     (case procs s a of
        None \<Rightarrow> None
      | Some p \<Rightarrow>
          (case main_thread p of
             None \<Rightarrow> None
           | Some m \<Rightarrow> map_option t_id (threads s m)))"

definition pgrp_connected :: "kstate \<Rightarrow> pgrp_id \<Rightarrow> pgrp_id \<Rightarrow> proc_ptr option \<Rightarrow> bool" where
  "pgrp_connected s g check_for ignore_proc =
     list_ex (\<lambda>a. Some a \<noteq> ignore_proc \<and> parent_pgid s a = Some check_for)
       (pgrp_members s g)"

subsection \<open>Concrete instances\<close>

text \<open>
  An instance of the header constants, of the collaborators and of the kernel
  state, on which the model is run below: the kernel process (id 1, at address 0),
  a process 2 (at address 1) with main thread 5, and a process 3 (at address 2)
  that has no thread yet; all three in process group 1 and session 1.
\<close>

definition K0 :: consts_h where
  "K0 = \<lparr> NO_ERROR = 0, ERR_NO_MEMORY = - 2, ERR_INVALID_ARGS = - 4,
           ERR_INVALID_HANDLE = - 9, ERR_NOT_FOUND = - 13,
           ERR_TASK_PROC_DELETED = - 2049, ERR_SEM_DELETED = - 1025,
           THREAD_IDLE_PRIORITY = 0, THREAD_MIN_PRIORITY = 1,
           THREAD_MEDIUM_PRIORITY = 20, THREAD_HIGH_PRIORITY = 30,
           THREAD_MAX_PRIORITY = 47, THREAD_MIN_RT_PRIORITY = 48,
           THREAD_MAX_RT_PRIORITY = 63, THREAD_NUM_PRIORITY_LEVELS = 64,
           SYS_MAX_OS_NAME_LEN = 32,
           STACK_SIZE = 0x10000, USER_STACK_REGION = 0x70000000,
           USER_STACK_REGION_SIZE = 0x10000000 \<rparr>"

definition thread0 :: thread where
  "thread0 = \<lparr> t_id = 1, t_name = ''idle'', t_proc = Some 0, cpu = None,
                fpu_cpu = None, fpu_state_saved = True, priority = 0,
                t_state = THREAD_STATE_READY, next_state = THREAD_STATE_READY,
                return_code_sem = 1, kernel_stack_region_id = 1,
                kernel_stack_base = 0, user_stack_region_id = - 1,
                user_stack_base = 0, entry = 0, args = 0, in_kernel = True,
                int_disable_level = 0, user_time = 0, kernel_time = 0,
                last_time = 0, last_time_type = KERNEL_TIME \<rparr>"

definition proc0 :: proc where
  "proc0 = \<lparr> p_id = 1, p_name = ''kernel'', parent = Some 0, children = [2, 1],
              pgid = 1, sid = 1, num_threads = 1, thread_list = [0],
              main_thread = Some 0, aspace_id = - 1, p_state = PROC_STATE_NORMAL \<rparr>"

definition X0 :: extern where
  "X0 = \<lparr> send_signal_status = (\<lambda>s i g. 0), kmalloc = Some 100, sem_create = 7,
           arch_thread_init_thread_struct = 0,
           vm_create_kernel_stack = (3, 0x1000),
           vm_create_user_stack = (\<lambda>b. (4, b)),
           wake_status = 0, others = (\<lambda>s. s), uninit_thread = thread0,
           ints_enabled = True \<rparr>"

definition S0 :: kstate where
  "S0 = \<lparr> threads = [0 \<mapsto> thread0,
                       1 \<mapsto> thread0\<lparr>t_id := 5, t_name := ''main'', t_proc := Some 1,
                                      cpu := Some 0, priority := 20,
                                      t_state := THREAD_STATE_RUNNING,
                                      return_code_sem := 2\<rparr>],
           procs = [0 \<mapsto> proc0,
                     1 \<mapsto> proc0\<lparr>p_id := 2, p_name := ''init'', children := [],
                                  thread_list := [1], main_thread := Some 1,
                                  aspace_id := 1\<rparr>,
                     2 \<mapsto> proc0\<lparr>p_id := 3, p_name := ''new'', children := [],
                                  num_threads := 0, thread_list := [],
                                  main_thread := None, aspace_id := 2,
                                  p_state := PROC_STATE_BIRTH\<rparr>],
           cpus = [0 \<mapsto> \<lparr>cpu_num = 0, preempted = False, quantum_timer = None,
                             fpu_state_thread = None\<rparr>],
           thread_hash = [1, 0], proc_hash = [2, 1, 0],
           pgid_hash = [\<lparr>node_id = 1, node_list = [2, 1, 0]\<rparr>],
           sid_hash = [\<lparr>node_id = 1, node_list = [2, 1, 0]\<rparr>],
           kernel_proc = Some 0, next_thread_id = 6, next_proc_id = 4,
           run_q = (\<lambda>i. []), dead_q = [], current_thread = Some 1,
           curr_cpu = Some 0, installed_tmap = None, rand_next = 1,
           time_source = (\<lambda>n. 1000 + int n), time_reads = 0, sig_log = [],
           sems = [1 \<mapsto> 0, 2 \<mapsto> 0], sem_deleted = [] \<rparr>"

text \<open>
  A state with a job: the kernel process, a shell (id 2, at address 1, group 2,
  session 2, main thread 5), a process 3 (at address 2, child of the shell, group 3,
  session 2, main thread 6, which is running) and a process 4 (at address 3, child
  of process 3, group 3, session 2, main thread 7).
\<close>

definition S1 :: kstate where
  "S1 = S0 \<lparr> threads := [0 \<mapsto> thread0,
                          1 \<mapsto> thread0\<lparr>t_id := 5, t_proc := Some 1, return_code_sem := 2\<rparr>,
                          2 \<mapsto> thread0\<lparr>t_id := 6, t_proc := Some 2, cpu := Some 0,
                                         priority := 20, t_state := THREAD_STATE_RUNNING,
                                         return_code_sem := 3\<rparr>,
                          3 \<mapsto> thread0\<lparr>t_id := 7, t_proc := Some 3, return_code_sem := 4\<rparr>],
              procs := [0 \<mapsto> proc0\<lparr>children := [1]\<rparr>,
                        1 \<mapsto> proc0\<lparr>p_id := 2, p_name := ''shell'', children := [2],
                                     pgid := 2, sid := 2, thread_list := [1],
                                     main_thread := Some 1, aspace_id := 1\<rparr>,
                        2 \<mapsto> proc0\<lparr>p_id := 3, p_name := ''job'', parent := Some 1,
                                     children := [3], pgid := 3, sid := 2,
                                     thread_list := [2], main_thread := Some 2,
                                     aspace_id := 2\<rparr>,
                        3 \<mapsto> proc0\<lparr>p_id := 4, p_name := ''helper'', parent := Some 2,
                                     children := [], pgid := 3, sid := 2,
                                     thread_list := [3], main_thread := Some 3,
                                     aspace_id := 3\<rparr>],
              thread_hash := [3, 2, 1, 0], proc_hash := [3, 2, 1, 0],
              pgid_hash := [\<lparr>node_id = 3, node_list = [3, 2]\<rparr>,
                            \<lparr>node_id = 2, node_list = [1]\<rparr>,
                            \<lparr>node_id = 1, node_list = [0]\<rparr>],
              sid_hash := [\<lparr>node_id = 2, node_list = [3, 2, 1]\<rparr>,
                           \<lparr>node_id = 1, node_list = [0]\<rparr>],
              current_thread := Some 2,
              sems := [1 \<mapsto> 0, 2 \<mapsto> 0, 3 \<mapsto> 0, 4 \<mapsto> 0] \<rparr>"

text \<open>
  A state for the dispatcher: the idle thread (at address 0) is running on CPU 0,
  thread 5 is waiting, and three threads 6, 7 and 8 (at addresses 2, 3 and 4) of
  priority 20 are ready but not yet on a run queue.
\<close>

definition S2 :: kstate where
  "S2 = S0 \<lparr> threads := [0 \<mapsto> thread0\<lparr>cpu := Some 0, t_state := THREAD_STATE_RUNNING\<rparr>,
                          1 \<mapsto> thread0\<lparr>t_id := 5, t_proc := Some 1, priority := 20,
                                         t_state := THREAD_STATE_WAITING,
                                         next_state := THREAD_STATE_WAITING,
                                         return_code_sem := 2\<rparr>,
                          2 \<mapsto> thread0\<lparr>t_id := 6, t_proc := Some 1, priority := 20,
                                         return_code_sem := 3\<rparr>,
                          3 \<mapsto> thread0\<lparr>t_id := 7, t_proc := Some 1, priority := 20,
                                         return_code_sem := 4\<rparr>,
                          4 \<mapsto> thread0\<lparr>t_id := 8, t_proc := Some 1, priority := 20,
                                         return_code_sem := 5\<rparr>],
              procs := [0 \<mapsto> proc0\<lparr>children := [1]\<rparr>,
                        1 \<mapsto> proc0\<lparr>p_id := 2, p_name := ''init'', children := [],
                                     num_threads := 4, thread_list := [4, 3, 2, 1],
                                     main_thread := Some 1, aspace_id := 1\<rparr>],
              thread_hash := [4, 3, 2, 1, 0], proc_hash := [1, 0],
              pgid_hash := [\<lparr>node_id = 1, node_list = [1, 0]\<rparr>],
              sid_hash := [\<lparr>node_id = 1, node_list = [1, 0]\<rparr>],
              next_thread_id := 9, next_proc_id := 3, current_thread := Some 0,
              sems := [1 \<mapsto> 0, 2 \<mapsto> 0, 3 \<mapsto> 0, 4 \<mapsto> 0, 5 \<mapsto> 0] \<rparr>"

text \<open>
  The same with thread 6 of priority 10 and thread 7 of priority 5 on their run
  queues, and 18 in the static \<open>next\<close> of \<open>_rand\<close>: its next two values are
  8177 and 842.
\<close>

definition S3 :: kstate where
  "S3 = S2 \<lparr> threads := (threads S2)(2 \<mapsto> thread0\<lparr>t_id := 6, t_proc := Some 1, priority := 10,
                                                    return_code_sem := 3\<rparr>,
                                       3 \<mapsto> thread0\<lparr>t_id := 7, t_proc := Some 1, priority := 5,
                                                    return_code_sem := 4\<rparr>),
              run_q := (\<lambda>i. [])(10 := [2], 5 := [3]),
              rand_next := 18 \<rparr>"

text \<open>
  A state for a wait: in the state for the dispatcher, thread 5 (at address 1) is
  running instead of the idle thread; thread 6 (at address 2) is another thread of
  its process, with the return-code semaphore 3.
\<close>

definition S6 :: kstate where
  "S6 = S2 \<lparr> threads := (threads S2)
                 (0 \<mapsto> thread0,
                  1 \<mapsto> thread0\<lparr>t_id := 5, t_proc := Some 1, cpu := Some 0, priority := 20,
                                 t_state := THREAD_STATE_RUNNING, return_code_sem := 2\<rparr>),
              current_thread := Some 1 \<rparr>"

text \<open>
  Collaborators for a wait: while the caller cannot run, the thread at address 2
  runs \<open>thread_exit\<close> with return code 42, and the CPU comes back to the caller.
  \<open>S7\<close> is \<open>S6\<close> after that.
\<close>

definition X2 :: extern where
  "X2 = X0\<lparr>others := (\<lambda>s. case thread_exit K0 X0 (s\<lparr>current_thread := Some 2\<rparr>) 42 of
                            Some (Inr s') \<Rightarrow> s'\<lparr>current_thread := current_thread s\<rparr>
                          | _ \<Rightarrow> s)\<rparr>"

definition S7 :: kstate where
  "S7 = others X2 S6"


text \<open>
  The state \<open>S1\<close> while process 4 creates a process 5 (at address 4):
  \<open>proc_create_proc\<close> has put it into the process index, the session and the group
  of its creator and has released the process lock; its main thread does not exist
  yet.
\<close>

definition S5 :: kstate where
  "S5 = S1 \<lparr> procs := (procs S1)
                 (3 \<mapsto> proc0\<lparr>p_id := 4, p_name := ''helper'', parent := Some 2,
                              children := [4], pgid := 3, sid := 2,
                              thread_list := [3], main_thread := Some 3,
                              aspace_id := 3\<rparr>,
                  4 \<mapsto> proc0\<lparr>p_id := 5, p_name := ''new'', parent := Some 3,
                              children := [], pgid := 3, sid := 2, num_threads := 0,
                              thread_list := [], main_thread := None,
                              aspace_id := - 1, p_state := PROC_STATE_BIRTH\<rparr>),
              proc_hash := [4, 3, 2, 1, 0],
              pgid_hash := [\<lparr>node_id = 3, node_list = [4, 3, 2]\<rparr>,
                            \<lparr>node_id = 2, node_list = [1]\<rparr>,
                            \<lparr>node_id = 1, node_list = [0]\<rparr>],
              sid_hash := [\<lparr>node_id = 2, node_list = [4, 3, 2, 1]\<rparr>,
                           \<lparr>node_id = 1, node_list = [0]\<rparr>],
              next_proc_id := 6 \<rparr>"

definition tinfo0 :: thread_info where
  "tinfo0 = \<lparr> ti_id = 0, ti_owner_proc_id = 0, ti_name = ''none'',
               ti_state = THREAD_STATE_BIRTH, ti_priority = 0, ti_user_stack_base = 0,
               ti_user_time = 0, ti_kernel_time = 0 \<rparr>"

definition pinfo0 :: proc_info where
  "pinfo0 = \<lparr> pi_pid = 0, pi_ppid = 0, pi_pgid = 0, pi_sid = 0, pi_name = ''none'',
               pi_state = PROC_STATE_BIRTH, pi_num_threads = 0 \<rparr>"

subsection \<open>Accounted time\<close>

text \<open>
  The sum over all threads of \<open>user_time + kernel_time\<close> (section 8), the threads
  being those of the thread index.
\<close>

definition thread_time :: "kstate \<Rightarrow> thread_ptr \<Rightarrow> bigtime_t" where
  "thread_time s a = (case threads s a of None \<Rightarrow> 0 | Some t \<Rightarrow> user_time t + kernel_time t)"


section \<open>Properties\<close>

lemma seq_simps [simp]: "seq (Inl e) f = Inl e" "seq (Inr x) f = f x"
  by (simp_all add: seq_def)

lemma seq_eq_Inr: "seq m f = Inr y \<longleftrightarrow> (\<exists>x. m = Inr x \<and> f x = Inr y)"
  by (cases m) simp_all

lemma errors_h_ok_K0: "errors_h_ok K0"
  by (simp add: errors_h_ok_def K0_def)

lemma S0_sel:
  "threads S0 = [0 \<mapsto> thread0,
                 1 \<mapsto> thread0\<lparr>t_id := 5, t_name := ''main'', t_proc := Some 1,
                                cpu := Some 0, priority := 20,
                                t_state := THREAD_STATE_RUNNING,
                                return_code_sem := 2\<rparr>]"
  "procs S0 = [0 \<mapsto> proc0,
               1 \<mapsto> proc0\<lparr>p_id := 2, p_name := ''init'', children := [],
                            thread_list := [1], main_thread := Some 1,
                            aspace_id := 1\<rparr>,
               2 \<mapsto> proc0\<lparr>p_id := 3, p_name := ''new'', children := [],
                            num_threads := 0, thread_list := [],
                            main_thread := None, aspace_id := 2,
                            p_state := PROC_STATE_BIRTH\<rparr>]"
  "thread_hash S0 = [1, 0]" "proc_hash S0 = [2, 1, 0]"
  "current_thread S0 = Some 1" "kernel_proc S0 = Some 0"
  "pgid_hash S0 = [\<lparr>node_id = 1, node_list = [2, 1, 0]\<rparr>]"
  "sid_hash S0 = [\<lparr>node_id = 1, node_list = [2, 1, 0]\<rparr>]"
  "sig_log S0 = []" "dead_q S0 = []" "next_thread_id S0 = 6"
  "sems S0 = [1 \<mapsto> 0, 2 \<mapsto> 0]" "sem_deleted S0 = []"
  by (simp_all add: S0_def)

lemma S0_lookup:
  "thread_get_thread_struct_locked S0 5 = Some 1"
  "thread_get_thread_struct_locked S0 9 = None"
  "proc_get_proc_struct_locked S0 9 = None"
  "proc_get_proc_struct_locked S0 2 = Some 1"
  "proc_get_proc_struct_locked S0 3 = Some 2"
  by (simp_all add: thread_get_thread_struct_locked_def proc_get_proc_struct_locked_def
        thread_struct_compare_def proc_struct_compare_def S0_sel thread0_def proc0_def)

subsection \<open>Information calls\<close>

text \<open>
  Claim C10.  When \<open>thread_get_thread_info\<close> or \<open>proc_get_proc_info\<close> does not find
  the id in its index it returns \<open>ERR_INVALID_HANDLE\<close> and the caller's structure
  is as it was; whenever either returns, it has returned that error and left the
  structure alone, or it has returned \<open>NO_ERROR\<close> and the structure holds the
  information copied from the record found.
\<close>

theorem get_info_output_unwritten_on_failure:
  assumes K: "errors_h_ok K"
  shows "(thread_get_thread_struct_locked s tid = None \<longrightarrow>
            thread_get_thread_info K s tu tid tout = Inr (ERR_INVALID_HANDLE K, tout))
       \<and> (proc_get_proc_struct_locked s pid = None \<longrightarrow>
            proc_get_proc_info K s pu pid pout = Inr (ERR_INVALID_HANDLE K, pout))
       \<and> (\<forall>e out'. thread_get_thread_info K s tu tid tout = Inr (e, out') \<longrightarrow>
            (e = ERR_INVALID_HANDLE K \<and> out' = tout
               \<and> thread_get_thread_struct_locked s tid = None)
          \<or> (e = NO_ERROR K \<and> thread_get_thread_struct_locked s tid \<noteq> None
               \<and> (\<exists>t p. get_thread s (thread_get_thread_struct_locked s tid) = Inr t
                      \<and> get_proc s (t_proc t) = Inr p
                      \<and> out' = \<lparr> ti_id = tid, ti_owner_proc_id = p_id p,
                          ti_name = copy_name K (t_name t), ti_state = t_state t,
                          ti_priority = priority t,
                          ti_user_stack_base = user_stack_base t,
                          ti_user_time = user_time t, ti_kernel_time = kernel_time t \<rparr>)))
       \<and> (\<forall>e out'. proc_get_proc_info K s pu pid pout = Inr (e, out') \<longrightarrow>
            (e = ERR_INVALID_HANDLE K \<and> out' = pout
               \<and> proc_get_proc_struct_locked s pid = None)
          \<or> (e = NO_ERROR K \<and> proc_get_proc_struct_locked s pid \<noteq> None
               \<and> (\<exists>p pa. get_proc s (proc_get_proc_struct_locked s pid) = Inr p
                      \<and> get_proc s (parent p) = Inr pa
                      \<and> out' = \<lparr> pi_pid = pid, pi_ppid = p_id pa, pi_pgid = pgid p,
                          pi_sid = sid p, pi_name = copy_name K (p_name p),
                          pi_state = p_state p, pi_num_threads = num_threads p \<rparr>)))"
  using K
  by (auto simp: errors_h_ok_def thread_get_thread_info_def proc_get_proc_info_def
        Let_def seq_eq_Inr split: option.splits)

theorem get_info_output_unwritten_on_failure_witness:
  "errors_h_ok K0
   \<and> thread_get_thread_info K0 S0 tinfo0 9 tinfo0 = Inr (ERR_INVALID_HANDLE K0, tinfo0)
   \<and> proc_get_proc_info K0 S0 pinfo0 9 pinfo0 = Inr (ERR_INVALID_HANDLE K0, pinfo0)"
proof -
  note t = get_info_output_unwritten_on_failure
             [OF errors_h_ok_K0, of S0 9 tinfo0 tinfo0 9 pinfo0 pinfo0]
  note a = t [THEN conjunct1, THEN mp, OF S0_lookup(2)]
  note b = t [THEN conjunct2, THEN conjunct1, THEN mp, OF S0_lookup(3)]
  from errors_h_ok_K0 a b show ?thesis by (intro conjI)
qed

lemma seqE: "seq m f = Inr y \<Longrightarrow> (\<And>x. m = Inr x \<Longrightarrow> f x = Inr y \<Longrightarrow> P) \<Longrightarrow> P"
  by (cases m) simp_all

lemma get_thread_Some [simp]: "get_thread s (Some a) = Inr t \<longleftrightarrow> threads s a = Some t"
  by (simp add: get_thread_def split: option.splits)

lemma get_proc_Some [simp]: "get_proc s (Some a) = Inr p \<longleftrightarrow> procs s a = Some p"
  by (simp add: get_proc_def split: option.splits)

lemma get_cpu_Some [simp]: "get_cpu s (Some a) = Inr c \<longleftrightarrow> cpus s a = Some c"
  by (simp add: get_cpu_def split: option.splits)

lemma put_thread_sel [simp]:
  "threads (put_thread a t s) = (threads s)(a \<mapsto> t)"
  "procs (put_thread a t s) = procs s"
  "cpus (put_thread a t s) = cpus s"
  "thread_hash (put_thread a t s) = thread_hash s"
  "proc_hash (put_thread a t s) = proc_hash s"
  "run_q (put_thread a t s) = run_q s"
  "dead_q (put_thread a t s) = dead_q s"
  "current_thread (put_thread a t s) = current_thread s"
  "curr_cpu (put_thread a t s) = curr_cpu s"
  "rand_next (put_thread a t s) = rand_next s"
  "time_source (put_thread a t s) = time_source s"
  "time_reads (put_thread a t s) = time_reads s"
  "sig_log (put_thread a t s) = sig_log s"
  "sems (put_thread a t s) = sems s"
  "sem_deleted (put_thread a t s) = sem_deleted s"
  "pgid_hash (put_thread a t s) = pgid_hash s"
  "sid_hash (put_thread a t s) = sid_hash s"
  "kernel_proc (put_thread a t s) = kernel_proc s"
  "next_thread_id (put_thread a t s) = next_thread_id s"
  by (simp_all add: put_thread_def)

lemma arch_thread_context_switch_sel [simp]:
  "threads (arch_thread_context_switch m s) = threads s"
  "thread_hash (arch_thread_context_switch m s) = thread_hash s"
  "current_thread (arch_thread_context_switch m s) = current_thread s"
  "run_q (arch_thread_context_switch m s) = run_q s"
  "procs (arch_thread_context_switch m s) = procs s"
  "cpus (arch_thread_context_switch m s) = cpus s"
  by (simp_all add: arch_thread_context_switch_def split: option.splits)

lemma S0_proc3:
  "procs S0 2 = Some (proc0\<lparr>p_id := 3, p_name := ''new'', children := [],
                            num_threads := 0, thread_list := [],
                            main_thread := None, aspace_id := 2,
                            p_state := PROC_STATE_BIRTH\<rparr>)"
  by (simp add: S0_sel)


subsection \<open>Main threads of processes\<close>

text \<open>
  Claim C9.  \<open>proc_wait_on_proc\<close> answers \<open>ERR_INVALID_HANDLE\<close> for an id that is
  not in the process index and, alike, for a process found there whose
  \<open>main_thread\<close> is \<open>NULL\<close>.  On such a process \<open>proc_kill_proc\<close> and
  \<open>proc_get_main_thread\<close> read through the \<open>NULL\<close> pointer; on a process whose
  main thread is set they read its id, which \<open>proc_get_main_thread\<close> returns and
  \<open>proc_kill_proc\<close> hands to \<open>thread_kill_thread\<close>.
\<close>

theorem main_thread_null_check:
  assumes K: "errors_h_ok K"
  shows "(proc_get_proc_struct_locked s pid = None \<longrightarrow>
            proc_wait_on_proc K X s pid rc = Inr (ERR_INVALID_HANDLE K, rc, s))
       \<and> (proc_get_proc_struct_locked s pid = Some a \<and> procs s a = Some p
            \<and> main_thread p = None \<longrightarrow>
            proc_wait_on_proc K X s pid rc = Inr (ERR_INVALID_HANDLE K, rc, s)
            \<and> proc_kill_proc K X s pid = Inl Null_deref
            \<and> proc_get_main_thread K s pid = Inl Null_deref)
       \<and> (proc_get_proc_struct_locked s pid = Some a \<and> procs s a = Some p
            \<and> main_thread p = Some m \<and> threads s m = Some t \<longrightarrow>
            proc_get_main_thread K s pid = Inr (t_id t)
            \<and> proc_kill_proc K X s pid = thread_kill_thread K X s (t_id t))"
  using K
  by (simp add: errors_h_ok_def proc_wait_on_proc_def proc_kill_proc_def
        proc_get_main_thread_def get_proc_def get_thread_def)

theorem main_thread_null_check_witness:
  "errors_h_ok K0
   \<and> proc_wait_on_proc K0 X0 S0 3 None = Inr (ERR_INVALID_HANDLE K0, None, S0)
   \<and> proc_kill_proc K0 X0 S0 3 = Inl Null_deref
   \<and> proc_get_main_thread K0 S0 3 = Inl Null_deref
   \<and> proc_wait_on_proc K0 X0 S0 9 None = Inr (ERR_INVALID_HANDLE K0, None, S0)"
proof -
  have m: "main_thread (proc0\<lparr>p_id := 3, p_name := ''new'', children := [],
                            num_threads := 0, thread_list := [],
                            main_thread := None, aspace_id := 2,
                            p_state := PROC_STATE_BIRTH\<rparr>) = None"
    by simp
  note t = main_thread_null_check [OF errors_h_ok_K0, of S0 3 X0 None 2 _ 0 thread0]
  note b = t [THEN conjunct2, THEN conjunct1, THEN mp, OF conjI [OF S0_lookup(5) conjI [OF S0_proc3 m]]]
  note u = main_thread_null_check [OF errors_h_ok_K0, of S0 9 X0 None 2 proc0 0 thread0]
  note a = u [THEN conjunct1, THEN mp, OF S0_lookup(3)]
  from errors_h_ok_K0 a b show ?thesis by (elim conjE) (intro conjI; assumption)
qed

subsection \<open>Time accounting at the context switch\<close>

lemma thread_time_put:
  "thread_time (put_thread a t s) b = (if b = a then user_time t + kernel_time t else thread_time s b)"
  by (simp add: thread_time_def put_thread_def)










subsection \<open>Process groups and sessions\<close>

lemma put_proc_sel [simp]:
  "procs (put_proc a p s) = (procs s)(a \<mapsto> p)"
  "threads (put_proc a p s) = threads s"
  "cpus (put_proc a p s) = cpus s"
  "thread_hash (put_proc a p s) = thread_hash s"
  "proc_hash (put_proc a p s) = proc_hash s"
  "pgid_hash (put_proc a p s) = pgid_hash s"
  "sid_hash (put_proc a p s) = sid_hash s"
  "current_thread (put_proc a p s) = current_thread s"
  "kernel_proc (put_proc a p s) = kernel_proc s"
  "sig_log (put_proc a p s) = sig_log s"
  "run_q (put_proc a p s) = run_q s"
  "sems (put_proc a p s) = sems s"
  "sem_deleted (put_proc a p s) = sem_deleted s"
  by (simp_all add: put_proc_def)

lemma hash_lookup_node_unlink:
  "hash_lookup_node (unlink_member a tab) g =
     map_option (\<lambda>n. n\<lparr>node_list := removeAll a (node_list n)\<rparr>) (hash_lookup_node tab g)"
  by (induction tab) (simp_all add: hash_lookup_node_def unlink_member_def)

lemma is_linked_unlink [simp]: "\<not> is_linked a (unlink_member a tab)"
  by (simp add: is_linked_def unlink_member_def list_ex_iff)

lemma hash_lookup_node_update:
  "hash_lookup_node (update_node g f tab) g' =
     (if g' = g then map_option f (hash_lookup_node tab g)
      else hash_lookup_node tab g')"
  if "\<And>n. node_id (f n) = node_id n"
  using that by (induction tab) (auto simp: hash_lookup_node_def)

lemma proc_lookup_same_ids:
  assumes "proc_hash s' = proc_hash s"
    and "\<And>b. map_option p_id (procs s' b) = map_option p_id (procs s b)"
  shows "proc_get_proc_struct_locked s' k = proc_get_proc_struct_locked s k"
proof -
  have "proc_struct_compare s' b k = proc_struct_compare s b k" for b
    using assms(2) [of b] by (auto simp: proc_struct_compare_def split: option.splits)
  then show ?thesis by (simp add: proc_get_proc_struct_locked_def assms(1))
qed

lemma proc_lookup_Some:
  "proc_get_proc_struct_locked s k = Some a \<Longrightarrow> \<exists>p. procs s a = Some p \<and> p_id p = k"
  by (auto simp: proc_get_proc_struct_locked_def find_Some_iff proc_struct_compare_def
      split: option.splits)

lemma current_proc_id_same_ids:
  assumes "current_thread s' = current_thread s" "threads s' = threads s"
    and "\<And>b. map_option p_id (procs s' b) = map_option p_id (procs s b)"
  shows "proc_get_current_proc_id s' = proc_get_current_proc_id s"
proof -
  have "seq (get_proc s' x) (\<lambda>p. Inr (p_id p)) = seq (get_proc s x) (\<lambda>p. Inr (p_id p))" for x
  proof (cases x)
    case None
    then show ?thesis by (simp add: get_proc_def)
  next
    case (Some b)
    with assms(3) [of b] show ?thesis
      by (cases "procs s' b"; cases "procs s b") (simp_all add: get_proc_def)
  qed
  then show ?thesis
    by (simp add: proc_get_current_proc_id_def get_thread_def assms(1,2) split: option.splits)
qed


lemma remove_proc_from_pgroup_Inr:
  assumes "remove_proc_from_pgroup K a g s = Inr (r, s')"
  shows "procs s' = procs s \<and> proc_hash s' = proc_hash s \<and> threads s' = threads s
       \<and> current_thread s' = current_thread s \<and> sid_hash s' = sid_hash s
       \<and> (pgid_hash s' = pgid_hash s \<or> pgid_hash s' = unlink_member a (pgid_hash s))
       \<and> (hash_lookup_node (pgid_hash s) g \<noteq> None \<longrightarrow>
            pgid_hash s' = unlink_member a (pgid_hash s))"
  using assms
  by (auto simp: remove_proc_from_pgroup_def seq_eq_Inr split: option.splits if_splits)

lemma add_proc_to_pgroup_Inr:
  assumes "add_proc_to_pgroup K a g s = Inr (r, s')"
    and "hash_lookup_node (pgid_hash s) g \<noteq> None"
  shows "\<exists>p. procs s a = Some p \<and> procs s' = (procs s)(a \<mapsto> p\<lparr>pgid := g\<rparr>)
       \<and> proc_hash s' = proc_hash s \<and> threads s' = threads s
       \<and> current_thread s' = current_thread s \<and> sid_hash s' = sid_hash s
       \<and> \<not> is_linked a (pgid_hash s)
       \<and> pgid_hash s' = update_node g (\<lambda>n. n\<lparr>node_list := a # node_list n\<rparr>) (pgid_hash s)"
  using assms
  by (auto simp: add_proc_to_pgroup_def seq_eq_Inr Let_def split: option.splits if_splits)

lemma setpgid_move_Inr:
  assumes "setpgid_move K a g s = Inr (r, s')"
    and "hash_lookup_node (pgid_hash s) g \<noteq> None"
  shows "\<exists>p. procs s a = Some p \<and> r = NO_ERROR K
       \<and> procs s' = (procs s)(a \<mapsto> p\<lparr>pgid := g\<rparr>)
       \<and> proc_hash s' = proc_hash s \<and> threads s' = threads s
       \<and> current_thread s' = current_thread s"
proof -
  from assms(1) obtain p r1 s1 r2 where
    p: "procs s a = Some p"
    and rm: "remove_proc_from_pgroup K a (pgid p) s = Inr (r1, s1)"
    and ad: "add_proc_to_pgroup K a g s1 = Inr (r2, s')" and r: "r = NO_ERROR K"
    by (auto simp: setpgid_move_def seq_eq_Inr)
  note R = remove_proc_from_pgroup_Inr [OF rm]
  have "hash_lookup_node (pgid_hash s1) g \<noteq> None"
    using R assms(2) by (auto simp: hash_lookup_node_unlink)
  from add_proc_to_pgroup_Inr [OF ad this] R p r show ?thesis by auto
qed

text \<open>
  Claim C6.  When \<open>setpgid(pid, g)\<close> returns \<open>NO_ERROR\<close>, \<open>getpgid(pid)\<close> on the state
  it leaves returns \<open>g\<close>, where a \<open>pid\<close> of 0 stands for the id of the calling
  process and a \<open>g\<close> of 0 for that \<open>pid\<close>.  Where \<open>setpgid\<close> releases the process
  lock, the other threads are taken to leave the process index and the calling
  process as they are.
\<close>

theorem setpgid_then_getpgid:
  assumes K: "errors_h_ok K"
    and st: "setpgid K X s pid g = Inr (NO_ERROR K, s')"
    and cur: "proc_get_current_proc_id (others X s) = proc_get_current_proc_id s"
    and idx: "\<forall>i. proc_get_proc_struct_locked (others X s) i = proc_get_proc_struct_locked s i"
  shows "\<exists>pid'. (if pid = 0 then proc_get_current_proc_id s else Inr pid) = Inr pid'
           \<and> getpgid K s' pid = Inr (if g = 0 then pid' else g)"
proof -
  from K have neg: "ERR_INVALID_ARGS K \<noteq> NO_ERROR K" "ERR_NOT_FOUND K \<noteq> NO_ERROR K"
    "ERR_NO_MEMORY K \<noteq> NO_ERROR K"
    by (auto simp: errors_h_ok_def)
  from st neg have nn: "\<not> (pid < 0 \<or> g < 0)"
    by (auto simp: setpgid_def split: if_splits)
  with st obtain pid' where
    pid': "(if pid = 0 then proc_get_current_proc_id s else Inr pid) = Inr pid'"
    by (auto simp: setpgid_def seq_eq_Inr)
  let ?g = "if g = 0 then pid' else g"
  from st nn pid' neg obtain a p where
    a: "proc_get_proc_struct_locked s pid' = Some a" and p: "procs s a = Some p"
    and rest: "(if pgid p = ?g then Inr (NO_ERROR K, s)
         else if hash_lookup_node (pgid_hash s) ?g = None
         then (let s1 = others X s in
               case create_pgroup_struct X ?g of
                 None \<Rightarrow> Inr (ERR_NO_MEMORY K, s1)
               | Some node \<Rightarrow>
                   setpgid_move K a ?g
                     (if hash_lookup_node (pgid_hash s1) ?g \<noteq> None then s1
                      else s1\<lparr>pgid_hash := node # pgid_hash s1\<rparr>))
         else setpgid_move K a ?g s) = Inr (NO_ERROR K, s')"
    by (auto simp: setpgid_def Let_def seq_eq_Inr split: option.splits)
  have goal: "getpgid K s2 pid = Inr ?g"
    if "proc_get_current_proc_id s2 = proc_get_current_proc_id s"
      and "proc_get_proc_struct_locked s2 pid' = Some a"
      and "\<exists>q. procs s2 a = Some q \<and> pgid q = ?g" for s2
    using that nn pid' by (auto simp: getpgid_def get_proc_def)
  have moved: "getpgid K s' pid = Inr ?g"
    if mv: "setpgid_move K a ?g s2 = Inr (NO_ERROR K, s')"
      and nd: "hash_lookup_node (pgid_hash s2) ?g \<noteq> None"
      and c2: "proc_get_current_proc_id s2 = proc_get_current_proc_id s"
      and i2: "proc_get_proc_struct_locked s2 pid' = Some a" for s2
  proof -
    from setpgid_move_Inr [OF mv nd] obtain q where
      q: "procs s2 a = Some q" and pr: "procs s' = (procs s2)(a \<mapsto> q\<lparr>pgid := ?g\<rparr>)"
      and ph: "proc_hash s' = proc_hash s2" and th: "threads s' = threads s2"
      and ct: "current_thread s' = current_thread s2"
      by blast
    have ids: "map_option p_id (procs s' b) = map_option p_id (procs s2 b)" for b
      using q pr by simp
    show ?thesis
    proof (rule goal)
      show "proc_get_current_proc_id s' = proc_get_current_proc_id s"
        using current_proc_id_same_ids [OF ct th ids] c2 by simp
      show "proc_get_proc_struct_locked s' pid' = Some a"
        using proc_lookup_same_ids [OF ph ids] i2 by simp
      show "\<exists>q. procs s' a = Some q \<and> pgid q = ?g"
        using pr by simp
    qed
  qed
  have sel: "proc_get_current_proc_id (s2\<lparr>pgid_hash := h\<rparr>) = proc_get_current_proc_id s2"
    "proc_get_proc_struct_locked (s2\<lparr>pgid_hash := h\<rparr>) i = proc_get_proc_struct_locked s2 i"
    for s2 h i
    by (rule current_proc_id_same_ids; simp) (rule proc_lookup_same_ids; simp)
  have "getpgid K s' pid = Inr ?g"
  proof (cases "pgid p = ?g")
    case True
    with rest have "s' = s" by simp
    with a p True show ?thesis by (intro goal) simp_all
  next
    case False
    show ?thesis
    proof (cases "hash_lookup_node (pgid_hash s) ?g = None")
      case ex: False
      with rest \<open>pgid p \<noteq> ?g\<close> have "setpgid_move K a ?g s = Inr (NO_ERROR K, s')" by simp
      from moved [OF this ex refl a] show ?thesis .
    next
      case True
      with rest \<open>pgid p \<noteq> ?g\<close> neg obtain node where
        mv: "setpgid_move K a ?g
               (if hash_lookup_node (pgid_hash (others X s)) ?g \<noteq> None then others X s
                else others X s\<lparr>pgid_hash := node # pgid_hash (others X s)\<rparr>)
             = Inr (NO_ERROR K, s')"
        and nid: "node_id node = ?g"
        by (auto simp: Let_def create_pgroup_struct_def split: option.splits)
      show ?thesis
      proof (rule moved [OF mv])
        show "hash_lookup_node (pgid_hash (if hash_lookup_node (pgid_hash (others X s)) ?g \<noteq> None
            then others X s else others X s\<lparr>pgid_hash := node # pgid_hash (others X s)\<rparr>)) ?g \<noteq> None"
          using nid by (auto simp: hash_lookup_node_def)
      qed (use cur idx a in \<open>simp_all add: sel\<close>)
    qed
  qed
  with pid' show ?thesis by simp
qed

lemma setpgid_S0: "\<exists>s'. setpgid K0 X0 S0 0 0 = Inr (NO_ERROR K0, s')"
  by (simp add: setpgid_def proc_get_current_proc_id_def get_thread_def get_proc_def
      S0_sel S0_lookup thread0_def proc0_def hash_lookup_node_def X0_def
      create_pgroup_struct_def setpgid_move_def remove_proc_from_pgroup_def
      add_proc_to_pgroup_def unlink_member_def is_linked_def Let_def)

theorem setpgid_then_getpgid_witness:
  "\<not> isl (setpgid K0 X0 S0 0 0)
   \<and> fst (projr (setpgid K0 X0 S0 0 0)) = NO_ERROR K0
   \<and> getpgid K0 (snd (projr (setpgid K0 X0 S0 0 0))) 0 = Inr 2"
proof -
  from setpgid_S0 obtain s' where st: "setpgid K0 X0 S0 0 0 = Inr (NO_ERROR K0, s')" ..
  have o: "others X0 S0 = S0" by (simp add: X0_def)
  have c: "proc_get_current_proc_id S0 = Inr 2"
    by (simp add: proc_get_current_proc_id_def get_thread_def get_proc_def S0_sel
        thread0_def proc0_def)
  from setpgid_then_getpgid [OF errors_h_ok_K0 st] o c
  have "getpgid K0 s' 0 = Inr 2" by simp
  with st show ?thesis by simp
qed

text \<open>
  Claim C5.  \<open>setsid\<close> computes the new session id in \<open>sid\<close> and returns \<open>err\<close>.
  On \<open>S0\<close> the calling process has id 2 and is in session 1, and the allocation of
  the session node succeeds: \<open>setsid\<close> moves the process into session 2, as the
  claim says, and returns 0, the value of \<open>NO_ERROR\<close>, where the claim says 2; a
  second call changes nothing and returns 0 again.
\<close>

theorem setsid_returns_status:
  "proc_get_current_proc_id S0 = Inr 2
   \<and> proc_get_proc_struct_locked S0 2 = Some 1
   \<and> map_option sid (procs S0 1) = Some 1
   \<and> map_sum id fst (setsid K0 X0 S0) = Inr 0
   \<and> map_option sid (procs (snd (projr (setsid K0 X0 S0))) 1) = Some 2
   \<and> map (node_list) (sid_hash (snd (projr (setsid K0 X0 S0)))) = [[1], [2, 0]]
   \<and> map_sum id fst (setsid K0 X0 (snd (projr (setsid K0 X0 S0)))) = Inr 0
   \<and> map_option sid (procs (snd (projr (setsid K0 X0 (snd (projr (setsid K0 X0 S0)))))) 1)
       = Some 2"
  by code_simp

subsection \<open>Creating a thread in a dying process\<close>

lemma get_thread_eq [simp]: "threads s a = Some t \<Longrightarrow> get_thread s (Some a) = Inr t"
  by (simp add: get_thread_def)

lemma get_proc_eq [simp]: "procs s a = Some p \<Longrightarrow> get_proc s (Some a) = Inr p"
  by (simp add: get_proc_def)

lemma get_cpu_eq [simp]: "cpus s a = Some c \<Longrightarrow> get_cpu s (Some a) = Inr c"
  by (simp add: get_cpu_def)

lemma sem_delete_etc_sel [simp]:
  "threads (sem_delete_etc s m r) = threads s"
  "procs (sem_delete_etc s m r) = procs s"
  "thread_hash (sem_delete_etc s m r) = thread_hash s"
  "proc_hash (sem_delete_etc s m r) = proc_hash s"
  "sig_log (sem_delete_etc s m r) = sig_log s"
  by (simp_all add: sem_delete_etc_def split: option.splits)

lemma kfree_thread_sel [simp]:
  "threads (kfree_thread a s) = (threads s)(a := None)"
  "procs (kfree_thread a s) = procs s"
  "thread_hash (kfree_thread a s) = thread_hash s"
  "proc_hash (kfree_thread a s) = proc_hash s"
  "sems (kfree_thread a s) = sems s"
  "sem_deleted (kfree_thread a s) = sem_deleted s"
  by (simp_all add: kfree_thread_def)

lemma create_thread_struct_Some:
  assumes "create_thread_struct X s name K = (Some a, s0)"
  shows "\<exists>t. threads s0 = (threads s)(a \<mapsto> t) \<and> procs s0 = procs s
           \<and> proc_hash s0 = proc_hash s \<and> thread_hash s0 = thread_hash s
           \<and> return_code_sem t = sem_create X \<and> 0 \<le> sem_create X
           \<and> t_id t = next_thread_id s
           \<and> sems s0 (sem_create X) = Some 0"
  using assms
  by (auto simp: create_thread_struct_def Let_def thread_dequeue_def
      split: list.splits option.splits if_splits)

lemma u_create_thread_abort:
  assumes cr: "create_thread_struct X s name K = (Some a, s0)"
    and tgt: "proc_get_proc_struct_locked s pid = None
              \<or> (\<exists>pa p. proc_get_proc_struct_locked s pid = Some pa \<and> procs s pa = Some p
                    \<and> p_state p = PROC_STATE_DEATH)"
  shows "\<exists>s'. u_create_thread K X s name pid e ar k = Some (Inr (ERR_TASK_PROC_DELETED K, s'))
           \<and> thread_hash s' = thread_hash s
           \<and> threads s' = (threads s)(a := None)
           \<and> procs s' = procs s \<and> proc_hash s' = proc_hash s
           \<and> sems s' (sem_create X) = None"
proof -
  from create_thread_struct_Some [OF cr] obtain t where
    t: "threads s0 = (threads s)(a \<mapsto> t)" and pr: "procs s0 = procs s"
    and ph: "proc_hash s0 = proc_hash s" and th: "thread_hash s0 = thread_hash s"
    and rc: "return_code_sem t = sem_create X" and nn: "0 \<le> sem_create X"
    and sm: "sems s0 (sem_create X) = Some 0"
    by blast
  define t1 where "t1 = t\<lparr>priority := THREAD_MEDIUM_PRIORITY K,
                     t_state := THREAD_STATE_BIRTH,
                     next_state := THREAD_STATE_SUSPENDED\<rparr>"
  define s2 where "s2 = (put_thread a t1 s0)\<lparr>thread_hash := a # thread_hash (put_thread a t1 s0)\<rparr>"
  have g0: "get_thread s0 (Some a) = Inr t" using t by (simp add: get_thread_def)
  have lk: "proc_get_proc_struct_locked s2 pid = proc_get_proc_struct_locked s pid"
    by (rule proc_lookup_same_ids) (simp_all add: s2_def pr ph)
  have pr2: "procs s2 = procs s" by (simp add: s2_def pr)
  have ab: "(case proc_get_proc_struct_locked s2 pid of
                 None \<Rightarrow> Inr (True, s2)
               | Some pa \<Rightarrow>
                   seq (get_proc s2 (Some pa)) (\<lambda>p.
                     if p_state p \<noteq> PROC_STATE_DEATH
                     then seq (insert_thread_into_proc pa a s2) (\<lambda>s3. Inr (False, s3))
                     else Inr (True, s2))) = Inr (True, s2)"
    using tgt by (auto simp: lk get_proc_def pr2)
  define s4 where "s4 = s2\<lparr>thread_hash := remove1 a (thread_hash s2)\<rparr>"
  have g4: "get_thread s4 (Some a) = Inr t1" by (simp add: s4_def s2_def get_thread_def)
  define s5 where "s5 = kfree_thread a (sem_delete_etc s4 (sem_create X) (- 1))"
  have del: "delete_thread_struct a s4 = Inr s5"
    using g4 nn rc by (simp add: delete_thread_struct_def s5_def t1_def)
  have res: "u_create_thread K X s name pid e ar k = Some (Inr (ERR_TASK_PROC_DELETED K, s5))"
    unfolding u_create_thread_def cr prod.case option.case g0 sum.case Let_def
      t1_def [symmetric] s2_def [symmetric] ab s4_def [symmetric] del
    by simp
  have "sems s4 (sem_create X) = Some 0" by (simp add: s4_def s2_def sm)
  then have "sems s5 (sem_create X) = None"
    by (simp add: s5_def sem_delete_etc_def)
  moreover have "thread_hash s5 = thread_hash s" by (simp add: s5_def s4_def s2_def th)
  moreover have "threads s5 = (threads s)(a := None)" by (simp add: s5_def s4_def s2_def t)
  moreover have "procs s5 = procs s" "proc_hash s5 = proc_hash s"
    by (simp_all add: s5_def s4_def s2_def pr ph)
  ultimately show ?thesis using res by blast
qed

lemma create_thread_struct_S0:
  "fst (create_thread_struct X0 S0 ''worker'' K0) = Some 100"
  by (simp add: create_thread_struct_def thread_dequeue_def S0_sel X0_def Let_def)

text \<open>
  Claim C2, amended.  For every call to \<open>_create_thread\<close> in which
  \<open>create_thread_struct\<close> returns a record, and whose target process id is absent
  from the process index or names a process whose state is \<open>DEATH\<close>: the call
  returns \<open>ERR_TASK_PROC_DELETED\<close>, the thread index is again what it was before
  the call, the record is freed and its return-code semaphore deleted, and no
  process is changed.
\<close>

theorem create_thread_in_dead_proc_aborts:
  assumes cr: "create_thread_struct X s name K = (Some a, s0)"
    and tgt: "proc_get_proc_struct_locked s pid = None
              \<or> (\<exists>pa p. proc_get_proc_struct_locked s pid = Some pa \<and> procs s pa = Some p
                    \<and> p_state p = PROC_STATE_DEATH)"
  shows "\<exists>s'. u_create_thread K X s name pid e ar k = Some (Inr (ERR_TASK_PROC_DELETED K, s'))
           \<and> thread_hash s' = thread_hash s
           \<and> threads s' = (threads s)(a := None)
           \<and> procs s' = procs s \<and> proc_hash s' = proc_hash s
           \<and> sems s' (sem_create X) = None"
  using assms by (rule u_create_thread_abort)

theorem create_thread_in_dead_proc_aborts_witness:
  "map_option (map_sum id fst) (u_create_thread K0 X0 S0 ''worker'' 9 0 0 True)
     = Some (Inr (ERR_TASK_PROC_DELETED K0))
   \<and> thread_hash (snd (projr (the (u_create_thread K0 X0 S0 ''worker'' 9 0 0 True))))
     = thread_hash S0
   \<and> threads (snd (projr (the (u_create_thread K0 X0 S0 ''worker'' 9 0 0 True)))) 100 = None"
proof -
  obtain s0 where cr: "create_thread_struct X0 S0 ''worker'' K0 = (Some 100, s0)"
    using create_thread_struct_S0 by (cases "create_thread_struct X0 S0 ''worker'' K0") simp
  from create_thread_in_dead_proc_aborts [OF cr disjI1 [OF S0_lookup(3)], of 0 0 True]
  obtain s' where
    "u_create_thread K0 X0 S0 ''worker'' 9 0 0 True = Some (Inr (ERR_TASK_PROC_DELETED K0, s'))"
    "thread_hash s' = thread_hash S0" "threads s' = (threads S0)(100 := None)"
    by blast
  then show ?thesis by simp
qed

text \<open>
  The claim as it is written, for every call, fails where the record cannot be
  allocated: with an empty dead queue and a failing \<open>kmalloc\<close> the call for the
  absent process id 9 returns \<open>ERR_NO_MEMORY\<close>.
\<close>

theorem create_thread_no_memory_counterexample:
  "proc_get_proc_struct_locked S0 9 = None
   \<and> map_option (map_sum id fst)
        (u_create_thread K0 (X0\<lparr>kmalloc := None\<rparr>) S0 ''worker'' 9 0 0 True)
     = Some (Inr (ERR_NO_MEMORY K0))
   \<and> ERR_NO_MEMORY K0 \<noteq> ERR_TASK_PROC_DELETED K0"
  by (simp add: S0_lookup u_create_thread_def create_thread_struct_def thread_dequeue_def
      S0_sel X0_def Let_def K0_def)

subsection \<open>Orphaned process groups\<close>

lemma parent_pgid_Some:
  "procs s a = Some p \<Longrightarrow>
     (parent_pgid s a = Some c) = (\<exists>par. get_proc s (parent p) = Inr par \<and> pgid par = c)"
  by (auto simp: parent_pgid_def get_proc_def split: option.splits)

lemma pgrp_members_connected_Inr:
  "pgrp_members_connected s g cf ign ms = Inr b \<Longrightarrow>
     b = list_ex (\<lambda>a. Some a \<noteq> ign \<and> parent_pgid s a = Some cf) ms"
proof (induction ms)
  case Nil
  then show ?case by simp
next
  case (Cons a ms)
  from Cons.prems obtain p par where p: "procs s a = Some p" and g: "pgid p = g"
    and par: "get_proc s (parent p) = Inr par"
    and r: "(if Some a \<noteq> ign \<and> pgid par = cf then Inr True
             else pgrp_members_connected s g cf ign ms) = Inr b"
    by (auto simp: seq_eq_Inr split: if_splits)
  show ?case
  proof (cases "Some a \<noteq> ign \<and> pgid par = cf")
    case True
    with r p par show ?thesis by (auto simp: parent_pgid_Some)
  next
    case False
    with r have "pgrp_members_connected s g cf ign ms = Inr b" by simp
    from Cons.IH [OF this] False p par show ?thesis by (auto simp: parent_pgid_Some)
  qed
qed

lemma pgrp_members_connected_total:
  "list_all (\<lambda>a. \<exists>p. procs s a = Some p \<and> pgid p = g \<and> parent_pgid s a \<noteq> None) ms \<Longrightarrow>
     \<exists>b. pgrp_members_connected s g cf ign ms = Inr b"
proof (induction ms)
  case Nil
  then show ?case by auto
next
  case (Cons a ms)
  then have "\<exists>p. procs s a = Some p \<and> pgid p = g \<and> parent_pgid s a \<noteq> None" by simp
  then obtain p where p0: "procs s a = Some p" "pgid p = g" and nn: "parent_pgid s a \<noteq> None"
    by blast
  from nn obtain c where c: "parent_pgid s a = Some c" by (cases "parent_pgid s a") auto
  note p = p0 c
  then obtain par where "get_proc s (parent p) = Inr par" by (auto simp: parent_pgid_Some)
  with p Cons show ?case by auto
qed

lemma send_signal_etc_eq:
  "send_signal_etc X s i sg f = (send_signal_status X s i sg, s\<lparr>sig_log := sig_log s @ [(To_thread i, sg, f)]\<rparr>)"
  by (simp add: send_signal_etc_def)

lemma main_thread_id_sig_log [simp]: "main_thread_id (s\<lparr>sig_log := l\<rparr>) = main_thread_id s"
  by (rule ext) (simp add: main_thread_id_def split: option.splits)

lemma main_thread_id_Some:
  "main_thread_id s a = Some i \<longleftrightarrow>
     (\<exists>p t. procs s a = Some p \<and> get_thread s (main_thread p) = Inr t \<and> t_id t = i)"
  by (auto simp: main_thread_id_def get_thread_def split: option.splits)

lemma signal_members_eq:
  "map (main_thread_id s) ms = map Some tids \<Longrightarrow>
     signal_members X sg ms s =
       Inr (s\<lparr>sig_log := sig_log s @ map (\<lambda>i. (To_thread i, sg, True)) tids\<rparr>)"
proof (induction ms arbitrary: s tids)
  case Nil
  then show ?case by simp
next
  case (Cons a ms)
  then obtain i rest where tids: "tids = i # rest" and i: "main_thread_id s a = Some i"
    and rest: "map (main_thread_id s) ms = map Some rest"
    by (cases tids) auto
  from i obtain p t where p: "procs s a = Some p" and t: "get_thread s (main_thread p) = Inr t"
    and ti: "t_id t = i"
    by (auto simp: main_thread_id_Some)
  let ?s1 = "s\<lparr>sig_log := sig_log s @ [(To_thread i, sg, True)]\<rparr>"
  have "map (main_thread_id ?s1) ms = map Some rest" using rest by simp
  from Cons.IH [OF this] p t ti show ?case
    by (simp add: send_signal_etc_eq tids)
qed

lemma signal_members_Inr:
  "signal_members X sg ms s = Inr s' \<Longrightarrow>
     \<exists>tids. map (main_thread_id s) ms = map Some tids"
proof (induction ms arbitrary: s)
  case Nil
  then show ?case by simp
next
  case (Cons a ms)
  from Cons.prems obtain p t where p: "procs s a = Some p"
    and t: "get_thread s (main_thread p) = Inr t"
    and r: "signal_members X sg ms (s\<lparr>sig_log := sig_log s @ [(To_thread (t_id t), sg, True)]\<rparr>) = Inr s'"
    by (auto simp: seq_eq_Inr send_signal_etc_eq)
  from Cons.IH [OF r] obtain tids where "map (main_thread_id s) ms = map Some tids" by auto
  moreover have "main_thread_id s a = Some (t_id t)" using p t by (auto simp: main_thread_id_Some)
  ultimately have "map (main_thread_id s) (a # ms) = map Some (t_id t # tids)" by simp
  then show ?case by blast
qed


lemma pgrp_members_sig_log [simp]: "pgrp_members (s\<lparr>sig_log := l\<rparr>) = pgrp_members s"
  by (rule ext) (simp add: pgrp_members_def)

lemma send_pgrp_signal_eq:
  assumes "map (main_thread_id s) (pgrp_members s g) = map Some tids"
  shows "\<exists>r. send_pgrp_signal_etc_locked K X s g sg f =
           Inr (r, s\<lparr>sig_log := sig_log s @ map (\<lambda>i. (To_thread i, sg, True)) tids\<rparr>)"
proof (cases "hash_lookup_node (pgid_hash s) g")
  case None
  with assms have "tids = []" by (simp add: pgrp_members_def)
  with None show ?thesis by (simp add: send_pgrp_signal_etc_locked_def)
next
  case (Some node)
  with assms have "map (main_thread_id s) (node_list node) = map Some tids"
    by (simp add: pgrp_members_def)
  from signal_members_eq [OF this] Some show ?thesis
    by (simp add: send_pgrp_signal_etc_locked_def)
qed

lemma send_pgrp_signal_Inr:
  assumes "send_pgrp_signal_etc_locked K X s g sg f = Inr (r, s')"
  shows "\<exists>tids. s' = s\<lparr>sig_log := sig_log s @ map (\<lambda>i. (To_thread i, sg, True)) tids\<rparr>"
proof (cases "hash_lookup_node (pgid_hash s) g")
  case None
  with assms have "s' = s" by (simp add: send_pgrp_signal_etc_locked_def)
  then have "s' = s\<lparr>sig_log := sig_log s @ map (\<lambda>i. (To_thread i, sg, True)) []\<rparr>" by simp
  then show ?thesis by blast
next
  case (Some node)
  with assms have sm: "signal_members X sg (node_list node) s = Inr s'"
    by (auto simp: send_pgrp_signal_etc_locked_def seq_eq_Inr)
  from signal_members_Inr [OF sm] obtain tids where
    "map (main_thread_id s) (node_list node) = map Some tids" ..
  from signal_members_eq [OF this, of X sg] sm show ?thesis by auto
qed

lemma thread_exit_orphan_pgrp_eq:
  assumes p: "procs s pa = Some p" and par: "get_proc s (parent p) = Inr pr"
    and sd: "sid p = sid pr" and pg: "pgid p \<noteq> pgid pr"
    and nc: "check_for_pgrp_connection s (pgid p) (pgid pr) (Some pa) = Inr False"
    and ms: "map (main_thread_id s) (pgrp_members s (pgid p)) = map Some tids"
  shows "thread_exit_orphan_pgrp K X pa s =
           Inr (s\<lparr>sig_log := sig_log s @ map (\<lambda>i. (To_thread i, SIGHUP, True)) tids
                                       @ map (\<lambda>i. (To_thread i, SIGCONT, True)) tids\<rparr>)"
proof -
  let ?s1 = "s\<lparr>sig_log := sig_log s @ map (\<lambda>i. (To_thread i, SIGHUP, True)) tids\<rparr>"
  from send_pgrp_signal_eq [OF ms] obtain r1 where
    h: "send_pgrp_signal_etc_locked K X s (pgid p) SIGHUP True = Inr (r1, ?s1)" by blast
  have "map (main_thread_id ?s1) (pgrp_members ?s1 (pgid p)) = map Some tids"
    using ms by simp
  from send_pgrp_signal_eq [OF this] obtain r2 where
    c: "send_pgrp_signal_etc_locked K X ?s1 (pgid p) SIGCONT True =
          Inr (r2, ?s1\<lparr>sig_log := sig_log ?s1 @ map (\<lambda>i. (To_thread i, SIGCONT, True)) tids\<rparr>)"
    by blast
  show ?thesis
    using p par sd pg nc h c by (simp add: thread_exit_orphan_pgrp_def)
qed

lemma insert_proc_into_parent_sig_log:
  "insert_proc_into_parent pp a s = Inr s' \<Longrightarrow> sig_log s' = sig_log s"
  by (auto simp: insert_proc_into_parent_def seq_eq_Inr Let_def split: option.splits)

lemma remove_proc_from_parent_sig_log:
  "remove_proc_from_parent pp a s = Inr s' \<Longrightarrow> sig_log s' = sig_log s"
  by (auto simp: remove_proc_from_parent_def seq_eq_Inr Let_def split: option.splits if_splits)

lemma remove_proc_from_pgroup_sig_log:
  "remove_proc_from_pgroup K a g s = Inr (r, s') \<Longrightarrow> sig_log s' = sig_log s"
  by (auto simp: remove_proc_from_pgroup_def seq_eq_Inr split: option.splits if_splits)

lemma remove_proc_from_session_sig_log:
  "remove_proc_from_session K a g s = Inr (r, s') \<Longrightarrow> sig_log s' = sig_log s"
  by (auto simp: remove_proc_from_session_def seq_eq_Inr split: option.splits if_splits)

lemma send_pgrp_signal_prefix:
  "send_pgrp_signal_etc_locked K X s g sg f = Inr (r, s') \<Longrightarrow> prefix (sig_log s) (sig_log s')"
  by (auto dest!: send_pgrp_signal_Inr)

lemma seqE2:
  "seq m (\<lambda>(a, b). f a b) = Inr y \<Longrightarrow> (\<And>a b. m = Inr (a, b) \<Longrightarrow> f a b = Inr y \<Longrightarrow> P) \<Longrightarrow> P"
  by (cases m) auto

lemma orphan_signals_prefix:
  assumes "(if c1
          then seq (check_for_pgrp_connection s2 g cf ign) (\<lambda>connection.
                 if \<not> connection
                 then seq (send_pgrp_signal_etc_locked K X s2 g SIGHUP True) (\<lambda>(r1, s3).
                      seq (send_pgrp_signal_etc_locked K X s3 g SIGCONT True) (\<lambda>(r2, s4).
                        Inr s4))
                 else Inr s2)
          else Inr s2) = Inr s5"
  shows "prefix (sig_log s2) (sig_log s5)"
proof (cases c1)
  case False
  with assms show ?thesis by simp
next
  case True
  with assms obtain connection where
    r: "(if \<not> connection
         then seq (send_pgrp_signal_etc_locked K X s2 g SIGHUP True) (\<lambda>(r1, s3).
              seq (send_pgrp_signal_etc_locked K X s3 g SIGCONT True) (\<lambda>(r2, s4).
                Inr s4))
         else Inr s2) = Inr s5"
    by (auto elim: seqE)
  show ?thesis
  proof (cases connection)
    case True
    with r show ?thesis by simp
  next
    case False
    with r have "seq (send_pgrp_signal_etc_locked K X s2 g SIGHUP True) (\<lambda>(r1, s3).
              seq (send_pgrp_signal_etc_locked K X s3 g SIGCONT True) (\<lambda>(r2, s4).
                Inr s4)) = Inr s5" by simp
    then show ?thesis
    proof (elim seqE2)
      fix r1 s3 r2 s4
      assume "send_pgrp_signal_etc_locked K X s2 g SIGHUP True = Inr (r1, s3)"
        "send_pgrp_signal_etc_locked K X s3 g SIGCONT True = Inr (r2, s4)" "Inr s4 = Inr s5"
      then show ?thesis
        by (auto dest!: send_pgrp_signal_prefix intro: prefix_order.trans)
    qed
  qed
qed

lemma reparent_each_prefix:
  "reparent_each K X pa cs s = Inr s' \<Longrightarrow> prefix (sig_log s) (sig_log s')"
proof (induction cs arbitrary: s)
  case Nil
  then show ?case by simp
next
  case (Cons child rest)
  from Cons.prems show ?case
    unfolding reparent_each.simps
  proof (elim seqE)
    fix s1 p s2 p2 c s5
    assume a: "remove_proc_from_parent (Some pa) child s = Inr s1"
      and b: "insert_proc_into_parent (parent p) child s1 = Inr s2"
      and d: "(if sid p2 = sid c \<and> pgid p2 \<noteq> pgid c
          then seq (check_for_pgrp_connection s2 (pgid c) (pgid p2) None) (\<lambda>connection.
                 if \<not> connection
                 then seq (send_pgrp_signal_etc_locked K X s2 (pgid c) SIGHUP True) (\<lambda>(r1, s3).
                      seq (send_pgrp_signal_etc_locked K X s3 (pgid c) SIGCONT True) (\<lambda>(r2, s4).
                        Inr s4))
                 else Inr s2)
          else Inr s2) = Inr s5"
      and e: "reparent_each K X pa rest s5 = Inr s'"
    have "prefix (sig_log s2) (sig_log s5)" using d by (rule orphan_signals_prefix)
    moreover have "sig_log s2 = sig_log s"
      using a b by (simp add: insert_proc_into_parent_sig_log remove_proc_from_parent_sig_log)
    moreover note Cons.IH [OF e]
    ultimately show ?thesis by (auto intro: prefix_order.trans)
  qed
qed

lemma thread_exit_delete_proc_prefix:
  assumes "thread_exit_delete_proc K X pa s = Inr (ppid, s5)"
  shows "\<exists>s4. thread_exit_orphan_pgrp K X pa s = Inr s4 \<and> prefix (sig_log s4) (sig_log s5)"
  using assms unfolding thread_exit_delete_proc_def Let_def
proof (elim seqE2 seqE)
  fix s1 s3 p3 r1 s4 p4 r2 s5' p5 par s6
  assume o: "thread_exit_orphan_pgrp K X pa s = Inr s1"
    and rp: "proc_reparent_children K X pa (s1\<lparr>proc_hash := remove1 pa (proc_hash s1)\<rparr>) = Inr s3"
    and g: "remove_proc_from_pgroup K pa (pgid p3) s3 = Inr (r1, s4)"
    and ss: "remove_proc_from_session K pa (sid p4) s4 = Inr (r2, s5')"
    and pp: "remove_proc_from_parent (parent p5) pa s5' = Inr s6"
    and fin: "Inr (p_id par, s6\<lparr>procs := (procs s6)(pa := None)\<rparr>) = Inr (ppid, s5)"
  from rp have "prefix (sig_log s1) (sig_log s3)"
    by (auto simp: proc_reparent_children_def seq_eq_Inr dest!: reparent_each_prefix)
  moreover have "sig_log s5 = sig_log s3"
    using g ss pp fin
    by (auto simp: remove_proc_from_pgroup_sig_log remove_proc_from_session_sig_log
        remove_proc_from_parent_sig_log)
  ultimately show ?thesis using o by auto
qed


lemma thread_enqueue_run_q_procs:
  "thread_enqueue_run_q K a s = Inr s' \<Longrightarrow> procs s' = procs s \<and> kernel_proc s' = kernel_proc s"
  by (auto simp: thread_enqueue_run_q_def seq_eq_Inr Let_def)

lemma thread_set_priority_procs:
  "thread_set_priority K s i pri = Inr (r, s') \<Longrightarrow>
     procs s' = procs s \<and> kernel_proc s' = kernel_proc s"
  by (auto simp: thread_set_priority_def seq_eq_Inr Let_def thread_dequeue_thread_def
      split: option.splits if_splits dest!: thread_enqueue_run_q_procs)

lemma thread_exit_leave_proc_flag:
  assumes "thread_exit_leave_proc K s a pa = Inr (d, s1)" "procs s pa = Some p"
  shows "d = (Some pa \<noteq> kernel_proc s \<and> main_thread p = Some a)"
  using assms(1) unfolding thread_exit_leave_proc_def Let_def
proof (elim seqE2 seqE)
  fix t0 r s1' t p'
  assume sp: "thread_set_priority K s (t_id t0) (THREAD_HIGH_PRIORITY K) = Inr (r, s1')"
    and p': "get_proc s1' (Some pa) = Inr p'"
    and rest: "(if Some pa \<noteq> kernel_proc
                 (if 0 \<le> aspace_id p' \<and> 0 \<le> user_stack_region_id t
                  then put_thread a (t\<lparr>user_stack_region_id := - 1\<rparr>) s1' else s1')
        then seq (remove_thread_from_proc pa a
                 (if 0 \<le> aspace_id p' \<and> 0 \<le> user_stack_region_id t
                  then put_thread a (t\<lparr>user_stack_region_id := - 1\<rparr>) s1' else s1'))
              (\<lambda>s3. seq (case kernel_proc s3 of None \<Rightarrow> Inl Null_deref
                          | Some ka \<Rightarrow> insert_thread_into_proc ka a s3)
                     (\<lambda>s4. seq (get_proc s4 (Some pa))
                            (\<lambda>p4. if main_thread p4 = Some a
                                  then Inr (True, put_proc pa (p4\<lparr>p_state := PROC_STATE_DEATH\<rparr>) s4)
                                  else Inr (False, s4))))
        else Inr (False,
                 (if 0 \<le> aspace_id p' \<and> 0 \<le> user_stack_region_id t
                  then put_thread a (t\<lparr>user_stack_region_id := - 1\<rparr>) s1' else s1'))) = Inr (d, s1)"
  let ?s2 = "if 0 \<le> aspace_id p' \<and> 0 \<le> user_stack_region_id t
                  then put_thread a (t\<lparr>user_stack_region_id := - 1\<rparr>) s1' else s1'"
  from thread_set_priority_procs [OF sp] have pr: "procs s1' = procs s"
    and kp: "kernel_proc s1' = kernel_proc s" by simp_all
  have pr2: "procs ?s2 = procs s" and kp2: "kernel_proc ?s2 = kernel_proc s"
    using pr kp by simp_all
  show ?thesis
  proof (cases "Some pa = kernel_proc s")
    case True
    with rest kp2 show ?thesis by simp
  next
    case False
    with rest kp2 have "seq (remove_thread_from_proc pa a ?s2)
              (\<lambda>s3. seq (case kernel_proc s3 of None \<Rightarrow> Inl Null_deref
                          | Some ka \<Rightarrow> insert_thread_into_proc ka a s3)
                     (\<lambda>s4. seq (get_proc s4 (Some pa))
                            (\<lambda>p4. if main_thread p4 = Some a
                                  then Inr (True, put_proc pa (p4\<lparr>p_state := PROC_STATE_DEATH\<rparr>) s4)
                                  else Inr (False, s4)))) = Inr (d, s1)"
      by simp
    then show ?thesis
    proof (elim seqE)
      fix s3 s4 p4
      assume rm: "remove_thread_from_proc pa a ?s2 = Inr s3"
        and ins: "(case kernel_proc s3 of None \<Rightarrow> Inl Null_deref
                          | Some ka \<Rightarrow> insert_thread_into_proc ka a s3) = Inr s4"
        and p4: "get_proc s4 (Some pa) = Inr p4"
        and fl: "(if main_thread p4 = Some a
                                  then Inr (True, put_proc pa (p4\<lparr>p_state := PROC_STATE_DEATH\<rparr>) s4)
                                  else Inr (False, s4)) = Inr (d, s1)"
      from rm pr2 assms(2) have p3: "\<exists>q. procs s3 pa = Some q \<and> main_thread q = main_thread p"
        and k3: "kernel_proc s3 = kernel_proc s"
        using kp2 by (auto simp: remove_thread_from_proc_def seq_eq_Inr split: if_splits)
      from ins k3 False obtain ka where ka: "kernel_proc s = Some ka" "ka \<noteq> pa"
        and i2: "insert_thread_into_proc ka a s3 = Inr s4"
        by (auto split: option.splits)
      from i2 ka p3 have "\<exists>q. procs s4 pa = Some q \<and> main_thread q = main_thread p"
        by (auto simp: insert_thread_into_proc_def seq_eq_Inr Let_def)
      with p4 have "main_thread p4 = main_thread p" by auto
      with fl False show ?thesis by (auto split: if_splits)
    qed
  qed
qed

lemma map_sum_eq_Inr: "map_sum f g z = Inr y \<longleftrightarrow> (\<exists>x. z = Inr x \<and> y = g x)"
  by (cases z) auto

lemma thread_exit_until_lock_Inr:
  assumes "thread_exit_until_lock K X s = Some (Inr (a, pa, d, s3))"
  shows "\<exists>t p. current_thread s = Some a \<and> threads s a = Some t \<and> t_proc t = Some pa
           \<and> procs s pa = Some p
           \<and> d = (Some pa \<noteq> kernel_proc s \<and> main_thread p = Some a)"
proof -
  from assms obtain a' where a': "current_thread s = Some a'"
    by (auto simp: thread_exit_until_lock_def split: option.splits)
  with assms obtain t where t: "threads s a' = Some t"
    by (auto simp: thread_exit_until_lock_def get_thread_def split: option.splits)
  with a' assms obtain pa' where pa': "t_proc t = Some pa'"
    by (auto simp: thread_exit_until_lock_def split: option.splits)
  with a' t assms obtain d' s1 where
    lp: "thread_exit_leave_proc K s a' pa' = Inr (d', s1)"
    and rest: "(if d'
        then
          (case get_proc s1 (Some pa') of
             Inl e \<Rightarrow> Some (Inl e)
           | Inr p \<Rightarrow>
               if num_threads p > 0
               then (case kill_threads X (thread_list p) s1 of
                       Inl e \<Rightarrow> Some (Inl e)
                     | Inr s2 \<Rightarrow>
                         map_option (map_sum id (\<lambda>s3. (a', pa', True, s3)))
                           (wait_for_threads X pa' s2))
               else Some (Inr (a', pa', True, s1)))
        else Some (Inr (a', pa', False, s1))) = Some (Inr (a, pa, d, s3))"
    by (auto simp: thread_exit_until_lock_def split: if_splits sum.splits)
  from rest have eq: "a = a'" "pa = pa'" "d = d'"
    by (auto split: if_splits sum.splits simp: map_sum_eq_Inr)
  from lp obtain p where p: "procs s pa' = Some p"
    unfolding thread_exit_leave_proc_def Let_def
  proof (elim seqE2 seqE)
    fix t0 r s1' tt p'
    assume sp: "thread_set_priority K s (t_id t0) (THREAD_HIGH_PRIORITY K) = Inr (r, s1')"
      and p': "get_proc s1' (Some pa') = Inr p'"
      and th: "\<And>p. procs s pa' = Some p \<Longrightarrow> thesis"
    from thread_set_priority_procs [OF sp] p' have "procs s pa' = Some p'" by simp
    then show thesis by (rule th)
  qed
  from thread_exit_leave_proc_flag [OF lp p] a' t pa' p eq show ?thesis by auto
qed

lemma thread_exit_after_lock:
  assumes "thread_exit_until_lock K X s = Some (Inr (a, pa, True, s3))"
  shows "thread_exit K X s rc =
           Some (seq (thread_exit_delete_proc K X pa s3) (\<lambda>(ppid, s4).
                   thread_exit_retcode s4 a ppid rc))"
  using assms by (simp add: thread_exit_def)


lemma check_for_pgrp_connection_members:
  "check_for_pgrp_connection s g cf ign = pgrp_members_connected s g cf ign (pgrp_members s g)"
  by (simp add: check_for_pgrp_connection_def pgrp_members_def split: option.splits)

text \<open>
  What the orphan test does in general.  When \<open>check_for_pgrp_connection\<close>
  returns, its result is true exactly if some member of the group \<open>pgid\<close> other than \<open>ignore_proc\<close> has a parent whose
  \<open>pgid\<close> is \<open>check_for\<close>; it returns whenever every member has a record in that
  group and a parent.  \<open>thread_exit\<close> sets \<open>delete_proc\<close> exactly for the main
  thread of a process other than the kernel process, and then goes on with the
  deletion of the process, which starts with the orphan test, whose signals are
  the first it adds to those sent so far.  In that test, for a process whose
  \<open>sid\<close> is its parent's and whose \<open>pgid\<close> is not, if
  \<open>check_for_pgrp_connection\<close> with the parent's \<open>pgid\<close> and the process itself
  as \<open>ignore_proc\<close> returns false, \<open>SIGHUP\<close> is sent to the main thread of every
  member of the group of the process, and after that \<open>SIGCONT\<close> to each.
\<close>

lemma orphan_test_and_signals:
  "(check_for_pgrp_connection s g cf ign = Inr b \<longrightarrow> b = pgrp_connected s g cf ign)
 \<and> (list_all (\<lambda>a. \<exists>p. procs s a = Some p \<and> pgid p = g \<and> parent_pgid s a \<noteq> None)
        (pgrp_members s g) \<longrightarrow>
      (\<exists>b. check_for_pgrp_connection s g cf ign = Inr b))
 \<and> (thread_exit_until_lock K X s0 = Some (Inr (a, pa0, d, s3)) \<longrightarrow>
      (\<exists>t p. current_thread s0 = Some a \<and> threads s0 a = Some t \<and> t_proc t = Some pa0
          \<and> procs s0 pa0 = Some p
          \<and> d = (Some pa0 \<noteq> kernel_proc s0 \<and> main_thread p = Some a))
      \<and> (d \<longrightarrow> thread_exit K X s0 rc =
             Some (seq (thread_exit_delete_proc K X pa0 s3) (\<lambda>(ppid, s4).
                     thread_exit_retcode s4 a ppid rc))))
 \<and> (thread_exit_delete_proc K X pa s = Inr (ppid, s5) \<longrightarrow>
      (\<exists>s4. thread_exit_orphan_pgrp K X pa s = Inr s4 \<and> prefix (sig_log s4) (sig_log s5)))
 \<and> (procs s pa = Some p \<and> get_proc s (parent p) = Inr pr
      \<and> sid p = sid pr \<and> pgid p \<noteq> pgid pr
      \<and> check_for_pgrp_connection s (pgid p) (pgid pr) (Some pa) = Inr False
      \<and> map (main_thread_id s) (pgrp_members s (pgid p)) = map Some tids \<longrightarrow>
      thread_exit_orphan_pgrp K X pa s =
        Inr (s\<lparr>sig_log := sig_log s @ map (\<lambda>i. (To_thread i, SIGHUP, True)) tids
                                    @ map (\<lambda>i. (To_thread i, SIGCONT, True)) tids\<rparr>))"
proof (intro conjI impI)
  assume "check_for_pgrp_connection s g cf ign = Inr b"
  then show "b = pgrp_connected s g cf ign"
    unfolding check_for_pgrp_connection_members pgrp_connected_def
    by (rule pgrp_members_connected_Inr)
next
  assume "list_all (\<lambda>a. \<exists>p. procs s a = Some p \<and> pgid p = g \<and> parent_pgid s a \<noteq> None)
        (pgrp_members s g)"
  then show "\<exists>b. check_for_pgrp_connection s g cf ign = Inr b"
    unfolding check_for_pgrp_connection_members by (rule pgrp_members_connected_total)
next
  assume "thread_exit_until_lock K X s0 = Some (Inr (a, pa0, d, s3))"
  then show "\<exists>t p. current_thread s0 = Some a \<and> threads s0 a = Some t \<and> t_proc t = Some pa0
          \<and> procs s0 pa0 = Some p
          \<and> d = (Some pa0 \<noteq> kernel_proc s0 \<and> main_thread p = Some a)"
    by (rule thread_exit_until_lock_Inr)
next
  assume "thread_exit_until_lock K X s0 = Some (Inr (a, pa0, d, s3))" d
  then show "thread_exit K X s0 rc =
             Some (seq (thread_exit_delete_proc K X pa0 s3) (\<lambda>(ppid, s4).
                     thread_exit_retcode s4 a ppid rc))"
    by (simp add: thread_exit_after_lock)
next
  assume "thread_exit_delete_proc K X pa s = Inr (ppid, s5)"
  then show "\<exists>s4. thread_exit_orphan_pgrp K X pa s = Inr s4 \<and> prefix (sig_log s4) (sig_log s5)"
    by (rule thread_exit_delete_proc_prefix)
next
  assume "procs s pa = Some p \<and> get_proc s (parent p) = Inr pr
      \<and> sid p = sid pr \<and> pgid p \<noteq> pgid pr
      \<and> check_for_pgrp_connection s (pgid p) (pgid pr) (Some pa) = Inr False
      \<and> map (main_thread_id s) (pgrp_members s (pgid p)) = map Some tids"
  then show "thread_exit_orphan_pgrp K X pa s =
        Inr (s\<lparr>sig_log := sig_log s @ map (\<lambda>i. (To_thread i, SIGHUP, True)) tids
                                    @ map (\<lambda>i. (To_thread i, SIGCONT, True)) tids\<rparr>)"
    by (elim conjE) (rule thread_exit_orphan_pgrp_eq; assumption)
qed

text \<open>
  Claim C4.  In \<open>S1\<close> thread 6, the main thread of process 3, exits with code 7:
  process 3 shares the session of its parent, the shell, and not its group, no
  other member of group 3 has a parent in the group of the shell, and \<open>thread_exit\<close>
  returns, having sent \<open>SIGHUP\<close> to the main threads 7 and 6 of the group, then
  \<open>SIGCONT\<close> to both, then \<open>SIGCHLD\<close> to the parent.  In \<open>S5\<close> the group has one
  more member, process 5, which is being created and has no main thread yet; the
  orphan test answers the same, and \<open>send_pgrp_signal_etc_locked\<close> reads the id of
  the main thread of process 5 through the \<open>NULL\<close> pointer: no signal is sent.
\<close>

theorem orphan_signal_reads_null_main_thread:
  "check_for_pgrp_connection S1 3 2 (Some 2) = Inr False
   \<and> pgrp_members S1 3 = [3, 2]
   \<and> map_option (map_sum id sig_log) (thread_exit K0 X0 S1 7)
       = Some (Inr [(To_thread 7, SIGHUP, True), (To_thread 6, SIGHUP, True),
                    (To_thread 7, SIGCONT, True), (To_thread 6, SIGCONT, True),
                    (To_proc 2, SIGCHLD, True)])
   \<and> check_for_pgrp_connection S5 3 2 (Some 2) = Inr False
   \<and> pgrp_members S5 3 = [4, 3, 2]
   \<and> map_option p_state (procs S5 4) = Some PROC_STATE_BIRTH
   \<and> map_option main_thread (procs S5 4) = Some None
   \<and> map_sum id fst (send_pgrp_signal_etc_locked K0 X0 S5 3 SIGHUP True) = Inl Null_deref
   \<and> map_option (map_sum id sig_log) (thread_exit K0 X0 S5 7) = Some (Inl Null_deref)"
  by code_simp

subsection \<open>Waiting for a thread\<close>

lemma thread_lookup_same:
  assumes "thread_hash s' = thread_hash s" "threads s' = threads s"
  shows "thread_get_thread_struct_locked s' k = thread_get_thread_struct_locked s k"
  by (simp add: thread_get_thread_struct_locked_def thread_struct_compare_def assms)

lemma thread_exit_retcode_eq:
  assumes "threads s a = Some t"
  shows "thread_exit_retcode s a ppid code =
     Inr (sem_delete_etc
            (put_thread a (t\<lparr>return_code_sem := - 1\<rparr>) (send_proc_signal_etc s ppid SIGCHLD True))
            (return_code_sem t) code)"
  using assms by (simp add: thread_exit_retcode_def Let_def send_proc_signal_etc_def get_thread_def)

lemma thread_exit_retcode_deletes:
  assumes r: "thread_exit_retcode s a ppid code = Inr s'"
    and t: "threads s a = Some t" and live: "sems s (return_code_sem t) = Some c"
  shows "sem_deleted s' = (return_code_sem t, code) # sem_deleted s
       \<and> sems s' (return_code_sem t) = None
       \<and> map_option return_code_sem (threads s' a) = Some (- 1)"
  using r live unfolding thread_exit_retcode_eq [OF t]
  by (auto simp: sem_delete_etc_def send_proc_signal_etc_def)

lemma wait_unknown_thread:
  assumes K: "errors_h_ok K"
    and a: "thread_get_thread_struct_locked s tid = None"
  shows "\<exists>rc s'. thread_wait_on_thread K X s tid rv = Inr (rc, rv, s') \<and> rc < 0"
proof -
  define s1 where "s1 = s\<lparr>sig_log := sig_log s @ [(To_thread tid, SIGCONT, False)]\<rparr>"
  have sse: "send_signal_etc X s tid SIGCONT False = (send_signal_status X s tid SIGCONT, s1)"
    by (simp add: send_signal_etc_def s1_def)
  have th: "threads s1 = threads s" "thread_hash s1 = thread_hash s"
    by (simp_all add: s1_def)
  have lk: "thread_get_thread_struct_locked s1 tid = None"
    using thread_lookup_same [OF th(2) th(1)] a by simp
  from K have e: "ERR_INVALID_HANDLE K < 0" "ERR_INVALID_HANDLE K \<noteq> ERR_SEM_DELETED K"
    "NO_ERROR K = 0"
    by (auto simp: errors_h_ok_def)
  have acq: "sem_acquire_etc K X s1 (ERR_INVALID_HANDLE K) rv = (ERR_INVALID_HANDLE K, rv, s1)"
    using e by (simp add: sem_acquire_etc_def)
  have "thread_wait_on_thread K X s tid rv =
      (if send_signal_status X s tid SIGCONT < NO_ERROR K
       then Inr (send_signal_status X s tid SIGCONT, rv, s1)
       else Inr (ERR_INVALID_HANDLE K, rv, s1))"
    unfolding thread_wait_on_thread_def sse prod.case lk option.case seq_simps acq
    using e by simp
  then show ?thesis using e by auto
qed

lemma holds_sem_cong:
  "threads s' a = threads s a \<Longrightarrow> sems s' = sems s \<Longrightarrow> holds_sem s' a sem = holds_sem s a sem"
  by (simp add: holds_sem_def)

lemma holds_sem_put:
  "holds_sem s a sem \<Longrightarrow> threads s a = Some t \<Longrightarrow> return_code_sem t' = return_code_sem t
     \<Longrightarrow> holds_sem (put_thread a t' s) a sem"
  by (simp add: holds_sem_def)

lemma holds_sem_put_other:
  "b \<noteq> a \<Longrightarrow> holds_sem (put_thread b t' s) a sem = holds_sem s a sem"
  by (simp add: holds_sem_def)

lemma thread_set_priority_own:
  assumes "current_thread s = Some a" "threads s a = Some t"
    and "thread_set_priority K s (t_id t) pri = Inr (r, s1)"
  shows "\<exists>pri'. s1 = put_thread a (t\<lparr>priority := pri'\<rparr>) s"
  using assms by (auto simp: thread_set_priority_def Let_def)

lemma remove_thread_from_proc_frame:
  "remove_thread_from_proc pa a s = Inr s' \<Longrightarrow>
     threads s' = threads s \<and> sems s' = sems s \<and> current_thread s' = current_thread s"
  by (auto simp: remove_thread_from_proc_def seq_eq_Inr split: if_splits)

lemma insert_thread_into_proc_frame:
  assumes "insert_thread_into_proc pa b s = Inr s'"
  shows "holds_sem s' a sem = holds_sem s a sem \<and> current_thread s' = current_thread s"
  using assms
  by (auto simp: insert_thread_into_proc_def seq_eq_Inr Let_def holds_sem_def
      split: if_splits option.splits)

lemma thread_exit_leave_proc_frame:
  assumes lp: "thread_exit_leave_proc K s a pa = Inr (d, s1)"
    and cur: "current_thread s = Some a" and h: "holds_sem s a sem"
  shows "holds_sem s1 a sem"
  using lp unfolding thread_exit_leave_proc_def Let_def
proof (elim seqE2 seqE)
  fix t0 r s1' t p'
  assume t0: "get_thread s (Some a) = Inr t0"
    and sp: "thread_set_priority K s (t_id t0) (THREAD_HIGH_PRIORITY K) = Inr (r, s1')"
    and t: "get_thread s1' (Some a) = Inr t"
    and rest: "(if Some pa \<noteq> kernel_proc
                 (if 0 \<le> aspace_id p' \<and> 0 \<le> user_stack_region_id t
                  then put_thread a (t\<lparr>user_stack_region_id := - 1\<rparr>) s1' else s1')
        then seq (remove_thread_from_proc pa a
                 (if 0 \<le> aspace_id p' \<and> 0 \<le> user_stack_region_id t
                  then put_thread a (t\<lparr>user_stack_region_id := - 1\<rparr>) s1' else s1'))
              (\<lambda>s3. seq (case kernel_proc s3 of None \<Rightarrow> Inl Null_deref
                          | Some ka \<Rightarrow> insert_thread_into_proc ka a s3)
                     (\<lambda>s4. seq (get_proc s4 (Some pa))
                            (\<lambda>p4. if main_thread p4 = Some a
                                  then Inr (True, put_proc pa (p4\<lparr>p_state := PROC_STATE_DEATH\<rparr>) s4)
                                  else Inr (False, s4))))
        else Inr (False,
                 (if 0 \<le> aspace_id p' \<and> 0 \<le> user_stack_region_id t
                  then put_thread a (t\<lparr>user_stack_region_id := - 1\<rparr>) s1' else s1'))) = Inr (d, s1)"
  let ?s2 = "if 0 \<le> aspace_id p' \<and> 0 \<le> user_stack_region_id t
                  then put_thread a (t\<lparr>user_stack_region_id := - 1\<rparr>) s1' else s1'"
  from t0 have t0': "threads s a = Some t0" by simp
  from thread_set_priority_own [OF cur t0' sp] obtain pri' where
    s1': "s1' = put_thread a (t0\<lparr>priority := pri'\<rparr>) s" by blast
  have h1: "holds_sem s1' a sem" unfolding s1' using h t0' by (intro holds_sem_put) simp_all
  from t have t': "threads s1' a = Some t" by simp
  have h2: "holds_sem ?s2 a sem" using h1 t' by (auto intro: holds_sem_put)
  show ?thesis
  proof (cases "Some pa \<noteq> kernel_proc ?s2")
    case False
    with rest h2 show ?thesis by simp
  next
    case True
    with rest have "seq (remove_thread_from_proc pa a ?s2)
              (\<lambda>s3. seq (case kernel_proc s3 of None \<Rightarrow> Inl Null_deref
                          | Some ka \<Rightarrow> insert_thread_into_proc ka a s3)
                     (\<lambda>s4. seq (get_proc s4 (Some pa))
                            (\<lambda>p4. if main_thread p4 = Some a
                                  then Inr (True, put_proc pa (p4\<lparr>p_state := PROC_STATE_DEATH\<rparr>) s4)
                                  else Inr (False, s4)))) = Inr (d, s1)"
      by simp
    then show ?thesis
    proof (elim seqE)
      fix s3 s4 p4
      assume rm: "remove_thread_from_proc pa a ?s2 = Inr s3"
        and ins: "(case kernel_proc s3 of None \<Rightarrow> Inl Null_deref
                          | Some ka \<Rightarrow> insert_thread_into_proc ka a s3) = Inr s4"
        and fl: "(if main_thread p4 = Some a
                                  then Inr (True, put_proc pa (p4\<lparr>p_state := PROC_STATE_DEATH\<rparr>) s4)
                                  else Inr (False, s4)) = Inr (d, s1)"
      from remove_thread_from_proc_frame [OF rm] h2 have h3: "holds_sem s3 a sem"
        by (simp add: holds_sem_def)
      from ins obtain ka where "insert_thread_into_proc ka a s3 = Inr s4"
        by (auto split: option.splits)
      from insert_thread_into_proc_frame [OF this] h3 have h4: "holds_sem s4 a sem" by simp
      from fl h4 show ?thesis by (auto split: if_splits simp: holds_sem_def)
    qed
  qed
qed

lemma kill_threads_frame:
  "kill_threads X l s = Inr s' \<Longrightarrow> threads s' = threads s \<and> sems s' = sems s"
proof (induction l arbitrary: s)
  case Nil
  then show ?case by simp
next
  case (Cons a l)
  from Cons.prems obtain t :: thread where
    r: "kill_threads X l (s\<lparr>sig_log := sig_log s @ [(To_thread (t_id t), SIGKILLTHR, True)]\<rparr>) = Inr s'"
    by (auto simp: seq_eq_Inr thread_kill_thread_nowait_def send_signal_etc_eq)
  from Cons.IH [OF r] show ?case by simp
qed

lemma wait_for_threads_frame_aux:
  assumes "wait_for_threads X pa s = Some r"
  shows "(\<forall>u. holds_sem u a sem \<longrightarrow> holds_sem (others X u) a sem) \<longrightarrow> holds_sem s a sem \<longrightarrow>
       (case r of Inl e \<Rightarrow> True | Inr s' \<Rightarrow> holds_sem s' a sem)"
proof (rule wait_for_threads.raw_induct
    [where P = "\<lambda>X pa s r. (\<forall>u. holds_sem u a sem \<longrightarrow> holds_sem (others X u) a sem) \<longrightarrow>
       holds_sem s a sem \<longrightarrow> (case r of Inl e \<Rightarrow> True | Inr s' \<Rightarrow> holds_sem s' a sem)",
     rotated, OF assms], goal_cases)
  case (1 w X pa s r)
  show ?case
  proof (intro impI)
    assume fr: "\<forall>u. holds_sem u a sem \<longrightarrow> holds_sem (others X u) a sem"
      and h: "holds_sem s a sem"
    show "case r of Inl e \<Rightarrow> True | Inr s' \<Rightarrow> holds_sem s' a sem"
    proof (cases "get_proc s (Some pa)")
      case (Inl e)
      with 1(2) show ?thesis by auto
    next
      case (Inr p)
      show ?thesis
      proof (cases "num_threads p > 0")
        case True
        with Inr 1(2) have "w X pa (others X s) = Some r" by simp
        from 1(1) [OF this] fr h show ?thesis by simp
      next
        case False
        with Inr 1(2) h show ?thesis by auto
      qed
    qed
  qed
qed

lemma wait_for_threads_frame:
  assumes "wait_for_threads X pa s = Some (Inr s')"
    and "\<forall>u. holds_sem u a sem \<longrightarrow> holds_sem (others X u) a sem" and "holds_sem s a sem"
  shows "holds_sem s' a sem"
  using wait_for_threads_frame_aux [OF assms(1), of a sem] assms(2,3) by simp

lemma thread_exit_until_lock_frame:
  assumes u: "thread_exit_until_lock K X s = Some (Inr (a', pa, d, s3))"
    and cur: "current_thread s = Some a" and h: "holds_sem s a sem"
    and fr: "\<forall>u. holds_sem u a sem \<longrightarrow> holds_sem (others X u) a sem"
  shows "a' = a \<and> holds_sem s3 a sem"
proof -
  from u cur obtain t where t: "threads s a = Some t"
    by (auto simp: thread_exit_until_lock_def get_thread_def split: option.splits)
  with cur u obtain pa' where pa': "t_proc t = Some pa'"
    by (auto simp: thread_exit_until_lock_def split: option.splits)
  with cur t u obtain d' s1 where
    lp: "thread_exit_leave_proc K s a pa' = Inr (d', s1)"
    and rest: "(if d'
        then
          (case get_proc s1 (Some pa') of
             Inl e \<Rightarrow> Some (Inl e)
           | Inr p \<Rightarrow>
               if num_threads p > 0
               then (case kill_threads X (thread_list p) s1 of
                       Inl e \<Rightarrow> Some (Inl e)
                     | Inr s2 \<Rightarrow>
                         map_option (map_sum id (\<lambda>s3. (a, pa', True, s3)))
                           (wait_for_threads X pa' s2))
               else Some (Inr (a, pa', True, s1)))
        else Some (Inr (a, pa', False, s1))) = Some (Inr (a', pa, d, s3))"
    by (auto simp: thread_exit_until_lock_def split: if_splits sum.splits)
  from thread_exit_leave_proc_frame [OF lp cur h] have h1: "holds_sem s1 a sem" .
  show ?thesis
  proof (cases d')
    case False
    with rest h1 show ?thesis by simp
  next
    case True
    with rest obtain p where p: "get_proc s1 (Some pa') = Inr p"
      and r2: "(if num_threads p > 0
               then (case kill_threads X (thread_list p) s1 of
                       Inl e \<Rightarrow> Some (Inl e)
                     | Inr s2 \<Rightarrow>
                         map_option (map_sum id (\<lambda>s3. (a, pa', True, s3)))
                           (wait_for_threads X pa' s2))
               else Some (Inr (a, pa', True, s1))) = Some (Inr (a', pa, d, s3))"
      by (auto split: sum.splits)
    show ?thesis
    proof (cases "num_threads p > 0")
      case False
      with r2 h1 show ?thesis by simp
    next
      case True
      with r2 obtain s2 where k: "kill_threads X (thread_list p) s1 = Inr s2"
        and w: "map_option (map_sum id (\<lambda>s3. (a, pa', True, s3)))
                           (wait_for_threads X pa' s2) = Some (Inr (a', pa, d, s3))"
        by (auto split: sum.splits)
      from w obtain z where z: "wait_for_threads X pa' s2 = Some z"
        and z2: "map_sum id (\<lambda>s3. (a, pa', True, s3)) z = Inr (a', pa, d, s3)"
        by auto
      from z2 have zz: "z = Inr s3" "a' = a" by (auto simp: map_sum_eq_Inr)
      from kill_threads_frame [OF k] h1 have h2: "holds_sem s2 a sem"
        by (simp add: holds_sem_def)
      from wait_for_threads_frame [OF z [unfolded zz(1)] fr h2] zz show ?thesis by simp
    qed
  qed
qed

lemma send_pgrp_signal_frame:
  "send_pgrp_signal_etc_locked K X s g sg f = Inr (r, s') \<Longrightarrow>
     threads s' = threads s \<and> sems s' = sems s"
  by (auto dest!: send_pgrp_signal_Inr)

lemma orphan_signals_frame:
  assumes "(if c1
          then seq (check_for_pgrp_connection s2 g cf ign) (\<lambda>connection.
                 if \<not> connection
                 then seq (send_pgrp_signal_etc_locked K X s2 g SIGHUP True) (\<lambda>(r1, s3).
                      seq (send_pgrp_signal_etc_locked K X s3 g SIGCONT True) (\<lambda>(r2, s4).
                        Inr s4))
                 else Inr s2)
          else Inr s2) = Inr s5"
  shows "threads s5 = threads s2 \<and> sems s5 = sems s2"
proof (cases c1)
  case False
  with assms show ?thesis by simp
next
  case True
  with assms obtain connection where
    r: "(if \<not> connection
         then seq (send_pgrp_signal_etc_locked K X s2 g SIGHUP True) (\<lambda>(r1, s3).
              seq (send_pgrp_signal_etc_locked K X s3 g SIGCONT True) (\<lambda>(r2, s4).
                Inr s4))
         else Inr s2) = Inr s5"
    by (auto elim: seqE)
  show ?thesis
  proof (cases connection)
    case True
    with r show ?thesis by simp
  next
    case False
    with r have "seq (send_pgrp_signal_etc_locked K X s2 g SIGHUP True) (\<lambda>(r1, s3).
              seq (send_pgrp_signal_etc_locked K X s3 g SIGCONT True) (\<lambda>(r2, s4).
                Inr s4)) = Inr s5" by simp
    then show ?thesis
    proof (elim seqE2)
      fix r1 s3 r2 s4
      assume "send_pgrp_signal_etc_locked K X s2 g SIGHUP True = Inr (r1, s3)"
        "send_pgrp_signal_etc_locked K X s3 g SIGCONT True = Inr (r2, s4)" "Inr s4 = Inr s5"
      then show ?thesis
        by (auto dest!: send_pgrp_signal_frame)
    qed
  qed
qed

lemma thread_exit_orphan_pgrp_frame:
  assumes "thread_exit_orphan_pgrp K X pa s = Inr s'"
  shows "threads s' = threads s \<and> sems s' = sems s"
  using assms unfolding thread_exit_orphan_pgrp_def
  by (elim seqE) (rule orphan_signals_frame)

lemma insert_proc_into_parent_frame:
  "insert_proc_into_parent pp a s = Inr s' \<Longrightarrow> threads s' = threads s \<and> sems s' = sems s"
  by (auto simp: insert_proc_into_parent_def seq_eq_Inr Let_def split: option.splits)

lemma remove_proc_from_parent_frame:
  "remove_proc_from_parent pp a s = Inr s' \<Longrightarrow> threads s' = threads s \<and> sems s' = sems s"
  by (auto simp: remove_proc_from_parent_def seq_eq_Inr Let_def split: option.splits if_splits)

lemma remove_proc_from_pgroup_frame:
  "remove_proc_from_pgroup K a g s = Inr (r, s') \<Longrightarrow> threads s' = threads s \<and> sems s' = sems s"
  by (auto simp: remove_proc_from_pgroup_def seq_eq_Inr split: option.splits if_splits)

lemma remove_proc_from_session_frame:
  "remove_proc_from_session K a g s = Inr (r, s') \<Longrightarrow> threads s' = threads s \<and> sems s' = sems s"
  by (auto simp: remove_proc_from_session_def seq_eq_Inr split: option.splits if_splits)

lemma reparent_each_frame:
  "reparent_each K X pa cs s = Inr s' \<Longrightarrow> threads s' = threads s \<and> sems s' = sems s"
proof (induction cs arbitrary: s)
  case Nil
  then show ?case by simp
next
  case (Cons child rest)
  from Cons.prems show ?case
    unfolding reparent_each.simps
  proof (elim seqE)
    fix s1 p s2 p2 c s5
    assume a: "remove_proc_from_parent (Some pa) child s = Inr s1"
      and b: "insert_proc_into_parent (parent p) child s1 = Inr s2"
      and d: "(if sid p2 = sid c \<and> pgid p2 \<noteq> pgid c
          then seq (check_for_pgrp_connection s2 (pgid c) (pgid p2) None) (\<lambda>connection.
                 if \<not> connection
                 then seq (send_pgrp_signal_etc_locked K X s2 (pgid c) SIGHUP True) (\<lambda>(r1, s3).
                      seq (send_pgrp_signal_etc_locked K X s3 (pgid c) SIGCONT True) (\<lambda>(r2, s4).
                        Inr s4))
                 else Inr s2)
          else Inr s2) = Inr s5"
      and e: "reparent_each K X pa rest s5 = Inr s'"
    from orphan_signals_frame [OF d] remove_proc_from_parent_frame [OF a]
      insert_proc_into_parent_frame [OF b] Cons.IH [OF e]
    show ?thesis by simp
  qed
qed

lemma thread_exit_delete_proc_frame:
  assumes "thread_exit_delete_proc K X pa s = Inr (ppid, s5)"
  shows "threads s5 = threads s \<and> sems s5 = sems s"
  using assms unfolding thread_exit_delete_proc_def Let_def
proof (elim seqE2 seqE)
  fix s1 s3 p3 r1 s4 p4 r2 s5' p5 par s6
  assume o: "thread_exit_orphan_pgrp K X pa s = Inr s1"
    and rp: "proc_reparent_children K X pa (s1\<lparr>proc_hash := remove1 pa (proc_hash s1)\<rparr>) = Inr s3"
    and g: "remove_proc_from_pgroup K pa (pgid p3) s3 = Inr (r1, s4)"
    and ss: "remove_proc_from_session K pa (sid p4) s4 = Inr (r2, s5')"
    and pp: "remove_proc_from_parent (parent p5) pa s5' = Inr s6"
    and fin: "Inr (p_id par, s6\<lparr>procs := (procs s6)(pa := None)\<rparr>) = Inr (ppid, s5)"
  from rp have "threads s3 = threads s1 \<and> sems s3 = sems s1"
    by (auto simp: proc_reparent_children_def seq_eq_Inr dest!: reparent_each_frame)
  with thread_exit_orphan_pgrp_frame [OF o] remove_proc_from_pgroup_frame [OF g]
    remove_proc_from_session_frame [OF ss] remove_proc_from_parent_frame [OF pp] fin
  show ?thesis by auto
qed

lemma thread_exit_publishes:
  assumes ex: "thread_exit K X s code = Some (Inr s2)"
    and cur: "current_thread s = Some a" and h: "holds_sem s a sem"
    and fr: "\<forall>u. holds_sem u a sem \<longrightarrow> holds_sem (others X u) a sem"
  shows "map_of (sem_deleted s2) sem = Some code \<and> sems s2 sem = None
       \<and> map_option return_code_sem (threads s2 a) = Some (- 1)"
proof -
  from ex obtain a' pa d s3 where
    u: "thread_exit_until_lock K X s = Some (Inr (a', pa, d, s3))"
    by (auto simp: thread_exit_def split: option.splits sum.splits)
  from thread_exit_until_lock_frame [OF u cur h fr] have a': "a' = a"
    and h3: "holds_sem s3 a sem" by simp_all
  have fin: "map_of (sem_deleted s2) sem = Some code \<and> sems s2 sem = None
       \<and> map_option return_code_sem (threads s2 a) = Some (- 1)"
    if r: "thread_exit_retcode s4 a pp code = Inr s2" and h4: "holds_sem s4 a sem" for s4 pp
  proof -
    from h4 obtain t c where t: "threads s4 a = Some t" and rs: "return_code_sem t = sem"
      and c: "sems s4 sem = Some c"
      by (auto simp: holds_sem_def split: option.splits)
    from thread_exit_retcode_deletes [OF r t c [folded rs]] rs show ?thesis by simp
  qed
  show ?thesis
  proof (cases d)
    case False
    with ex u a' have "thread_exit_retcode s3 a (- 1) code = Inr s2"
      by (simp add: thread_exit_def)
    from fin [OF this h3] show ?thesis .
  next
    case True
    with ex u a' have "seq (thread_exit_delete_proc K X pa s3) (\<lambda>(ppid, s4).
        thread_exit_retcode s4 a ppid code) = Inr s2"
      by (simp add: thread_exit_def)
    then show ?thesis
    proof (elim seqE2)
      fix pp s4
      assume dp: "thread_exit_delete_proc K X pa s3 = Inr (pp, s4)"
        and r: "thread_exit_retcode s4 a pp code = Inr s2"
      from thread_exit_delete_proc_frame [OF dp] h3 have "holds_sem s4 a sem"
        by (simp add: holds_sem_def)
      from fin [OF r this] show ?thesis .
    qed
  qed
qed

lemma wait_gets_exit_code:
  assumes K: "errors_h_ok K"
    and sg: "NO_ERROR K \<le> send_signal_status X s tid SIGCONT"
    and a: "thread_get_thread_struct_locked s tid = Some a" and t: "threads s a = Some t"
    and nn: "0 \<le> return_code_sem t" and live: "sems s (return_code_sem t) = Some c"
    and blocks: "c < 1"
    and ex: "thread_exit K X'
               (s\<lparr>sig_log := sig_log s @ [(To_thread tid, SIGCONT, False)],
                  current_thread := Some a\<rparr>) code = Some (Inr s2)"
    and fr: "\<forall>u. holds_sem u a (return_code_sem t) \<longrightarrow>
                 holds_sem (others X' u) a (return_code_sem t)"
    and oth: "map_of (sem_deleted
                 (others X (s\<lparr>sig_log := sig_log s @ [(To_thread tid, SIGCONT, False)]\<rparr>)))
                (return_code_sem t)
              = map_of (sem_deleted s2) (return_code_sem t)"
  shows "thread_wait_on_thread K X s tid (Some r0) =
           Inr (NO_ERROR K, Some code,
                others X (s\<lparr>sig_log := sig_log s @ [(To_thread tid, SIGCONT, False)]\<rparr>))"
proof -
  define s1 where "s1 = s\<lparr>sig_log := sig_log s @ [(To_thread tid, SIGCONT, False)]\<rparr>"
  have sse: "send_signal_etc X s tid SIGCONT False = (send_signal_status X s tid SIGCONT, s1)"
    by (simp add: send_signal_etc_def s1_def)
  have th: "threads s1 = threads s" "thread_hash s1 = thread_hash s" "sems s1 = sems s"
    by (simp_all add: s1_def)
  have lk: "thread_get_thread_struct_locked s1 tid = Some a"
    using thread_lookup_same [OF th(2) th(1)] a by simp
  have t1: "threads s1 a = Some t" using t th by simp
  have live1: "sems s1 (return_code_sem t) = Some c" using live th by simp
  have ex1: "thread_exit K X' (s1\<lparr>current_thread := Some a\<rparr>) code = Some (Inr s2)"
    using ex by (simp add: s1_def)
  have hx: "holds_sem (s1\<lparr>current_thread := Some a\<rparr>) a (return_code_sem t)"
    using t1 live1 by (simp add: holds_sem_def)
  have cx: "current_thread (s1\<lparr>current_thread := Some a\<rparr>) = Some a" by simp
  from thread_exit_publishes [OF ex1 cx hx fr]
  have pub: "map_of (sem_deleted s2) (return_code_sem t) = Some code" by simp
  have o1: "map_of (sem_deleted (others X s1)) (return_code_sem t) = Some code"
    using oth pub by (simp add: s1_def)
  have acq: "sem_acquire_etc K X s1 (return_code_sem t) (Some r0) =
      (ERR_SEM_DELETED K, Some code, others X s1)"
    using nn live1 blocks o1 by (simp add: sem_acquire_etc_def Let_def)
  have g: "get_thread s1 (Some a) = Inr t" using t1 by simp
  have "thread_wait_on_thread K X s tid (Some r0) = Inr (NO_ERROR K, Some code, others X s1)"
    unfolding thread_wait_on_thread_def sse prod.case lk option.case g seq_simps acq
    using sg by simp
  then show ?thesis by (simp add: s1_def)
qed

lemma wait_after_exit:
  assumes K: "errors_h_ok K"
    and sg: "NO_ERROR K \<le> send_signal_status X s tid SIGCONT"
    and a: "thread_get_thread_struct_locked s tid = Some a" and t: "threads s a = Some t"
    and neg: "return_code_sem t < 0"
  shows "thread_wait_on_thread K X s tid rv =
           Inr (ERR_INVALID_HANDLE K, rv,
                s\<lparr>sig_log := sig_log s @ [(To_thread tid, SIGCONT, False)]\<rparr>)"
proof -
  define s1 where "s1 = s\<lparr>sig_log := sig_log s @ [(To_thread tid, SIGCONT, False)]\<rparr>"
  have sse: "send_signal_etc X s tid SIGCONT False = (send_signal_status X s tid SIGCONT, s1)"
    by (simp add: send_signal_etc_def s1_def)
  have th: "threads s1 = threads s" "thread_hash s1 = thread_hash s"
    by (simp_all add: s1_def)
  have lk: "thread_get_thread_struct_locked s1 tid = Some a"
    using thread_lookup_same [OF th(2) th(1)] a by simp
  have g: "get_thread s1 (Some a) = Inr t" using t th by simp
  from K have e: "ERR_INVALID_HANDLE K \<noteq> ERR_SEM_DELETED K"
    by (auto simp: errors_h_ok_def)
  have acq: "sem_acquire_etc K X s1 (return_code_sem t) rv = (ERR_INVALID_HANDLE K, rv, s1)"
    using neg by (simp add: sem_acquire_etc_def)
  have "thread_wait_on_thread K X s tid rv = Inr (ERR_INVALID_HANDLE K, rv, s1)"
    unfolding thread_wait_on_thread_def sse prod.case lk option.case g seq_simps acq
    using sg e by simp
  then show ?thesis by (simp add: s1_def)
qed

lemma S6_exit_returns:
  "case thread_exit K0 X0
          (S6\<lparr>sig_log := sig_log S6 @ [(To_thread 6, SIGCONT, False)],
              current_thread := Some 2\<rparr>) 42 of
     Some (Inr s') \<Rightarrow> True | _ \<Rightarrow> False"
  by code_simp

lemma S6_facts:
  "NO_ERROR K0 \<le> send_signal_status X2 S6 6 SIGCONT"
  "thread_get_thread_struct_locked S6 6 = Some 2"
  "threads S6 2 = Some (thread0\<lparr>t_id := 6, t_proc := Some 1, priority := 20,
                                 return_code_sem := 3\<rparr>)"
  "0 \<le> return_code_sem (thread0\<lparr>t_id := 6, t_proc := Some 1, priority := 20,
                                 return_code_sem := 3\<rparr>)"
  "sems S6 (return_code_sem (thread0\<lparr>t_id := 6, t_proc := Some 1, priority := 20,
                                 return_code_sem := 3\<rparr>)) = Some 0"
  "(0::int) < 1"
  "thread_get_thread_struct_locked S6 9 = None"
  by (simp_all add: S6_def S2_def S0_def K0_def X2_def X0_def thread0_def
      thread_get_thread_struct_locked_def thread_struct_compare_def)

text \<open>
  Claim C3, amended.  (1) Let \<open>thread_wait_on_thread\<close> have its \<open>SIGCONT\<close>
  accepted and find the target in the thread index, with a return-code semaphore
  that is live and has no count to take, so that the caller waits.  If, while it
  waits, the target runs \<open>thread_exit\<close> with the code \<open>code\<close> to its end, the other
  threads leaving the record and the semaphore of the target alone during the exit
  and the record of the deletion in place after it, then the exit has deleted the
  semaphore with \<open>code\<close> as the deletion code and set the handle in the record to
  \<open>- 1\<close>, and the wait returns \<open>NO_ERROR\<close>, the \<open>ERR_SEM_DELETED\<close> of the acquire
  normalized, with \<open>code\<close> in the cell.  (2) A wait that finds the target in the
  index with a negative handle, as it is after the exit has published the code,
  returns \<open>ERR_INVALID_HANDLE\<close> and leaves the cell as it was.  (3) For an id that
  is not in the thread index the call fails with a negative status and leaves the
  cell as it was.
\<close>

theorem wait_returns_exit_code:
  assumes K: "errors_h_ok K"
  shows "(NO_ERROR K \<le> send_signal_status X s tid SIGCONT
          \<and> thread_get_thread_struct_locked s tid = Some a \<and> threads s a = Some t
          \<and> 0 \<le> return_code_sem t \<and> sems s (return_code_sem t) = Some c \<and> c < 1
          \<and> thread_exit K X'
               (s\<lparr>sig_log := sig_log s @ [(To_thread tid, SIGCONT, False)],
                  current_thread := Some a\<rparr>) code = Some (Inr s2)
          \<and> (\<forall>u. holds_sem u a (return_code_sem t) \<longrightarrow>
                 holds_sem (others X' u) a (return_code_sem t))
          \<and> map_of (sem_deleted
                 (others X (s\<lparr>sig_log := sig_log s @ [(To_thread tid, SIGCONT, False)]\<rparr>)))
                (return_code_sem t)
              = map_of (sem_deleted s2) (return_code_sem t)
          \<longrightarrow>
          thread_wait_on_thread K X s tid (Some r0) =
            Inr (NO_ERROR K, Some code,
                 others X (s\<lparr>sig_log := sig_log s @ [(To_thread tid, SIGCONT, False)]\<rparr>))
          \<and> map_of (sem_deleted s2) (return_code_sem t) = Some code
          \<and> map_option return_code_sem (threads s2 a) = Some (- 1))
       \<and> (NO_ERROR K \<le> send_signal_status X s tid SIGCONT
          \<and> thread_get_thread_struct_locked s tid = Some a \<and> threads s a = Some t
          \<and> return_code_sem t < 0
          \<longrightarrow>
          thread_wait_on_thread K X s tid rv =
            Inr (ERR_INVALID_HANDLE K, rv,
                 s\<lparr>sig_log := sig_log s @ [(To_thread tid, SIGCONT, False)]\<rparr>))
       \<and> (thread_get_thread_struct_locked s tid = None \<longrightarrow>
          (\<exists>rc s'. thread_wait_on_thread K X s tid rv = Inr (rc, rv, s') \<and> rc < 0))"
proof (intro conjI impI)
  assume h: "NO_ERROR K \<le> send_signal_status X s tid SIGCONT
          \<and> thread_get_thread_struct_locked s tid = Some a \<and> threads s a = Some t
          \<and> 0 \<le> return_code_sem t \<and> sems s (return_code_sem t) = Some c \<and> c < 1
          \<and> thread_exit K X'
               (s\<lparr>sig_log := sig_log s @ [(To_thread tid, SIGCONT, False)],
                  current_thread := Some a\<rparr>) code = Some (Inr s2)
          \<and> (\<forall>u. holds_sem u a (return_code_sem t) \<longrightarrow>
                 holds_sem (others X' u) a (return_code_sem t))
          \<and> map_of (sem_deleted
                 (others X (s\<lparr>sig_log := sig_log s @ [(To_thread tid, SIGCONT, False)]\<rparr>)))
                (return_code_sem t)
              = map_of (sem_deleted s2) (return_code_sem t)"
  then show "thread_wait_on_thread K X s tid (Some r0) =
            Inr (NO_ERROR K, Some code,
                 others X (s\<lparr>sig_log := sig_log s @ [(To_thread tid, SIGCONT, False)]\<rparr>))"
    by (elim conjE) (rule wait_gets_exit_code [OF K]; assumption)
  from h have ex: "thread_exit K X'
               (s\<lparr>sig_log := sig_log s @ [(To_thread tid, SIGCONT, False)],
                  current_thread := Some a\<rparr>) code = Some (Inr s2)"
    and fr: "\<forall>u. holds_sem u a (return_code_sem t) \<longrightarrow>
                 holds_sem (others X' u) a (return_code_sem t)"
    and t: "threads s a = Some t" and live: "sems s (return_code_sem t) = Some c"
    by simp_all
  have hx: "holds_sem (s\<lparr>sig_log := sig_log s @ [(To_thread tid, SIGCONT, False)],
                  current_thread := Some a\<rparr>) a (return_code_sem t)"
    using t live by (simp add: holds_sem_def)
  have cx: "current_thread (s\<lparr>sig_log := sig_log s @ [(To_thread tid, SIGCONT, False)],
                  current_thread := Some a\<rparr>) = Some a" by simp
  from thread_exit_publishes [OF ex cx hx fr]
  show "map_of (sem_deleted s2) (return_code_sem t) = Some code"
    "map_option return_code_sem (threads s2 a) = Some (- 1)"
    by simp_all
next
  assume "NO_ERROR K \<le> send_signal_status X s tid SIGCONT
          \<and> thread_get_thread_struct_locked s tid = Some a \<and> threads s a = Some t
          \<and> return_code_sem t < 0"
  then show "thread_wait_on_thread K X s tid rv =
            Inr (ERR_INVALID_HANDLE K, rv,
                 s\<lparr>sig_log := sig_log s @ [(To_thread tid, SIGCONT, False)]\<rparr>)"
    by (elim conjE) (rule wait_after_exit [OF K]; assumption)
next
  assume "thread_get_thread_struct_locked s tid = None"
  then show "\<exists>rc s'. thread_wait_on_thread K X s tid rv = Inr (rc, rv, s') \<and> rc < 0"
    by (rule wait_unknown_thread [OF K])
qed

theorem wait_returns_exit_code_witness:
  "map_sum id fst (thread_wait_on_thread K0 X2 S6 6 (Some 0)) = Inr (NO_ERROR K0)
   \<and> map_sum id (fst \<circ> snd) (thread_wait_on_thread K0 X2 S6 6 (Some 0)) = Inr (Some 42)
   \<and> thread_get_thread_struct_locked S6 9 = None
   \<and> \<not> isl (thread_wait_on_thread K0 X0 S6 9 None)
   \<and> fst (projr (thread_wait_on_thread K0 X0 S6 9 None)) < 0"
proof -
  let ?s1 = "S6\<lparr>sig_log := sig_log S6 @ [(To_thread 6, SIGCONT, False)]\<rparr>"
  from S6_exit_returns obtain s2 where
    ex: "thread_exit K0 X0
          (S6\<lparr>sig_log := sig_log S6 @ [(To_thread 6, SIGCONT, False)],
              current_thread := Some 2\<rparr>) 42 = Some (Inr s2)"
    by (auto split: option.splits sum.splits)
  have fr: "\<forall>u. holds_sem u 2 (return_code_sem (thread0\<lparr>t_id := 6, t_proc := Some 1,
                     priority := 20, return_code_sem := 3\<rparr>)) \<longrightarrow>
                 holds_sem (others X0 u) 2 (return_code_sem (thread0\<lparr>t_id := 6,
                     t_proc := Some 1, priority := 20, return_code_sem := 3\<rparr>))"
    by (simp add: X0_def)
  have oth: "map_of (sem_deleted (others X2 ?s1))
               (return_code_sem (thread0\<lparr>t_id := 6, t_proc := Some 1, priority := 20,
                                        return_code_sem := 3\<rparr>))
             = map_of (sem_deleted s2)
               (return_code_sem (thread0\<lparr>t_id := 6, t_proc := Some 1, priority := 20,
                                        return_code_sem := 3\<rparr>))"
    using ex by (simp add: X2_def)
  note A = wait_returns_exit_code [OF errors_h_ok_K0, THEN conjunct1, THEN mp,
      OF conjI [OF S6_facts(1) conjI [OF S6_facts(2) conjI [OF S6_facts(3)
        conjI [OF S6_facts(4) conjI [OF S6_facts(5) conjI [OF S6_facts(6)
        conjI [OF ex conjI [OF fr oth]]]]]]]], of 0]
  note D = wait_returns_exit_code [OF errors_h_ok_K0, THEN conjunct2, THEN conjunct2,
      THEN mp, OF S6_facts(7), of X0 None]
  from D obtain rc s' where "thread_wait_on_thread K0 X0 S6 9 None = Inr (rc, None, s')" "rc < 0"
    by blast
  with A S6_facts(7) show ?thesis by simp
qed

text \<open>
  The claim as it was stated fails for a wait that begins after the exit: in \<open>S7\<close>
  thread 6 has exited with code 42 and is still in the thread index; the wait of
  thread 5 for it returns \<open>ERR_INVALID_HANDLE\<close> and the cell keeps its 0.
\<close>

theorem wait_after_exit_counterexample:
  "map_of (sem_deleted S7) 3 = Some 42
   \<and> thread_get_thread_struct_locked S7 6 = Some 2
   \<and> map_option return_code_sem (threads S7 2) = Some (- 1)
   \<and> map_sum id fst (thread_wait_on_thread K0 X0 S7 6 (Some 0)) = Inr (ERR_INVALID_HANDLE K0)
   \<and> map_sum id (fst \<circ> snd) (thread_wait_on_thread K0 X0 S7 6 (Some 0)) = Inr (Some 0)"
  by code_simp

subsection \<open>The dispatcher\<close>

lemma u_rand_sel [simp]:
  "threads (snd (u_rand s)) = threads s"
  "procs (snd (u_rand s)) = procs s"
  "cpus (snd (u_rand s)) = cpus s"
  "run_q (snd (u_rand s)) = run_q s"
  "dead_q (snd (u_rand s)) = dead_q s"
  "current_thread (snd (u_rand s)) = current_thread s"
  "curr_cpu (snd (u_rand s)) = curr_cpu s"
  by (simp_all add: u_rand_def Let_def system_time_def)

lemma thread_dequeue_run_q_Nil:
  "run_q s i = [] \<Longrightarrow> thread_dequeue_run_q s i = (None, s)"
  by (simp add: thread_dequeue_run_q_def thread_dequeue_def fun_upd_idem)

lemma thread_dequeue_run_q_Cons:
  "run_q s i = t # r \<Longrightarrow> thread_dequeue_run_q s i = (Some t, s\<lparr>run_q := (run_q s)(i := r)\<rparr>)"
  by (simp add: thread_dequeue_run_q_def thread_dequeue_def)

lemma thread_lookat_run_q_None [simp]:
  "thread_lookat_run_q s i = None \<longleftrightarrow> run_q s i = []"
  by (simp add: thread_lookat_run_q_def thread_lookat_queue_def split: list.splits)

lemma rt_search_empty:
  "(\<And>k. THREAD_MIN_RT_PRIORITY K \<le> k \<Longrightarrow> k \<le> i \<Longrightarrow> run_q s k = [])
     \<Longrightarrow> rt_search K i s = (None, s)"
proof (induction K i s rule: rt_search.induct)
  case (1 K i s)
  show ?case
  proof (cases "THREAD_MIN_RT_PRIORITY K \<le> i")
    case True
    then have e: "run_q s i = []" using 1(2) by simp
    have "rt_search K (i - 1) s = (None, s)"
      using 1(1) [OF True, of None s] 1(2) e by (simp add: thread_dequeue_run_q_Nil)
    then show ?thesis
      using True e by (subst rt_search.simps) (simp add: thread_dequeue_run_q_Nil)
  next
    case False
    then show ?thesis by (subst rt_search.simps) simp
  qed
qed

lemma regular_search_empty:
  "(\<And>k. THREAD_IDLE_PRIORITY K < k \<Longrightarrow> k \<le> i \<Longrightarrow> run_q s k = [])
     \<Longrightarrow> regular_search K i l s = (None, l, s)"
proof (induction K i l s rule: regular_search.induct)
  case (1 K i l s)
  show ?case
  proof (cases "THREAD_IDLE_PRIORITY K < i")
    case True
    then have e: "run_q s i = []" using 1(3) by simp
    have "regular_search K (i - 1) l s = (None, l, s)"
      using 1(2) [OF True] 1(3) e by simp
    then show ?thesis
      using True e by (subst regular_search.simps) simp
  next
    case False
    then show ?thesis by (subst regular_search.simps) simp
  qed
qed

lemma regular_search_single:
  assumes "THREAD_IDLE_PRIORITY K < p" "p \<le> i" "run_q s p = t # r"
    and "\<And>k. THREAD_IDLE_PRIORITY K < k \<Longrightarrow> k \<le> i \<Longrightarrow> k \<noteq> p \<Longrightarrow> run_q s k = []"
  shows "regular_search K i l s =
           (if fst (u_rand s) > 0x3000
            then (Some t, l, (snd (u_rand s))\<lparr>run_q := (run_q s)(p := r)\<rparr>)
            else (None, p, snd (u_rand s)))"
  using assms
proof (induction K i l s rule: regular_search.induct)
  case (1 K i l s)
  have gt: "THREAD_IDLE_PRIORITY K < i" using 1(3,4) by simp
  show ?case
  proof (cases "i = p")
    case True
    have below: "regular_search K (p - 1) p (snd (u_rand s)) = (None, p, snd (u_rand s))"
      using 1(6) True by (intro regular_search_empty) simp
    show ?thesis
      using True 1(3,5) below
      by (subst regular_search.simps)
         (simp add: split_beta thread_dequeue_run_q_Cons)
  next
    case False
    then have e: "run_q s i = []" using 1(6) gt by simp
    have "regular_search K (i - 1) l s =
           (if fst (u_rand s) > 0x3000
            then (Some t, l, (snd (u_rand s))\<lparr>run_q := (run_q s)(p := r)\<rparr>)
            else (None, p, snd (u_rand s)))"
      using 1(2) [OF gt] e 1(3,4,5,6) False by simp
    then show ?thesis
      using gt e by (subst regular_search.simps) simp
  qed
qed

lemma regular_search_None:
  "regular_search K i l s = (None, l', s') \<Longrightarrow>
     run_q s' = run_q s
     \<and> (l' = l \<or> (THREAD_IDLE_PRIORITY K < l' \<and> l' \<le> i \<and> run_q s l' \<noteq> []))
     \<and> (\<forall>k. THREAD_IDLE_PRIORITY K < k \<and> k \<le> i \<and> run_q s k \<noteq> [] \<longrightarrow>
            l' \<le> k \<and> THREAD_IDLE_PRIORITY K < l' \<and> run_q s l' \<noteq> [])"
proof (induction K i l s rule: regular_search.induct)
  case (1 K i l s)
  show ?case
  proof (cases "THREAD_IDLE_PRIORITY K < i")
    case False
    then have "(None, l, s) = (None, l', s')"
      using 1(3) by (subst (asm) regular_search.simps) simp
    then show ?thesis using False by auto
  next
    case gt: True
    show ?thesis
    proof (cases "run_q s i = []")
      case True
      then have r: "regular_search K (i - 1) l s = (None, l', s')"
        using 1(3) gt by (subst (asm) regular_search.simps) simp
      have nl: "\<not> thread_lookat_run_q s i \<noteq> None" using True by simp
      note ih = 1(2) [OF gt nl r]
      from ih have a: "run_q s' = run_q s" by (rule conjunct1)
      from ih have b: "l' = l \<or> (THREAD_IDLE_PRIORITY K < l' \<and> l' \<le> i - 1 \<and> run_q s l' \<noteq> [])"
        by (elim conjE)
      from ih have c: "\<And>k. THREAD_IDLE_PRIORITY K < k \<Longrightarrow> k \<le> i - 1 \<Longrightarrow> run_q s k \<noteq> [] \<Longrightarrow>
            l' \<le> k \<and> THREAD_IDLE_PRIORITY K < l' \<and> run_q s l' \<noteq> []"
        by blast
      have b': "l' = l \<or> (THREAD_IDLE_PRIORITY K < l' \<and> l' \<le> i \<and> run_q s l' \<noteq> [])"
        using b by auto
      have c': "l' \<le> k \<and> THREAD_IDLE_PRIORITY K < l' \<and> run_q s l' \<noteq> []"
        if "THREAD_IDLE_PRIORITY K < k \<and> k \<le> i \<and> run_q s k \<noteq> []" for k
      proof -
        from that True have "k \<noteq> i" by auto
        with that have "k \<le> i - 1" by simp
        with that show ?thesis by (intro c) simp_all
      qed
      from a b' c' show ?thesis by blast
    next
      case False
      obtain rr s1 where u: "u_rand s = (rr, s1)" by (cases "u_rand s")
      have s1: "run_q s1 = run_q s" using u_rand_sel(4) [of s] u by simp
      obtain t q where tq: "run_q s i = t # q" using False by (cases "run_q s i") auto
      have lk: "thread_lookat_run_q s i \<noteq> None" using False by simp
      have skip: "\<not> 0x3000 < rr"
      proof
        assume "0x3000 < rr"
        then have "regular_search K i l s = (Some t, l, s1\<lparr>run_q := (run_q s1)(i := q)\<rparr>)"
          using gt False u tq s1
          by (subst regular_search.simps) (simp add: thread_dequeue_run_q_Cons)
        with 1(3) show False by simp
      qed
      then have r: "regular_search K (i - 1) i s1 = (None, l', s')"
        using 1(3) gt False u by (subst (asm) regular_search.simps) simp
      note ih = 1(1) [OF gt lk u [symmetric] skip r]
      from ih have a: "run_q s' = run_q s" unfolding s1 by (rule conjunct1)
      from ih have b: "l' = i \<or> (THREAD_IDLE_PRIORITY K < l' \<and> l' \<le> i - 1 \<and> run_q s l' \<noteq> [])"
        unfolding s1 by (elim conjE)
      from ih have c: "\<And>k. THREAD_IDLE_PRIORITY K < k \<Longrightarrow> k \<le> i - 1 \<Longrightarrow> run_q s k \<noteq> [] \<Longrightarrow>
            l' \<le> k \<and> THREAD_IDLE_PRIORITY K < l' \<and> run_q s l' \<noteq> []"
        unfolding s1 by blast
      have b': "THREAD_IDLE_PRIORITY K < l' \<and> l' \<le> i \<and> run_q s l' \<noteq> []"
        using b gt False by auto
      have c': "l' \<le> k \<and> THREAD_IDLE_PRIORITY K < l' \<and> run_q s l' \<noteq> []"
        if k: "THREAD_IDLE_PRIORITY K < k \<and> k \<le> i \<and> run_q s k \<noteq> []" for k
      proof (cases "k = i")
        case True
        then show ?thesis using b' by simp
      next
        case False
        with k have "k \<le> i - 1" by simp
        with k show ?thesis by (intro c) simp_all
      qed
      from a b' c' show ?thesis by blast
    qed
  qed
qed

lemma regular_search_lowest:
  assumes r: "regular_search K i l s = (None, l', s')"
    and j: "THREAD_IDLE_PRIORITY K < j" "j \<le> i" "run_q s j \<noteq> []"
    and low: "\<forall>k. THREAD_IDLE_PRIORITY K < k \<and> k < j \<longrightarrow> run_q s k = []"
  shows "l' = j \<and> run_q s' = run_q s"
proof -
  from regular_search_None [OF r] have a: "run_q s' = run_q s"
    and c: "\<And>k. THREAD_IDLE_PRIORITY K < k \<and> k \<le> i \<and> run_q s k \<noteq> [] \<Longrightarrow>
            l' \<le> k \<and> THREAD_IDLE_PRIORITY K < l' \<and> run_q s l' \<noteq> []"
    by blast+
  from c [of j] j have "l' \<le> j" "THREAD_IDLE_PRIORITY K < l'" "run_q s l' \<noteq> []" by simp_all
  with low have "\<not> l' < j" by blast
  with \<open>l' \<le> j\<close> have "l' = j" by simp
  with a show ?thesis by simp
qed

lemma S3_skipped: "fst (regular_search K0 (THREAD_MAX_PRIORITY K0) (- 1) S3) = None"
  by code_simp

text \<open>
  Claim C1, amended.  When the real-time band is empty and the search of the regular
  levels has returned without a pick, so that the randomized check has skipped every
  non-empty level, \<open>last_thread_pri\<close> is the last level the scan remembered, which
  is the lowest non-empty regular level \<open>j\<close> above the idle level (each skip
  overwrites it), and the thread to run is dequeued from the head of level \<open>j\<close>.
  The idle level is not negative, so that \<open>- 1\<close> is no level.
\<close>

theorem fallback_is_lowest_skipped_level:
  assumes idle: "0 \<le> THREAD_IDLE_PRIORITY K"
    and rt: "\<forall>k. THREAD_MIN_RT_PRIORITY K \<le> k \<and> k \<le> THREAD_MAX_RT_PRIORITY K
                \<longrightarrow> run_q s k = []"
    and skipped: "fst (regular_search K (THREAD_MAX_PRIORITY K) (- 1) s) = None"
    and j: "THREAD_IDLE_PRIORITY K < j" "j \<le> THREAD_MAX_PRIORITY K" "run_q s j \<noteq> []"
    and lowest: "\<forall>k. THREAD_IDLE_PRIORITY K < k \<and> k < j \<longrightarrow> run_q s k = []"
  shows "fst (snd (regular_search K (THREAD_MAX_PRIORITY K) (- 1) s)) = j
       \<and> (\<exists>s'. select_next_thread K s = Inr (hd (run_q s j), s')
              \<and> run_q s' = (run_q s)(j := tl (run_q s j)))"
proof -
  obtain l' s4 where rs: "regular_search K (THREAD_MAX_PRIORITY K) (- 1) s = (None, l', s4)"
    using skipped by (cases "regular_search K (THREAD_MAX_PRIORITY K) (- 1) s") auto
  from regular_search_lowest [OF rs j lowest] have l: "l' = j" and q: "run_q s4 = run_q s"
    by simp_all
  have rts: "rt_search K (THREAD_MAX_RT_PRIORITY K) s = (None, s)"
    using rt by (intro rt_search_empty) simp
  obtain t r where tr: "run_q s j = t # r" using j(3) by (cases "run_q s j") auto
  have n1: "j \<noteq> - 1" using idle j by simp
  have dq: "thread_dequeue_run_q s4 j = (Some t, s4\<lparr>run_q := (run_q s4)(j := r)\<rparr>)"
    using tr q by (intro thread_dequeue_run_q_Cons) simp
  have sel: "select_next_thread K s = Inr (t, s4\<lparr>run_q := (run_q s4)(j := r)\<rparr>)"
    unfolding select_next_thread_def rts using rs l n1 dq by simp
  have a: "fst (snd (regular_search K (THREAD_MAX_PRIORITY K) (- 1) s)) = j"
    using rs l by simp
  have b: "\<exists>s'. select_next_thread K s = Inr (hd (run_q s j), s')
              \<and> run_q s' = (run_q s)(j := tl (run_q s j))"
    using sel tr q by simp
  from a b show ?thesis by (rule conjI)
qed

theorem fallback_is_lowest_skipped_level_witness:
  "run_q S3 10 = [2] \<and> run_q S3 5 = [3]
   \<and> fst (snd (regular_search K0 (THREAD_MAX_PRIORITY K0) (- 1) S3)) = 5
   \<and> map_sum id fst (select_next_thread K0 S3) = Inr 3"
proof -
  have idle: "0 \<le> THREAD_IDLE_PRIORITY K0" by (simp add: K0_def)
  have rt: "\<forall>k. THREAD_MIN_RT_PRIORITY K0 \<le> k \<and> k \<le> THREAD_MAX_RT_PRIORITY K0
                \<longrightarrow> run_q S3 k = []"
    by (simp add: K0_def S3_def)
  have j: "THREAD_IDLE_PRIORITY K0 < 5" "5 \<le> THREAD_MAX_PRIORITY K0" "run_q S3 5 \<noteq> []"
    by (simp_all add: K0_def S3_def)
  have lowest: "\<forall>k. THREAD_IDLE_PRIORITY K0 < k \<and> k < 5 \<longrightarrow> run_q S3 k = []"
    by (simp add: K0_def S3_def)
  have q: "run_q S3 10 = [2]" "run_q S3 5 = [3]" by (simp_all add: S3_def)
  from fallback_is_lowest_skipped_level [OF idle rt S3_skipped j lowest] q
  show ?thesis by auto
qed

theorem fallback_not_highest_counterexample:
  "fst (rt_search K0 (THREAD_MAX_RT_PRIORITY K0) S3) = None
   \<and> fst (regular_search K0 (THREAD_MAX_PRIORITY K0) (- 1) S3) = None
   \<and> thread_lookat_run_q S3 10 = Some 2
   \<and> thread_lookat_run_q S3 5 = Some 3
   \<and> map_sum id fst (select_next_thread K0 S3) = Inr 3
   \<and> map_sum id current_thread (thread_resched K0 S3) = Inr (Some 3)"
  by code_simp

lemma select_single:
  assumes K: "0 \<le> THREAD_IDLE_PRIORITY K" "THREAD_IDLE_PRIORITY K < p"
      "p \<le> THREAD_MAX_PRIORITY K" "THREAD_MAX_PRIORITY K < THREAD_MIN_RT_PRIORITY K"
    and q: "run_q s p = t # r"
    and empt: "\<forall>k. THREAD_IDLE_PRIORITY K < k \<and> k \<noteq> p \<longrightarrow> run_q s k = []"
  shows "select_next_thread K s = Inr (t, (snd (u_rand s))\<lparr>run_q := (run_q s)(p := r)\<rparr>)"
proof -
  have rt: "rt_search K (THREAD_MAX_RT_PRIORITY K) s = (None, s)"
    using K empt by (intro rt_search_empty) simp
  have rs: "regular_search K (THREAD_MAX_PRIORITY K) (- 1) s =
           (if fst (u_rand s) > 0x3000
            then (Some t, - 1, (snd (u_rand s))\<lparr>run_q := (run_q s)(p := r)\<rparr>)
            else (None, p, snd (u_rand s)))"
  proof (rule regular_search_single [OF K(2) K(3) q])
    fix k assume "THREAD_IDLE_PRIORITY K < k" "k \<noteq> p"
    then show "run_q s k = []" using empt by simp
  qed
  have p: "p \<noteq> - 1" using K by simp
  have q': "run_q (snd (u_rand s)) p = t # r" using q by simp
  have dq: "thread_dequeue_run_q (snd (u_rand s)) p
              = (Some t, (snd (u_rand s))\<lparr>run_q := (run_q s)(p := r)\<rparr>)"
    unfolding thread_dequeue_run_q_Cons [OF q'] by simp
  show ?thesis
  proof (cases "fst (u_rand s) > 0x3000")
    case True
    have "regular_search K (THREAD_MAX_PRIORITY K) (- 1) s =
            (Some t, - 1, (snd (u_rand s))\<lparr>run_q := (run_q s)(p := r)\<rparr>)"
      unfolding rs using True by simp
    then show ?thesis
      unfolding select_next_thread_def rt by simp
  next
    case False
    have "regular_search K (THREAD_MAX_PRIORITY K) (- 1) s = (None, p, snd (u_rand s))"
      unfolding rs using False by simp
    then show ?thesis
      unfolding select_next_thread_def rt using p dq by simp
  qed
qed

lemma put_cpu_sel [simp]:
  "threads (put_cpu a c s) = threads s"
  "procs (put_cpu a c s) = procs s"
  "cpus (put_cpu a c s) = (cpus s)(a \<mapsto> c)"
  "run_q (put_cpu a c s) = run_q s"
  "current_thread (put_cpu a c s) = current_thread s"
  "curr_cpu (put_cpu a c s) = curr_cpu s"
  by (simp_all add: put_cpu_def)

lemma thread_context_switch_props:
  assumes f: "threads s f = Some fr" and t: "threads s t = Some tr" and ne: "f \<noteq> t"
    and fpu: "fpu_state_saved fr \<or> fpu_cpu fr \<noteq> None"
    and pf: "t_proc fr = Some pf" "procs s pf = Some pfr"
    and pt: "t_proc tr = Some pt" "procs s pt = Some ptr"
  shows "\<exists>s' tr'. thread_context_switch s f t = Inr s' \<and> current_thread s' = Some t
          \<and> run_q s' = run_q s \<and> procs s' = procs s \<and> cpus s' = cpus s
          \<and> (\<forall>x. x \<noteq> f \<and> x \<noteq> t \<longrightarrow> threads s' x = threads s x)
          \<and> threads s' t = Some tr' \<and> cpu tr' = cpu fr \<and> next_state tr' = next_state tr
          \<and> priority tr' = priority tr \<and> fpu_state_saved tr' = fpu_state_saved tr
          \<and> fpu_cpu tr' = fpu_cpu tr \<and> t_proc tr' = t_proc tr"
  using assms
  by (auto simp add: thread_context_switch_def system_time_def Let_def)

lemma enqueue_phase:
  assumes K: "0 \<le> THREAD_IDLE_PRIORITY K" "THREAD_IDLE_PRIORITY K < p"
      "p \<le> THREAD_MAX_PRIORITY K"
    and old: "threads s c0 = Some old"
    and lvl: "next_state old = THREAD_STATE_RUNNING \<or> next_state old = THREAD_STATE_READY
              \<longrightarrow> priority old = p \<or> priority old \<le> THREAD_IDLE_PRIORITY K"
    and empt: "\<forall>k. THREAD_IDLE_PRIORITY K < k \<and> k \<noteq> p \<longrightarrow> run_q s k = []"
  shows "\<exists>s1 old1.
          (case next_state old of
             THREAD_STATE_RUNNING \<Rightarrow> thread_enqueue_run_q K c0 s
           | THREAD_STATE_READY \<Rightarrow> thread_enqueue_run_q K c0 s
           | THREAD_STATE_SUSPENDED \<Rightarrow> Inr s
           | THREAD_STATE_FREE_ON_RESCHED \<Rightarrow>
               Inr (s\<lparr>dead_q := thread_enqueue c0 (dead_q s)\<rparr>)
           | _ \<Rightarrow> Inr s) = Inr s1
          \<and> threads s1 = (threads s)(c0 \<mapsto> old1)
          \<and> cpu old1 = cpu old \<and> fpu_state_saved old1 = fpu_state_saved old
          \<and> fpu_cpu old1 = fpu_cpu old \<and> t_proc old1 = t_proc old
          \<and> next_state old1 = next_state old
          \<and> procs s1 = procs s \<and> cpus s1 = cpus s \<and> current_thread s1 = current_thread s
          \<and> run_q s1 p =
              (if (next_state old = THREAD_STATE_RUNNING \<or> next_state old = THREAD_STATE_READY)
                  \<and> priority old = p
               then run_q s p @ [c0] else run_q s p)
          \<and> (\<forall>k. THREAD_IDLE_PRIORITY K < k \<and> k \<noteq> p \<longrightarrow> run_q s1 k = [])"
proof (cases "next_state old = THREAD_STATE_RUNNING \<or> next_state old = THREAD_STATE_READY")
  case False
  have m: "(threads s)(c0 \<mapsto> old) = threads s" using old by (rule map_upd_triv)
  show ?thesis
    using False empt m
    by (cases "next_state old")
       (auto intro!: exI [of _ old])
next
  case True
  then have pr: "priority old = p \<or> priority old \<le> THREAD_IDLE_PRIORITY K" using lvl by simp
  let ?t2 = "if priority old < 0 then old\<lparr>priority := 0\<rparr> else old"
  let ?s1 = "put_thread c0 ?t2 s"
  let ?s2 = "?s1\<lparr>run_q := (run_q ?s1)(priority ?t2 := thread_enqueue c0 (run_q ?s1 (priority ?t2)))\<rparr>"
  have nm: "\<not> priority old > THREAD_MAX_PRIORITY K" using pr K by auto
  have e: "thread_enqueue_run_q K c0 s = Inr ?s2"
    using old nm by (simp add: thread_enqueue_run_q_def Let_def)
  have c: "(case next_state old of
             THREAD_STATE_RUNNING \<Rightarrow> thread_enqueue_run_q K c0 s
           | THREAD_STATE_READY \<Rightarrow> thread_enqueue_run_q K c0 s
           | THREAD_STATE_SUSPENDED \<Rightarrow> Inr s
           | THREAD_STATE_FREE_ON_RESCHED \<Rightarrow>
               Inr (s\<lparr>dead_q := thread_enqueue c0 (dead_q s)\<rparr>)
           | _ \<Rightarrow> Inr s) = Inr ?s2"
    using True e by auto
  have q: "run_q ?s2 p = (if priority old = p then run_q s p @ [c0] else run_q s p)"
    using K pr by (auto simp: thread_enqueue_def)
  have em: "\<forall>k. THREAD_IDLE_PRIORITY K < k \<and> k \<noteq> p \<longrightarrow> run_q ?s2 k = []"
    using K pr empt by (auto simp: thread_enqueue_def)
  show ?thesis
    apply (rule exI [of _ ?s2])
    apply (rule exI [of _ ?t2])
    apply (intro conjI)
               apply (rule c)
              apply simp
             apply simp
            apply simp
           apply simp
          apply simp
         apply simp
        apply simp
       apply simp
      apply simp
    using q True apply simp
    apply (rule em)
    done
qed

lemma resched_step:
  assumes K: "0 \<le> THREAD_IDLE_PRIORITY K" "THREAD_IDLE_PRIORITY K < p"
      "p \<le> THREAD_MAX_PRIORITY K" "THREAD_MAX_PRIORITY K < THREAD_MIN_RT_PRIORITY K"
    and cur: "current_thread s = Some c0" and old: "threads s c0 = Some old"
    and cpu: "cpu old = Some ca" "cpus s ca = Some ce"
    and fpu: "fpu_state_saved old \<or> fpu_cpu old \<noteq> None"
    and op: "t_proc old = Some po" "procs s po = Some pro"
    and lvl: "next_state old = THREAD_STATE_RUNNING \<or> next_state old = THREAD_STATE_READY
              \<longrightarrow> priority old = p \<or> priority old \<le> THREAD_IDLE_PRIORITY K"
    and q: "run_q s p = t # r" and ne: "t \<noteq> c0"
    and empt: "\<forall>k. THREAD_IDLE_PRIORITY K < k \<and> k \<noteq> p \<longrightarrow> run_q s k = []"
    and n: "threads s t = Some n" "t_proc n = Some pn" "procs s pn = Some prn"
  shows "\<exists>s' n'. thread_resched K s = Inr s' \<and> current_thread s' = Some t
     \<and> run_q s' p =
         (if (next_state old = THREAD_STATE_RUNNING \<or> next_state old = THREAD_STATE_READY)
             \<and> priority old = p
          then r @ [c0] else r)
     \<and> (\<forall>k. THREAD_IDLE_PRIORITY K < k \<and> k \<noteq> p \<longrightarrow> run_q s' k = [])
     \<and> threads s' t = Some n' \<and> cpu n' = Some ca \<and> next_state n' = THREAD_STATE_READY
     \<and> priority n' = priority n \<and> fpu_state_saved n' = fpu_state_saved n
     \<and> fpu_cpu n' = fpu_cpu n \<and> t_proc n' = t_proc n
     \<and> (\<forall>x. x \<noteq> t \<and> x \<noteq> c0 \<longrightarrow> threads s' x = threads s x)
     \<and> procs s' = procs s \<and> (\<exists>ce'. cpus s' ca = Some ce')"
proof -
  let ?r = "if (next_state old = THREAD_STATE_RUNNING \<or> next_state old = THREAD_STATE_READY)
             \<and> priority old = p
          then r @ [c0] else r"
  from enqueue_phase [OF K(1,2,3) old lvl empt] obtain s1 old1 where
    e: "(case next_state old of
             THREAD_STATE_RUNNING \<Rightarrow> thread_enqueue_run_q K c0 s
           | THREAD_STATE_READY \<Rightarrow> thread_enqueue_run_q K c0 s
           | THREAD_STATE_SUSPENDED \<Rightarrow> Inr s
           | THREAD_STATE_FREE_ON_RESCHED \<Rightarrow>
               Inr (s\<lparr>dead_q := thread_enqueue c0 (dead_q s)\<rparr>)
           | _ \<Rightarrow> Inr s) = Inr s1"
    and th1: "threads s1 = (threads s)(c0 \<mapsto> old1)"
    and o1: "cpu old1 = cpu old" "fpu_state_saved old1 = fpu_state_saved old"
       "fpu_cpu old1 = fpu_cpu old" "t_proc old1 = t_proc old" "next_state old1 = next_state old"
    and s1: "procs s1 = procs s" "cpus s1 = cpus s" "current_thread s1 = current_thread s"
    and q1: "run_q s1 p =
              (if (next_state old = THREAD_STATE_RUNNING \<or> next_state old = THREAD_STATE_READY)
                  \<and> priority old = p
               then run_q s p @ [c0] else run_q s p)"
    and em1: "\<forall>k. THREAD_IDLE_PRIORITY K < k \<and> k \<noteq> p \<longrightarrow> run_q s1 k = []"
    by blast
  have q1': "run_q s1 p = t # ?r" using q1 q by simp
  let ?old2 = "old1\<lparr>t_state := next_state old1\<rparr>"
  let ?s2 = "put_thread c0 ?old2 s1"
  let ?s6 = "(snd (u_rand ?s2))\<lparr>run_q := (run_q ?s2)(p := ?r)\<rparr>"
  have g1: "get_thread s (Some c0) = Inr old" using old by simp
  have g2: "get_thread s1 (Some c0) = Inr old1" using th1 by simp
  have sel: "select_next_thread K ?s2 = Inr (t, ?s6)"
  proof (rule select_single [OF K])
    show "run_q ?s2 p = t # ?r" using q1' by simp
    show "\<forall>k. THREAD_IDLE_PRIORITY K < k \<and> k \<noteq> p \<longrightarrow> run_q ?s2 k = []"
      using em1 by simp
  qed
  have th6: "threads ?s6 = (threads s)(c0 \<mapsto> ?old2)" using th1 by simp
  have g3: "get_thread ?s6 (Some t) = Inr n" using th6 ne n(1) by simp
  let ?n2 = "n\<lparr>t_state := THREAD_STATE_RUNNING, next_state := THREAD_STATE_READY\<rparr>"
  let ?s7 = "put_thread t ?n2 ?s6"
  have g4: "get_thread ?s7 (Some c0) = Inr ?old2" using th6 ne by simp
  have c2: "cpu ?old2 = Some ca" using o1 cpu by simp
  have g5: "get_cpu ?s7 (Some ca) = Inr ce" using s1 cpu by simp
  let ?c3 = "(if \<not> preempted ce then ce\<lparr>quantum_timer := None\<rparr> else ce)
               \<lparr>preempted := False, quantum_timer := Some 10000\<rparr>"
  let ?s8 = "put_cpu ca ?c3 ?s7"
  have t8: "threads ?s8 = (threads s)(c0 \<mapsto> ?old2, t \<mapsto> ?n2)" using th6 by simp
  have f8: "threads ?s8 c0 = Some ?old2" using t8 ne by simp
  have n8: "threads ?s8 t = Some ?n2" using t8 by simp
  have ne': "c0 \<noteq> t" using ne by simp
  have fpu8: "fpu_state_saved ?old2 \<or> fpu_cpu ?old2 \<noteq> None" using fpu o1 by simp
  have po8: "t_proc ?old2 = Some po" using op o1 by simp
  have pr8: "procs ?s8 po = Some pro" using op s1 by simp
  have pn8: "t_proc ?n2 = Some pn" using n by simp
  have prn8: "procs ?s8 pn = Some prn" using n s1 by simp
  from thread_context_switch_props [OF f8 n8 ne' fpu8 po8 pr8 pn8 prn8]
  obtain s' n' where sw: "thread_context_switch ?s8 c0 t = Inr s'"
    and r1: "current_thread s' = Some t" and r2: "run_q s' = run_q ?s8"
    and r3: "procs s' = procs ?s8" and r4: "cpus s' = cpus ?s8"
    and r5: "\<forall>x. x \<noteq> c0 \<and> x \<noteq> t \<longrightarrow> threads s' x = threads ?s8 x"
    and r6: "threads s' t = Some n'" "cpu n' = cpu ?old2" "next_state n' = next_state ?n2"
       "priority n' = priority ?n2" "fpu_state_saved n' = fpu_state_saved ?n2"
       "fpu_cpu n' = fpu_cpu ?n2" "t_proc n' = t_proc ?n2"
    by blast
  have res: "thread_resched K s = Inr s'"
    unfolding thread_resched_def cur option.case g1 seq_simps e g2 Let_def sel prod.case g3 g4 c2
      g5
    using ne sw by simp
  have a: "run_q s' p = ?r" unfolding r2 by simp
  have b: "\<forall>k. THREAD_IDLE_PRIORITY K < k \<and> k \<noteq> p \<longrightarrow> run_q s' k = []"
    unfolding r2 using em1 by simp
  have c: "\<forall>x. x \<noteq> t \<and> x \<noteq> c0 \<longrightarrow> threads s' x = threads s x"
  proof (intro allI impI)
    fix x assume x: "x \<noteq> t \<and> x \<noteq> c0"
    then have "threads s' x = threads ?s8 x" using r5 by simp
    also have "\<dots> = threads s x" unfolding t8 using x by simp
    finally show "threads s' x = threads s x" .
  qed
  have d: "procs s' = procs s" using r3 s1 by simp
  have ee: "\<exists>ce'. cpus s' ca = Some ce'" unfolding r4 by simp
  have f: "cpu n' = Some ca" "next_state n' = THREAD_STATE_READY" "priority n' = priority n"
    "fpu_state_saved n' = fpu_state_saved n" "fpu_cpu n' = fpu_cpu n" "t_proc n' = t_proc n"
    using r6 c2 by simp_all
  show ?thesis
    apply (rule exI [of _ s'])
    apply (rule exI [of _ n'])
    apply (intro conjI)
                 apply (rule res)
                apply (rule r1)
               apply (rule a)
              apply (rule b)
             apply (rule r6(1))
            apply (rule f(1))
           apply (rule f(2))
          apply (rule f(3))
         apply (rule f(4))
        apply (rule f(5))
       apply (rule f(6))
      apply (rule c)
     apply (rule d)
    apply (rule ee)
    done
qed

lemma thread_enqueue_run_q_tail:
  assumes "threads s a = Some t" "0 \<le> priority t" "priority t \<le> THREAD_MAX_PRIORITY K"
  shows "thread_enqueue_run_q K a s
           = Inr (s\<lparr>run_q := (run_q s)(priority t := run_q s (priority t) @ [a])\<rparr>)"
proof -
  have "(threads s)(a \<mapsto> t) = threads s" using assms(1) by (rule map_upd_triv)
  then have "put_thread a t s = s" by (simp add: put_thread_def)
  then show ?thesis
    using assms by (simp add: thread_enqueue_run_q_def Let_def thread_enqueue_def)
qed

text \<open>
  Claim C7.  Run-queue order within one level is first in, first out.  Let the
  levels above the idle level be empty, let the current thread not be runnable at
  a level above idle, and let three threads \<open>A\<close>, \<open>B\<close>, \<open>C\<close> of one regular
  priority \<open>p\<close> be enqueued in that order by \<open>thread_enqueue_run_q\<close>: level \<open>p\<close>
  is then \<open>[A, B, C]\<close>, and three successive calls of \<open>thread_resched\<close> return and
  make \<open>A\<close>, then \<open>B\<close>, then \<open>C\<close> the current thread, whatever the randomized
  check decides (a skipped single level is the fallback).  The outgoing threads are
  put back at the tail of the level.  The threads have a process record and their
  FPU state does not trip the assertion of the context switch.
\<close>

theorem three_dispatches_fifo:
  assumes K: "0 \<le> THREAD_IDLE_PRIORITY K" "THREAD_IDLE_PRIORITY K < p"
      "p \<le> THREAD_MAX_PRIORITY K" "THREAD_MAX_PRIORITY K < THREAD_MIN_RT_PRIORITY K"
    and dist: "distinct [c0, A, B, C]"
    and cur: "current_thread s0 = Some c0" "threads s0 c0 = Some old"
      "cpu old = Some ca" "cpus s0 ca = Some ce"
    and idle: "next_state old = THREAD_STATE_RUNNING \<or> next_state old = THREAD_STATE_READY
               \<longrightarrow> priority old \<le> THREAD_IDLE_PRIORITY K"
    and ta: "threads s0 A = Some ta" "priority ta = p"
    and tb: "threads s0 B = Some tb" "priority tb = p"
    and tc: "threads s0 C = Some tc" "priority tc = p"
    and fpu: "fpu_state_saved old \<or> fpu_cpu old \<noteq> None"
      "fpu_state_saved ta \<or> fpu_cpu ta \<noteq> None" "fpu_state_saved tb \<or> fpu_cpu tb \<noteq> None"
    and po: "t_proc old = Some po" "procs s0 po = Some pro"
    and pa: "t_proc ta = Some pa" "procs s0 pa = Some pra"
    and pb: "t_proc tb = Some pb" "procs s0 pb = Some prb"
    and pc: "t_proc tc = Some pc" "procs s0 pc = Some prc"
    and empt: "\<forall>k. THREAD_IDLE_PRIORITY K < k \<longrightarrow> run_q s0 k = []"
  shows "\<exists>sa sb sc s1 s2 s3.
           thread_enqueue_run_q K A s0 = Inr sa \<and> thread_enqueue_run_q K B sa = Inr sb
         \<and> thread_enqueue_run_q K C sb = Inr sc \<and> run_q sc p = [A, B, C]
         \<and> thread_resched K sc = Inr s1 \<and> current_thread s1 = Some A
         \<and> thread_resched K s1 = Inr s2 \<and> current_thread s2 = Some B
         \<and> thread_resched K s2 = Inr s3 \<and> current_thread s3 = Some C"
proof -
  have p0: "0 \<le> p" using K by simp
  have e0: "run_q s0 p = []" using empt K by simp
  let ?sa = "s0\<lparr>run_q := (run_q s0)(p := [A])\<rparr>"
  let ?sb = "s0\<lparr>run_q := (run_q s0)(p := [A, B])\<rparr>"
  let ?sc = "s0\<lparr>run_q := (run_q s0)(p := [A, B, C])\<rparr>"
  have ea: "thread_enqueue_run_q K A s0 = Inr ?sa"
    using thread_enqueue_run_q_tail [of s0 A ta K] ta p0 K e0 by simp
  have eb: "thread_enqueue_run_q K B ?sa = Inr ?sb"
    using thread_enqueue_run_q_tail [of ?sa B tb K] tb p0 K by simp
  have ec: "thread_enqueue_run_q K C ?sb = Inr ?sc"
    using thread_enqueue_run_q_tail [of ?sb C tc K] tc p0 K by simp
  have qc: "run_q ?sc p = [A, B, C]" by simp
  have d: "A \<noteq> c0" "B \<noteq> c0" "C \<noteq> c0" "B \<noteq> A" "C \<noteq> A" "C \<noteq> B"
    using dist by auto
  have lvl1: "next_state old = THREAD_STATE_RUNNING \<or> next_state old = THREAD_STATE_READY
              \<longrightarrow> priority old = p \<or> priority old \<le> THREAD_IDLE_PRIORITY K"
    using idle by simp
  have emc: "\<forall>k. THREAD_IDLE_PRIORITY K < k \<and> k \<noteq> p \<longrightarrow> run_q ?sc k = []"
    using empt by simp
  have notp: "\<not> ((next_state old = THREAD_STATE_RUNNING \<or> next_state old = THREAD_STATE_READY)
             \<and> priority old = p)"
    using idle K by auto
  have c1: "current_thread ?sc = Some c0" "threads ?sc c0 = Some old" "cpus ?sc ca = Some ce"
    "procs ?sc po = Some pro" "run_q ?sc p = A # [B, C]" "threads ?sc A = Some ta"
    "procs ?sc pa = Some pra"
    using cur po pa ta by simp_all
  from resched_step [OF K c1(1) c1(2) cur(3) c1(3) fpu(1) po(1) c1(4) lvl1 c1(5) d(1) emc
      c1(6) pa(1) c1(7)]
  obtain s1 n1 where r1: "thread_resched K ?sc = Inr s1" "current_thread s1 = Some A"
    and q1: "run_q s1 p = [B, C]"
    and em1: "\<forall>k. THREAD_IDLE_PRIORITY K < k \<and> k \<noteq> p \<longrightarrow> run_q s1 k = []"
    and n1: "threads s1 A = Some n1" "cpu n1 = Some ca" "next_state n1 = THREAD_STATE_READY"
      "priority n1 = priority ta" "fpu_state_saved n1 = fpu_state_saved ta"
      "fpu_cpu n1 = fpu_cpu ta" "t_proc n1 = t_proc ta"
    and o1: "\<forall>x. x \<noteq> A \<and> x \<noteq> c0 \<longrightarrow> threads s1 x = threads ?sc x"
    and p1: "procs s1 = procs ?sc"
    and cp1: "\<exists>ce'. cpus s1 ca = Some ce'"
    using notp by auto
  from cp1 obtain ce1 where ce1: "cpus s1 ca = Some ce1" by blast
  have lvl2: "next_state n1 = THREAD_STATE_RUNNING \<or> next_state n1 = THREAD_STATE_READY
              \<longrightarrow> priority n1 = p \<or> priority n1 \<le> THREAD_IDLE_PRIORITY K"
    using n1 ta by simp
  have c2: "fpu_state_saved n1 \<or> fpu_cpu n1 \<noteq> None" "t_proc n1 = Some pa"
    "procs s1 pa = Some pra" "run_q s1 p = B # [C]" "threads s1 B = Some tb"
    "procs s1 pb = Some prb"
    using n1 fpu pa pb p1 q1 o1 d tb by simp_all
  from resched_step [OF K r1(2) n1(1) n1(2) ce1 c2(1) c2(2) c2(3) lvl2 c2(4) d(4) em1
      c2(5) pb(1) c2(6)]
  obtain s2 n2 where r2: "thread_resched K s1 = Inr s2" "current_thread s2 = Some B"
    and q2: "run_q s2 p = [C, A]"
    and em2: "\<forall>k. THREAD_IDLE_PRIORITY K < k \<and> k \<noteq> p \<longrightarrow> run_q s2 k = []"
    and n2: "threads s2 B = Some n2" "cpu n2 = Some ca" "next_state n2 = THREAD_STATE_READY"
      "priority n2 = priority tb" "fpu_state_saved n2 = fpu_state_saved tb"
      "fpu_cpu n2 = fpu_cpu tb" "t_proc n2 = t_proc tb"
    and o2: "\<forall>x. x \<noteq> B \<and> x \<noteq> A \<longrightarrow> threads s2 x = threads s1 x"
    and p2: "procs s2 = procs s1"
    and cp2: "\<exists>ce'. cpus s2 ca = Some ce'"
    using n1 ta by auto
  from cp2 obtain ce2 where ce2: "cpus s2 ca = Some ce2" by blast
  have lvl3: "next_state n2 = THREAD_STATE_RUNNING \<or> next_state n2 = THREAD_STATE_READY
              \<longrightarrow> priority n2 = p \<or> priority n2 \<le> THREAD_IDLE_PRIORITY K"
    using n2 tb by simp
  have tc2: "threads s2 C = Some tc"
    using o2 o1 d tc by simp
  have c3: "fpu_state_saved n2 \<or> fpu_cpu n2 \<noteq> None" "t_proc n2 = Some pb"
    "procs s2 pb = Some prb" "run_q s2 p = C # [A]"
    "procs s2 pc = Some prc"
    using n2 fpu pb pc p1 p2 q2 by simp_all
  from resched_step [OF K r2(2) n2(1) n2(2) ce2 c3(1) c3(2) c3(3) lvl3 c3(4) d(6) em2
      tc2 pc(1) c3(5)]
  obtain s3 where r3: "thread_resched K s2 = Inr s3" "current_thread s3 = Some C"
    by blast
  show ?thesis
    apply (rule exI [of _ ?sa])
    apply (rule exI [of _ ?sb])
    apply (rule exI [of _ ?sc])
    apply (rule exI [of _ s1])
    apply (rule exI [of _ s2])
    apply (rule exI [of _ s3])
    apply (intro conjI)
             apply (rule ea)
            apply (rule eb)
           apply (rule ec)
          apply (rule qc)
         apply (rule r1(1))
        apply (rule r1(2))
       apply (rule r2(1))
      apply (rule r2(2))
     apply (rule r3(1))
    apply (rule r3(2))
    done
qed

theorem three_dispatches_fifo_witness:
  "\<exists>sa sb sc s1 s2 s3.
           thread_enqueue_run_q K0 2 S2 = Inr sa \<and> thread_enqueue_run_q K0 3 sa = Inr sb
         \<and> thread_enqueue_run_q K0 4 sb = Inr sc \<and> run_q sc 20 = [2, 3, 4]
         \<and> thread_resched K0 sc = Inr s1 \<and> current_thread s1 = Some 2
         \<and> thread_resched K0 s1 = Inr s2 \<and> current_thread s2 = Some 3
         \<and> thread_resched K0 s2 = Inr s3 \<and> current_thread s3 = Some 4"
proof -
  let ?old = "thread0\<lparr>cpu := Some 0, t_state := THREAD_STATE_RUNNING\<rparr>"
  let ?ta = "thread0\<lparr>t_id := 6, t_proc := Some 1, priority := 20, return_code_sem := 3\<rparr>"
  let ?tb = "thread0\<lparr>t_id := 7, t_proc := Some 1, priority := 20, return_code_sem := 4\<rparr>"
  let ?tc = "thread0\<lparr>t_id := 8, t_proc := Some 1, priority := 20, return_code_sem := 5\<rparr>"
  let ?ce = "\<lparr>cpu_num = 0, preempted = False, quantum_timer = None, fpu_state_thread = None\<rparr>"
  let ?p0 = "proc0\<lparr>children := [1]\<rparr>"
  let ?p1 = "proc0\<lparr>p_id := 2, p_name := ''init'', children := [],
                                     num_threads := 4, thread_list := [4, 3, 2, 1],
                                     main_thread := Some 1, aspace_id := 1\<rparr>"
  have K: "0 \<le> THREAD_IDLE_PRIORITY K0" "THREAD_IDLE_PRIORITY K0 < 20"
      "20 \<le> THREAD_MAX_PRIORITY K0" "THREAD_MAX_PRIORITY K0 < THREAD_MIN_RT_PRIORITY K0"
    by (simp_all add: K0_def)
  have dist: "distinct [0, 2, 3, 4 :: nat]" by simp
  have cur: "current_thread S2 = Some 0" "threads S2 0 = Some ?old"
      "cpu ?old = Some 0" "cpus S2 0 = Some ?ce"
    by (simp_all add: S2_def S0_def)
  have idle: "next_state ?old = THREAD_STATE_RUNNING \<or> next_state ?old = THREAD_STATE_READY
               \<longrightarrow> priority ?old \<le> THREAD_IDLE_PRIORITY K0"
    by (simp add: thread0_def K0_def)
  have ta: "threads S2 2 = Some ?ta" "priority ?ta = 20" by (simp_all add: S2_def)
  have tb: "threads S2 3 = Some ?tb" "priority ?tb = 20" by (simp_all add: S2_def)
  have tc: "threads S2 4 = Some ?tc" "priority ?tc = 20" by (simp_all add: S2_def)
  have fpu: "fpu_state_saved ?old \<or> fpu_cpu ?old \<noteq> None"
      "fpu_state_saved ?ta \<or> fpu_cpu ?ta \<noteq> None" "fpu_state_saved ?tb \<or> fpu_cpu ?tb \<noteq> None"
    by (simp_all add: thread0_def)
  have po: "t_proc ?old = Some 0" "procs S2 0 = Some ?p0" by (simp_all add: S2_def thread0_def)
  have pa: "t_proc ?ta = Some 1" "procs S2 1 = Some ?p1" by (simp_all add: S2_def)
  have pb: "t_proc ?tb = Some 1" "procs S2 1 = Some ?p1" by (simp_all add: S2_def)
  have pc: "t_proc ?tc = Some 1" "procs S2 1 = Some ?p1" by (simp_all add: S2_def)
  have empt: "\<forall>k. THREAD_IDLE_PRIORITY K0 < k \<longrightarrow> run_q S2 k = []"
    by (simp add: S2_def S0_def)
  show ?thesis
    by (rule three_dispatches_fifo [OF K dist cur idle ta tb tc fpu po pa pb pc empt])
qed

end
